theory Spec2Isabelle
  imports Complex_Main "HOL-Library.AList" "HOL-Library.Sublist" "HOL-Library.Word"
begin

section \<open>JavaScript values of a decoded JSON response\<close>

text \<open>
  A response is what \<^verbatim>\<open>response.json()\<close> yields: a tree of JSON values. An object is an
  association list in property order, looked up by its first binding. \<^verbatim>\<open>undefined\<close> is not
  a JSON value: a JavaScript value that may be \<^verbatim>\<open>undefined\<close> is a \<open>json option\<close>, with
  \<open>None\<close> for \<^verbatim>\<open>undefined\<close>. A \<open>char\<close> stands for one code unit of a JavaScript string,
  so \<open>length\<close> is the source's \<^verbatim>\<open>.length\<close>.
\<close>

datatype json =
    JNull
  | JBool bool
  | JNum rat
  | JStr string
  | JArr "json list"
  | JObj "(string \<times> json) list"

type_synonym jsval = "json option"

text \<open>
  The exceptions of the model: a TypeError, the SyntaxError of a body that is not JSON, an
  error of the file system, an error of the network (\<open>NetError True\<close> when its code is
  \<^verbatim>\<open>ETIMEDOUT\<close>), and any other error. \<open>OutsideModel\<close> is not an exception: it marks a step
  whose result is not a value of the model (an array that gains a hole or a named property, a
  comparison that coerces an object, a \<^verbatim>\<open>Buffer\<close> made from an array). No handler of the model
  catches it.
\<close>

datatype exn = TypeError | SyntaxError | FsError | NetError bool | OtherError | OutsideModel

text \<open>JavaScript truthiness of a JSON value (for \<^verbatim>\<open>a && b\<close> and \<^verbatim>\<open>if (a)\<close>).\<close>

fun truthy :: "json \<Rightarrow> bool" where
  "truthy JNull = False"
| "truthy (JBool b) = b"
| "truthy (JNum n) = (n \<noteq> 0)"
| "truthy (JStr s) = (s \<noteq> [])"
| "truthy (JArr xs) = True"
| "truthy (JObj kvs) = True"

fun truthy_val :: "jsval \<Rightarrow> bool" where
  "truthy_val None = False"
| "truthy_val (Some v) = truthy v"

subsection \<open>Decimal rendering of an index\<close>

text \<open>\<^verbatim>\<open>`${index}`\<close> for a non-negative integer: its decimal digits, no leading zero.\<close>

definition digit_char :: "nat \<Rightarrow> char" where
  "digit_char d = ''0123456789'' ! d"

fun show_nat :: "nat \<Rightarrow> string" where
  "show_nat n = (if n < 10 then [digit_char n] else show_nat (n div 10) @ [digit_char (n mod 10)])"

declare show_nat.simps [simp del]

definition is_digit :: "char \<Rightarrow> bool" where
  "is_digit c = (c \<in> set ''0123456789'')"

subsection \<open>Property access\<close>

text \<open>
  The own properties of a value under a string key. An array (and a string) has the element
  of index \<open>i\<close> under the key that is the decimal rendering of \<open>i\<close>, and \<^verbatim>\<open>length\<close>.
  Reading a property of \<^verbatim>\<open>null\<close> throws a TypeError; a boolean or a number has no own
  property. Members inherited from the built-in prototypes (\<^verbatim>\<open>constructor\<close>,
  \<^verbatim>\<open>toString\<close>, ...) are not modelled: no segment that the masker builds names one.
\<close>

definition index_of :: "nat \<Rightarrow> string \<Rightarrow> nat option" where
  "index_of n k = List.find (\<lambda>i. show_nat i = k) [0..<n]"

fun getProp :: "json \<Rightarrow> string \<Rightarrow> exn + jsval" where
  "getProp JNull k = Inl TypeError"
| "getProp (JBool b) k = Inr None"
| "getProp (JNum n) k = Inr None"
| "getProp (JStr s) k =
     (case index_of (length s) k of
        Some i \<Rightarrow> Inr (Some (JStr [s ! i]))
      | None \<Rightarrow> if k = ''length'' then Inr (Some (JNum (of_nat (length s)))) else Inr None)"
| "getProp (JArr xs) k =
     (case index_of (length xs) k of
        Some i \<Rightarrow> Inr (Some (xs ! i))
      | None \<Rightarrow> if k = ''length'' then Inr (Some (JNum (of_nat (length xs)))) else Inr None)"
| "getProp (JObj kvs) k = Inr (map_of kvs k)"

text \<open>
  \<^verbatim>\<open>current[key] = value\<close> in module (strict) code. On \<^verbatim>\<open>null\<close> and on a primitive it
  throws a TypeError. On an array it replaces an existing element; any other key would grow
  the array or give it a named property, which leaves the JSON values.
\<close>

fun assignProp :: "json \<Rightarrow> string \<Rightarrow> json \<Rightarrow> exn + json" where
  "assignProp (JObj kvs) k v = Inr (JObj (AList.update k v kvs))"
| "assignProp (JArr xs) k v =
     (case index_of (length xs) k of
        Some i \<Rightarrow> Inr (JArr (xs[i := v]))
      | None \<Rightarrow> Inl OutsideModel)"
| "assignProp _ k v = Inl TypeError"

text \<open>
  The source mutates the object it reached in place, and the change is seen from the root.
  A value of the model is a tree without sharing, so the changed child is put back under its
  key. A string or a number is a value, not a reference: nothing is put back into it.
\<close>

fun putBack :: "json \<Rightarrow> string \<Rightarrow> json \<Rightarrow> json" where
  "putBack (JObj kvs) k c = JObj (AList.update k c kvs)"
| "putBack (JArr xs) k c =
     (case index_of (length xs) k of Some i \<Rightarrow> JArr (xs[i := c]) | None \<Rightarrow> JArr xs)"
| "putBack v k c = v"

section \<open>The path accessor (utils.js)\<close>

text \<open>\<^verbatim>\<open>path.replace(/\[(\d+)\]/g, '.$1')\<close>: every \<^verbatim>\<open>[digits]\<close> becomes \<^verbatim>\<open>.digits\<close>.\<close>

function replaceBrackets :: "string \<Rightarrow> string" where
  "replaceBrackets [] = []"
| "replaceBrackets (c # cs) =
     (if c = CHR ''['' \<and> takeWhile is_digit cs \<noteq> [] \<and>
         dropWhile is_digit cs \<noteq> [] \<and> hd (dropWhile is_digit cs) = CHR '']''
      then CHR ''.'' # takeWhile is_digit cs @ replaceBrackets (tl (dropWhile is_digit cs))
      else c # replaceBrackets cs)"
  by pat_completeness auto
termination
proof (relation "measure length")
  show "wf (measure length)" by simp
next
  fix c :: char and cs :: string
  have "length (dropWhile is_digit cs) \<le> length cs"
    by (rule length_dropWhile_le)
  then show "(tl (dropWhile is_digit cs), c # cs) \<in> measure length" by simp
next
  fix c :: char and cs :: string
  show "(cs, c # cs) \<in> measure length" by simp
qed

text \<open>\<^verbatim>\<open>.split('.')\<close>: the pieces between the dots; always at least one piece.\<close>

fun splitOn :: "char \<Rightarrow> string \<Rightarrow> string \<Rightarrow> string list" where
  "splitOn d acc [] = [acc]"
| "splitOn d acc (c # cs) = (if c = d then acc # splitOn d [] cs else splitOn d (acc @ [c]) cs)"

definition pathSegments :: "string \<Rightarrow> string list" where
  "pathSegments path = splitOn CHR ''.'' [] (replaceBrackets path)"

text \<open>The loop of \<^verbatim>\<open>getValueAtPath\<close>: \<open>cur\<close> is \<^verbatim>\<open>current\<close>, the list the segments left.\<close>

fun getLoop :: "jsval \<Rightarrow> string list \<Rightarrow> exn + jsval" where
  "getLoop cur [] = Inr cur"
| "getLoop None (s # ss) = Inr None"
| "getLoop (Some v) (s # ss) =
     (case getProp v s of Inl e \<Rightarrow> Inl e | Inr c \<Rightarrow> getLoop c ss)"

definition getValueAtPath :: "jsval \<Rightarrow> string \<Rightarrow> exn + jsval" where
  "getValueAtPath obj path = getLoop obj (pathSegments path)"

text \<open>
  The loop of \<^verbatim>\<open>setValueAtPath\<close> and its final assignment, returning the root as the
  source leaves it. With one segment left the loop is over and the assignment runs.
\<close>

fun setLoop :: "json \<Rightarrow> string list \<Rightarrow> json \<Rightarrow> exn + json" where
  "setLoop cur [] v = Inr cur"
| "setLoop cur [s] v = assignProp cur s v"
| "setLoop cur (s # t # ss) v =
     (case getProp cur s of
        Inl e \<Rightarrow> Inl e
      | Inr None \<Rightarrow> Inr cur
      | Inr (Some child) \<Rightarrow>
          (case setLoop child (t # ss) v of
             Inl e \<Rightarrow> Inl e
           | Inr child' \<Rightarrow> Inr (putBack cur s child')))"

text \<open>
  \<^verbatim>\<open>setValueAtPath\<close> on a root that is a JSON value (on \<^verbatim>\<open>undefined\<close> its first property read
  throws). The result is the root after the call.
\<close>

definition setValueAtPath :: "json \<Rightarrow> string \<Rightarrow> json \<Rightarrow> exn + json" where
  "setValueAtPath obj path v = setLoop obj (pathSegments path) v"

section \<open>The binary-content masker (utils.js)\<close>

text \<open>
  \<^verbatim>\<open>Math.floor(base64Value.length / 4 * 3 / 1024)\<close>. The source computes in doubles; a
  string of the engine is shorter than \<open>2 ^ 51\<close>, where every intermediate value is a double
  without rounding, so the model computes with the exact quotient.
\<close>

definition approxKB :: "nat \<Rightarrow> nat" where
  "approxKB L = nat \<lfloor>(of_nat L :: rat) / 4 * 3 / 1024\<rfloor>"

definition maskedValue :: "string \<Rightarrow> string" where
  "maskedValue s = ''[BASE64_DATA_MASKED: ~'' @ show_nat (approxKB (length s)) @ '' KB]''"

text \<open>\<^verbatim>\<open>x && Array.isArray(x)\<close>: the elements when \<open>x\<close> is an array.\<close>

fun asArray :: "jsval \<Rightarrow> json list option" where
  "asArray (Some (JArr xs)) = Some xs"
| "asArray _ = None"

definition imagenPath :: "nat \<Rightarrow> string" where
  "imagenPath i = ''predictions['' @ show_nat i @ ''].bytesBase64Encoded''"

definition geminiPath :: "nat \<Rightarrow> nat \<Rightarrow> string" where
  "geminiPath i j =
     ''candidates['' @ show_nat i @ ''].content.parts['' @ show_nat j @ ''].inlineData.data''"

definition findImagenBase64Paths :: "json \<Rightarrow> exn + string list" where
  "findImagenBase64Paths obj =
     (case getProp obj ''predictions'' of
        Inl e \<Rightarrow> Inl e
      | Inr p \<Rightarrow>
          (case asArray p of
             None \<Rightarrow> Inr []
           | Some preds \<Rightarrow> Inr (map imagenPath [0..<length preds])))"

text \<open>
  The guard \<^verbatim>\<open>candidate.content && candidate.content.parts && Array.isArray(...)\<close>: the
  parts of a candidate when the guard holds. Reading \<^verbatim>\<open>.content\<close> of \<^verbatim>\<open>null\<close> throws.
\<close>

definition candidateParts :: "json \<Rightarrow> exn + json list option" where
  "candidateParts c =
     (case getProp c ''content'' of
        Inl e \<Rightarrow> Inl e
      | Inr None \<Rightarrow> Inr None
      | Inr (Some content) \<Rightarrow>
          if truthy content
          then (case getProp content ''parts'' of Inl e \<Rightarrow> Inl e | Inr parts \<Rightarrow> Inr (asArray parts))
          else Inr None)"

fun geminiPathsFrom :: "nat \<Rightarrow> json list \<Rightarrow> exn + string list" where
  "geminiPathsFrom i [] = Inr []"
| "geminiPathsFrom i (c # cs) =
     (case candidateParts c of
        Inl e \<Rightarrow> Inl e
      | Inr po \<Rightarrow>
          (case geminiPathsFrom (Suc i) cs of
             Inl e \<Rightarrow> Inl e
           | Inr qs \<Rightarrow>
               Inr ((case po of None \<Rightarrow> [] | Some parts \<Rightarrow> map (geminiPath i) [0..<length parts])
                    @ qs)))"

definition findGeminiBase64Paths :: "json \<Rightarrow> exn + string list" where
  "findGeminiBase64Paths obj =
     (case getProp obj ''candidates'' of
        Inl e \<Rightarrow> Inl e
      | Inr c \<Rightarrow> (case asArray c of None \<Rightarrow> Inr [] | Some cands \<Rightarrow> geminiPathsFrom 0 cands))"

text \<open>The \<^verbatim>\<open>if ... else if ...\<close> of \<^verbatim>\<open>maskBase64Content\<close> that fills \<^verbatim>\<open>paths\<close>.\<close>

definition base64Paths :: "json \<Rightarrow> exn + string list" where
  "base64Paths masked =
     (case getProp masked ''predictions'' of
        Inl e \<Rightarrow> Inl e
      | Inr p \<Rightarrow>
          (case asArray p of
             Some preds \<Rightarrow> findImagenBase64Paths masked
           | None \<Rightarrow>
               (case getProp masked ''candidates'' of
                  Inl e \<Rightarrow> Inl e
                | Inr c \<Rightarrow>
                    (case asArray c of
                       Some cands \<Rightarrow> findGeminiBase64Paths masked
                     | None \<Rightarrow> Inr []))))"

text \<open>\<^verbatim>\<open>typeof v === 'string' && v.length > 100\<close>: the string when the test holds.\<close>

fun longString :: "jsval \<Rightarrow> string option" where
  "longString (Some (JStr s)) = (if 100 < length s then Some s else None)"
| "longString _ = None"

text \<open>\<^verbatim>\<open>paths.forEach(...)\<close>, threading the copy that the callback mutates.\<close>

fun maskPaths :: "json \<Rightarrow> string list \<Rightarrow> exn + json" where
  "maskPaths m [] = Inr m"
| "maskPaths m (p # ps) =
     (case getValueAtPath (Some m) p of
        Inl e \<Rightarrow> Inl e
      | Inr v \<Rightarrow>
          (case longString v of
             None \<Rightarrow> maskPaths m ps
           | Some s \<Rightarrow>
               (case setValueAtPath m p (JStr (maskedValue s)) of
                  Inl e \<Rightarrow> Inl e
                | Inr m' \<Rightarrow> maskPaths m' ps)))"

text \<open>
  \<^verbatim>\<open>JSON.parse(JSON.stringify(obj))\<close> of a JSON value is a fresh value equal to it. The
  model has no sharing, so the copy is the value.
\<close>

definition deepCopy :: "json \<Rightarrow> json" where
  "deepCopy v = v"

fun isObject :: "json \<Rightarrow> bool" where
  "isObject JNull = True"
| "isObject (JArr xs) = True"
| "isObject (JObj kvs) = True"
| "isObject _ = False"

definition maskBase64Content :: "jsval \<Rightarrow> exn + jsval" where
  "maskBase64Content obj =
     (case obj of
        None \<Rightarrow> Inr None
      | Some v \<Rightarrow>
          if \<not> truthy v \<or> \<not> isObject v then Inr (Some v)
          else
            (case base64Paths (deepCopy v) of
               Inl e \<Rightarrow> Inl e
             | Inr paths \<Rightarrow>
                 (case maskPaths (deepCopy v) paths of
                    Inl e \<Rightarrow> Inl e
                  | Inr masked \<Rightarrow> Inr (Some masked))))"

subsection \<open>Vocabulary for the statements about the masker\<close>

text \<open>
  The paths that \<^verbatim>\<open>maskBase64Content\<close> collects on an input: those of the branch it takes,
  none when the input is not an object or the collection throws.
\<close>

definition recognisedPaths :: "json \<Rightarrow> string list" where
  "recognisedPaths obj = (case base64Paths obj of Inl e \<Rightarrow> [] | Inr ps \<Rightarrow> ps)"

text \<open>
  Two paths are apart when neither addresses a field inside the field of the other (or that
  field itself): neither list of segments begins with the other.
\<close>

definition apart :: "string \<Rightarrow> string \<Rightarrow> bool" where
  "apart p q \<longleftrightarrow>
     \<not> prefix (pathSegments p) (pathSegments q) \<and> \<not> prefix (pathSegments q) (pathSegments p)"

definition separated :: "string list \<Rightarrow> bool" where
  "separated ps \<longleftrightarrow> distinct ps \<and> (\<forall>a \<in> set ps. \<forall>b \<in> set ps. a \<noteq> b \<longrightarrow> apart a b)"

text \<open>What the callback of \<^verbatim>\<open>forEach\<close> leaves at a path that held \<open>v\<close>.\<close>

fun expected :: "jsval \<Rightarrow> jsval" where
  "expected v = (case longString v of None \<Rightarrow> v | Some s \<Rightarrow> Some (JStr (maskedValue s)))"

text \<open>Reading a decimal rendering back, and the values that are not references.\<close>

definition digit_val :: "char \<Rightarrow> nat" where
  "digit_val c = length (takeWhile (\<lambda>x. x \<noteq> c) ''0123456789'')"

definition read_nat :: "string \<Rightarrow> nat" where
  "read_nat s = foldl (\<lambda>a c. 10 * a + digit_val c) 0 s"

fun is_prim :: "json \<Rightarrow> bool" where
  "is_prim (JBool b) = True"
| "is_prim (JNum n) = True"
| "is_prim (JStr s) = True"
| "is_prim _ = False"

text \<open>
  Responses used as concrete inputs. \<open>both_arrays\<close> carries an empty \<^verbatim>\<open>predictions\<close> array
  and a candidate whose inline data is 101 characters long; \<open>one_prediction\<close> carries a
  prediction of 101 characters beside the same candidate; \<open>two_parts\<close> carries one candidate
  with a part of 101 characters and a part of 100.
\<close>

definition both_arrays :: json where
  "both_arrays =
     JObj [(''predictions'', JArr []),
           (''candidates'', JArr [JObj [(''content'', JObj [(''parts'',
              JArr [JObj [(''inlineData'', JObj [(''data'', JStr (replicate 101 (CHR ''A'')))])]])])]])]"

definition one_prediction :: json where
  "one_prediction =
     JObj [(''predictions'', JArr [JObj [(''bytesBase64Encoded'', JStr (replicate 101 (CHR ''A'')))]]),
           (''candidates'', JArr [JObj [(''content'', JObj [(''parts'',
              JArr [JObj [(''inlineData'', JObj [(''data'', JStr (replicate 101 (CHR ''A'')))])]])])]])]"

definition one_prediction_masked :: json where
  "one_prediction_masked =
     JObj [(''predictions'', JArr [JObj [(''bytesBase64Encoded'', JStr ''[BASE64_DATA_MASKED: ~0 KB]'')]]),
           (''candidates'', JArr [JObj [(''content'', JObj [(''parts'',
              JArr [JObj [(''inlineData'', JObj [(''data'', JStr (replicate 101 (CHR ''A'')))])]])])]])]"

definition two_parts :: json where
  "two_parts =
     JObj [(''candidates'', JArr [JObj [(''content'', JObj [(''parts'',
        JArr [JObj [(''inlineData'', JObj [(''data'', JStr (replicate 101 (CHR ''A'')))])],
              JObj [(''inlineData'', JObj [(''data'', JStr (replicate 100 (CHR ''A'')))])]])])]])]"

definition two_parts_masked :: json where
  "two_parts_masked =
     JObj [(''candidates'', JArr [JObj [(''content'', JObj [(''parts'',
        JArr [JObj [(''inlineData'', JObj [(''data'', JStr ''[BASE64_DATA_MASKED: ~0 KB]'')])],
              JObj [(''inlineData'', JObj [(''data'', JStr (replicate 100 (CHR ''A'')))])]])])]])]"

section \<open>The platform: paths, the file system, buffers\<close>

text \<open>
  \<^verbatim>\<open>path.join\<close>, \<^verbatim>\<open>path.dirname\<close>, \<^verbatim>\<open>path.basename\<close> (with the extension to drop) and
  \<^verbatim>\<open>path.extname\<close> are Node's; the functions that use them take them as parameters.
\<close>

record platform =
  pathJoin :: "string \<Rightarrow> string \<Rightarrow> string"
  pathDirname :: "string \<Rightarrow> string"
  pathBasename :: "string \<Rightarrow> string \<Rightarrow> string"
  pathExtname :: "string \<Rightarrow> string"

type_synonym byte = "8 word"

text \<open>
  What \<^verbatim>\<open>fs.writeFileSync\<close> is given: the bytes of a \<^verbatim>\<open>Buffer\<close>, the characters of a string,
  the text \<^verbatim>\<open>JSON.stringify(v, null, indent)\<close>, kept as \<open>v\<close> and the indent, or the debug
  record of a request (its URL, options, time and proxy flag), kept without its text.
\<close>

datatype content = Bytes "byte list" | Chars string | JsonChars json nat | DebugRecord

text \<open>
  The file system: the directories known to exist, the writes made so far in their order, and
  the paths on which \<^verbatim>\<open>mkdirSync\<close> and \<^verbatim>\<open>writeFileSync\<close> throw. A path is its string: two
  spellings of one directory are two entries, and \<^verbatim>\<open>mkdirSync\<close> with \<^verbatim>\<open>recursive\<close> accepts a
  directory that exists.
\<close>

record fsys =
  dirs :: "string list"
  files :: "(string \<times> content) list"
  denied :: "string \<Rightarrow> bool"

text \<open>Reading a file back gives what the last write to its path stored.\<close>

definition readFile :: "fsys \<Rightarrow> string \<Rightarrow> content option" where
  "readFile s p = map_of (rev (files s)) p"

text \<open>
  A computation on the file system that returns or throws. What it wrote before it threw
  stays written. \<open>io_catch\<close> is \<^verbatim>\<open>try { ... } catch (e) { ... }\<close>.
\<close>

type_synonym 'a io = "fsys \<Rightarrow> (exn + 'a) \<times> fsys"

definition io_return :: "'a \<Rightarrow> 'a io" where
  "io_return x s = (Inr x, s)"

definition io_throw :: "exn \<Rightarrow> 'a io" where
  "io_throw e s = (Inl e, s)"

definition io_lift :: "exn + 'a \<Rightarrow> 'a io" where
  "io_lift r s = (r, s)"

definition io_bind :: "'a io \<Rightarrow> ('a \<Rightarrow> 'b io) \<Rightarrow> 'b io" where
  "io_bind m f s = (case m s of (Inl e, s') \<Rightarrow> (Inl e, s') | (Inr x, s') \<Rightarrow> f x s')"

definition io_catch :: "'a io \<Rightarrow> (exn \<Rightarrow> 'a io) \<Rightarrow> 'a io" where
  "io_catch m h s =
     (case m s of
        (Inl e, s') \<Rightarrow> if e = OutsideModel then (Inl e, s') else h e s'
      | (Inr x, s') \<Rightarrow> (Inr x, s'))"

definition mkdirSync :: "string \<Rightarrow> unit io" where
  "mkdirSync dir s =
     (if denied s dir then (Inl FsError, s) else (Inr (), s\<lparr>dirs := dirs s @ [dir]\<rparr>))"

definition writeFileSync :: "string \<Rightarrow> content \<Rightarrow> unit io" where
  "writeFileSync p c s =
     (if denied s p then (Inl FsError, s) else (Inr (), s\<lparr>files := files s @ [(p, c)]\<rparr>))"

text \<open>\<^verbatim>\<open>if (!fs.existsSync(dir)) { fs.mkdirSync(dir, { recursive: true }); }\<close>\<close>

definition ensureDir :: "string \<Rightarrow> unit io" where
  "ensureDir dir s = (if dir \<in> set (dirs s) then (Inr (), s) else mkdirSync dir s)"

subsection \<open>Base64\<close>

text \<open>
  \<^verbatim>\<open>buf.toString('base64')\<close>: the standard alphabet, three bytes to four characters, padded
  with \<^verbatim>\<open>=\<close>.
\<close>

definition b64alphabet :: string where
  "b64alphabet = ''ABCDEFGHIJKLMNOPQRSTUVWXYZabcdefghijklmnopqrstuvwxyz0123456789+/''"

definition b64char :: "nat \<Rightarrow> char" where
  "b64char n = b64alphabet ! n"

fun encodeBase64 :: "byte list \<Rightarrow> string" where
  "encodeBase64 [] = []"
| "encodeBase64 [a] = [b64char (unat a div 4), b64char (unat a mod 4 * 16), CHR ''='', CHR ''='']"
| "encodeBase64 [a, b] =
     [b64char (unat a div 4), b64char (unat a mod 4 * 16 + unat b div 16),
      b64char (unat b mod 16 * 4), CHR ''='']"
| "encodeBase64 (a # b # c # rest) =
     [b64char (unat a div 4), b64char (unat a mod 4 * 16 + unat b div 16),
      b64char (unat b mod 16 * 4 + unat c div 64), b64char (unat c mod 64)] @ encodeBase64 rest"

text \<open>
  \<^verbatim>\<open>Buffer.from(s, 'base64')\<close> as Node decodes: a character outside the alphabet is skipped,
  \<^verbatim>\<open>-\<close> and \<^verbatim>\<open>_\<close> of the URL-safe alphabet count as \<^verbatim>\<open>+\<close> and \<^verbatim>\<open>/\<close>, and decoding stops at
  the first \<^verbatim>\<open>=\<close>. Two characters give one byte, three give two, four give three.
\<close>

fun positionIn :: "'a list \<Rightarrow> 'a \<Rightarrow> nat option" where
  "positionIn [] c = None"
| "positionIn (x # xs) c = (if x = c then Some 0 else map_option Suc (positionIn xs c))"

definition b64val :: "char \<Rightarrow> nat option" where
  "b64val c =
     (if c = CHR ''-'' then Some 62 else if c = CHR ''_'' then Some 63
      else positionIn b64alphabet c)"

fun decodeSextets :: "nat list \<Rightarrow> byte list" where
  "decodeSextets (w # x # y # z # rest) =
     [of_nat (w * 4 + x div 16), of_nat (x mod 16 * 16 + y div 4), of_nat (y mod 4 * 64 + z)]
       @ decodeSextets rest"
| "decodeSextets [w, x, y] = [of_nat (w * 4 + x div 16), of_nat (x mod 16 * 16 + y div 4)]"
| "decodeSextets [w, x] = [of_nat (w * 4 + x div 16)]"
| "decodeSextets _ = []"

definition decodeBase64 :: "string \<Rightarrow> byte list" where
  "decodeBase64 s = decodeSextets (List.map_filter b64val (takeWhile (\<lambda>c. c \<noteq> CHR ''='') s))"

text \<open>
  \<^verbatim>\<open>Buffer.from(data, 'base64')\<close> on a value of the response. A string is decoded; \<^verbatim>\<open>null\<close>, a
  boolean and a number throw a TypeError; an array or an object is read as a sequence of
  numbers, which the model leaves out.
\<close>

fun bufferFromBase64 :: "json \<Rightarrow> exn + byte list" where
  "bufferFromBase64 (JStr s) = Inr (decodeBase64 s)"
| "bufferFromBase64 (JArr xs) = Inl OutsideModel"
| "bufferFromBase64 (JObj kvs) = Inl OutsideModel"
| "bufferFromBase64 _ = Inl TypeError"

section \<open>The artifact writer (utils.js)\<close>

text \<open>
  The \<^verbatim>\<open>data\<close> argument of \<^verbatim>\<open>saveFile\<close>: a value (a string of the program or a field of the
  response), or the text of \<^verbatim>\<open>JSON.stringify\<close>.
\<close>

datatype filedata = Value json | Stringified json nat

definition fileData :: "filedata \<Rightarrow> bool \<Rightarrow> exn + content" where
  "fileData d isBase64 =
     (case d of
        Value v \<Rightarrow>
          if isBase64 then (case bufferFromBase64 v of Inl e \<Rightarrow> Inl e | Inr bs \<Rightarrow> Inr (Bytes bs))
          else (case v of JStr s \<Rightarrow> Inr (Chars s) | _ \<Rightarrow> Inl OutsideModel)
      | Stringified v indent \<Rightarrow>
          if isBase64 then Inl OutsideModel else Inr (JsonChars v indent))"

text \<open>
  \<^verbatim>\<open>saveFile(filePath, data, { isBase64 })\<close>; the messages it logs are not part of the model.
\<close>

definition saveFile :: "platform \<Rightarrow> string \<Rightarrow> filedata \<Rightarrow> bool \<Rightarrow> string io" where
  "saveFile pf filePath d isBase64 =
     io_bind (ensureDir (pathDirname pf filePath)) (\<lambda>_.
     io_bind (io_lift (fileData d isBase64)) (\<lambda>c.
     io_bind (writeFileSync filePath c) (\<lambda>_.
     io_return filePath)))"

text \<open>\<^verbatim>\<open>maskAndSaveJson(obj, filePath)\<close> with the default indent 2.\<close>

definition maskAndSaveJson :: "platform \<Rightarrow> json \<Rightarrow> string \<Rightarrow> string io" where
  "maskAndSaveJson pf obj filePath =
     io_bind (io_lift (maskBase64Content (Some obj))) (\<lambda>maskedObj.
       case maskedObj of
         None \<Rightarrow> io_throw OutsideModel
       | Some m \<Rightarrow> saveFile pf filePath (Stringified m 2) False)"

text \<open>The values of the base64 characters of a string up to its padding.\<close>

definition sextetsOf :: "string \<Rightarrow> nat list" where
  "sextetsOf s = List.map_filter b64val (takeWhile (\<lambda>c. c \<noteq> CHR ''='') s)"

text \<open>\<^verbatim>\<open>imageToBase64\<close> of utils.js: the file read back and encoded, for a file of bytes.\<close>

definition imageToBase64 :: "fsys \<Rightarrow> string \<Rightarrow> string option" where
  "imageToBase64 s p = (case readFile s p of Some (Bytes bs) \<Rightarrow> Some (encodeBase64 bs) | _ \<Rightarrow> None)"

subsection \<open>The path functions of Node on POSIX\<close>

text \<open>
  \<^verbatim>\<open>normalizeString\<close> of Node's \<^verbatim>\<open>path\<close> module, on the pieces of the path between its
  slashes: an empty piece and \<^verbatim>\<open>.\<close> are dropped, \<^verbatim>\<open>..\<close> removes the piece before it unless
  there is none or it is \<^verbatim>\<open>..\<close> itself; then it is kept in a relative path and dropped in an
  absolute one. \<open>res\<close> holds the pieces kept so far.
\<close>

fun normalizeSegments :: "bool \<Rightarrow> string list \<Rightarrow> string list \<Rightarrow> string list" where
  "normalizeSegments allowAboveRoot res [] = res"
| "normalizeSegments allowAboveRoot res (seg # segs) =
     (if seg = [] \<or> seg = ''.'' then normalizeSegments allowAboveRoot res segs
      else if seg = ''..''
      then (if res \<noteq> [] \<and> last res \<noteq> ''..''
            then normalizeSegments allowAboveRoot (butlast res) segs
            else if allowAboveRoot then normalizeSegments allowAboveRoot (res @ [seg]) segs
            else normalizeSegments allowAboveRoot res segs)
      else normalizeSegments allowAboveRoot (res @ [seg]) segs)"

fun joinSegments :: "string list \<Rightarrow> string" where
  "joinSegments [] = []"
| "joinSegments [seg] = seg"
| "joinSegments (seg # next # segs) = seg @ ''/'' @ joinSegments (next # segs)"

text \<open>\<^verbatim>\<open>path.posix.normalize\<close>\<close>

definition normalizePath :: "string \<Rightarrow> string" where
  "normalizePath p =
     (if p = [] then ''.''
      else
        (let isAbsolute = (hd p = CHR ''/'');
             trailingSeparator = (last p = CHR ''/'');
             res = joinSegments (normalizeSegments (\<not> isAbsolute) [] (splitOn CHR ''/'' [] p))
         in if res = []
            then (if isAbsolute then ''/'' else if trailingSeparator then ''./'' else ''.'')
            else (if isAbsolute then ''/'' else []) @ res
                   @ (if trailingSeparator then ''/'' else [])))"

text \<open>\<^verbatim>\<open>path.posix.join(a, b)\<close>: the arguments that are not empty, joined with a slash and normalized.\<close>

definition posixJoin :: "string \<Rightarrow> string \<Rightarrow> string" where
  "posixJoin a b =
     (if a = [] \<and> b = [] then ''.''
      else normalizePath (if a = [] then b else if b = [] then a else a @ ''/'' @ b))"

text \<open>
  \<^verbatim>\<open>path.posix.dirname\<close>: the path up to the last slash that stands after its first character
  and before the last piece, trailing slashes apart.
\<close>

definition posixDirname :: "string \<Rightarrow> string" where
  "posixDirname p =
     (if p = [] then ''.''
      else
        (let hasRoot = (hd p = CHR ''/'');
             r = dropWhile (\<lambda>c. c \<noteq> CHR ''/'') (dropWhile (\<lambda>c. c = CHR ''/'') (rev (tl p)))
         in if r = [] then (if hasRoot then ''/'' else ''.'')
            else if hasRoot \<and> length r = 1 then ''//''
            else take (length r) p))"

text \<open>The last piece of a path, trailing slashes apart.\<close>

definition lastComponent :: "string \<Rightarrow> string" where
  "lastComponent p =
     rev (takeWhile (\<lambda>c. c \<noteq> CHR ''/'') (dropWhile (\<lambda>c. c = CHR ''/'') (rev p)))"

text \<open>
  \<^verbatim>\<open>path.posix.extname\<close>: the last piece from its last dot on, empty when it has no dot, when
  the dot is its first character, and when the piece is \<^verbatim>\<open>..\<close>.
\<close>

definition posixExtname :: "string \<Rightarrow> string" where
  "posixExtname p =
     (let base = lastComponent p;
          ext = rev (takeWhile (\<lambda>c. c \<noteq> CHR ''.'') (rev base))
      in if CHR ''.'' \<notin> set base \<or> length base = Suc (length ext) \<or> base = ''..'' then []
         else CHR ''.'' # ext)"

text \<open>
  \<^verbatim>\<open>path.posix.basename(p, ext)\<close>. Without a suffix to drop (or with one longer than the path)
  it is the last piece. Otherwise the last piece is matched against the suffix from the right:
  a piece that ends with the suffix and is longer loses it, and a shorter piece that is the
  end of the suffix is returned with the trailing slashes of the path.
\<close>

definition posixBasename :: "string \<Rightarrow> string \<Rightarrow> string" where
  "posixBasename p ext =
     (let comp = lastComponent p in
      if ext = [] \<or> length p < length ext then comp
      else if ext = p then []
      else if suffix ext comp then (if ext = comp then comp else take (length comp - length ext) comp)
      else if suffix comp ext then comp @ takeWhile (\<lambda>c. c = CHR ''/'') (rev p)
      else comp)"

text \<open>
  The platform of the concrete runs, and a file system on which no directory exists yet and
  no path is denied.
\<close>

definition posixPlatform :: platform where
  "posixPlatform =
     \<lparr>pathJoin = posixJoin, pathDirname = posixDirname, pathBasename = posixBasename,
      pathExtname = posixExtname\<rparr>"

definition emptyFs :: fsys where
  "emptyFs = \<lparr>dirs = [], files = [], denied = (\<lambda>p. False)\<rparr>"

section \<open>Results of the generators\<close>

text \<open>
  A result is the object literal the source returns: its fields in order, each a boolean, a
  number (a count, or \<^verbatim>\<open>Infinity\<close>), a message, a value of the response, a path, a list of
  paths or a nested object. The messages of the source are constants here; \<open>ErrorMessage e\<close>
  is \<^verbatim>\<open>error.message\<close> of a caught exception.
\<close>

datatype message =
    ErrorMessage exn
  | RaiFiltered
  | NoImagesSaved
  | NoPredictions
  | ImageSafety
  | PartialProcessing
  | FailedToProcess string

datatype rvalue =
    RBool bool
  | RNum nat
  | RInfinity
  | RMsg message
  | RJson json
  | RPath string
  | RPaths "string list"
  | RObj "(string \<times> rvalue) list"

type_synonym result = "(string \<times> rvalue) list"

subsection \<open>Reading loosely typed values\<close>

text \<open>A property of a value that may be \<^verbatim>\<open>undefined\<close>: reading it of \<^verbatim>\<open>undefined\<close> throws.\<close>

fun getPropV :: "jsval \<Rightarrow> string \<Rightarrow> exn + jsval" where
  "getPropV None k = Inl TypeError"
| "getPropV (Some v) k = getProp v k"

text \<open>
  \<^verbatim>\<open>v.length > 0\<close> for a truthy \<open>v\<close>. A number or a boolean has no length and the comparison
  is false; the length of an object is a property that the comparison would coerce.
\<close>

fun lengthPositive :: "json \<Rightarrow> exn + bool" where
  "lengthPositive (JArr xs) = Inr (xs \<noteq> [])"
| "lengthPositive (JStr s) = Inr (s \<noteq> [])"
| "lengthPositive (JObj kvs) =
     (case map_of kvs ''length'' of None \<Rightarrow> Inr False | Some l \<Rightarrow> Inl OutsideModel)"
| "lengthPositive JNull = Inl TypeError"
| "lengthPositive _ = Inr False"

text \<open>
  The values \<^verbatim>\<open>v[0], ..., v[v.length - 1]\<close> that a loop \<^verbatim>\<open>for (i = 0; i < v.length; i++)\<close>
  visits on a truthy \<open>v\<close>: the elements of an array, the characters of a string.
\<close>

fun loopItems :: "json \<Rightarrow> exn + json list" where
  "loopItems (JArr xs) = Inr xs"
| "loopItems (JStr s) = Inr (map (\<lambda>c. JStr [c]) s)"
| "loopItems (JObj kvs) =
     (case map_of kvs ''length'' of None \<Rightarrow> Inr [] | Some l \<Rightarrow> Inl OutsideModel)"
| "loopItems JNull = Inl TypeError"
| "loopItems _ = Inr []"

text \<open>\<^verbatim>\<open>a && a.length > 0\<close>\<close>

definition nonEmpty :: "jsval \<Rightarrow> exn + bool" where
  "nonEmpty a = (if truthy_val a then lengthPositive (the a) else Inr False)"

section \<open>The Gemini normalizer (gemini.js)\<close>

text \<open>
  The test \<^verbatim>\<open>result.candidates && result.candidates.length > 0 &&
  result.candidates[0].finishReason === "IMAGE_SAFETY"\<close>.
\<close>

definition safetyBlocked :: "json \<Rightarrow> exn + bool" where
  "safetyBlocked result =
     (case getProp result ''candidates'' of
        Inl e \<Rightarrow> Inl e
      | Inr cands \<Rightarrow>
          (case nonEmpty cands of
             Inl e \<Rightarrow> Inl e
           | Inr False \<Rightarrow> Inr False
           | Inr True \<Rightarrow>
               (case getPropV cands ''0'' of
                  Inl e \<Rightarrow> Inl e
                | Inr first \<Rightarrow>
                    (case getPropV first ''finishReason'' of
                       Inl e \<Rightarrow> Inl e
                     | Inr fr \<Rightarrow> Inr (fr = Some (JStr ''IMAGE_SAFETY''))))))"

text \<open>
  \<^verbatim>\<open>part.inlineData && part.inlineData.data\<close>: the inline data object and its data when both
  are truthy.
\<close>

definition inlineImage :: "json \<Rightarrow> exn + (json \<times> json) option" where
  "inlineImage part =
     (case getProp part ''inlineData'' of
        Inl e \<Rightarrow> Inl e
      | Inr None \<Rightarrow> Inr None
      | Inr (Some inl) \<Rightarrow>
          if \<not> truthy inl then Inr None
          else (case getProp inl ''data'' of
                  Inl e \<Rightarrow> Inl e
                | Inr None \<Rightarrow> Inr None
                | Inr (Some d) \<Rightarrow> if truthy d then Inr (Some (inl, d)) else Inr None))"

text \<open>
  \<^verbatim>\<open>(part.inlineData.mimeType || 'image/png').split("/")[1]\<close> as the template renders it: the
  piece after the first slash, \<^verbatim>\<open>undefined\<close> when there is no slash. A truthy MIME type that
  is not a string has no \<^verbatim>\<open>split\<close>.
\<close>

definition extensionOf :: "json \<Rightarrow> exn + string" where
  "extensionOf inl =
     (case getProp inl ''mimeType'' of
        Inl e \<Rightarrow> Inl e
      | Inr m \<Rightarrow>
          (case (if truthy_val m then the m else JStr ''image/png'') of
             JStr t \<Rightarrow>
               (case splitOn CHR ''/'' [] t of
                  a # b # rest \<Rightarrow> Inr b
                | _ \<Rightarrow> Inr ''undefined'')
           | _ \<Rightarrow> Inl TypeError))"

definition generatedName :: "string \<Rightarrow> nat \<Rightarrow> string \<Rightarrow> string" where
  "generatedName requestId n ext = requestId @ ''_generated_'' @ show_nat n @ ''.'' @ ext"

text \<open>
  The loop over the parts, inside \<^verbatim>\<open>try\<close>. It carries \<^verbatim>\<open>imageCount\<close> and
  \<^verbatim>\<open>savedImagePaths\<close>, and ends with the exception that stopped it, if one did: the handler
  of the source returns the paths saved until then.
\<close>

fun extractParts ::
  "platform \<Rightarrow> string \<Rightarrow> string \<Rightarrow> nat \<Rightarrow> string list \<Rightarrow> json list \<Rightarrow> fsys
     \<Rightarrow> (exn option \<times> string list) \<times> fsys" where
  "extractParts pf requestId outDir imageCount saved [] s = ((None, saved), s)"
| "extractParts pf requestId outDir imageCount saved (part # parts) s =
     (case inlineImage part of
        Inl e \<Rightarrow> ((Some e, saved), s)
      | Inr None \<Rightarrow> extractParts pf requestId outDir imageCount saved parts s
      | Inr (Some (inl, imageData)) \<Rightarrow>
          (case extensionOf inl of
             Inl e \<Rightarrow> ((Some e, saved), s)
           | Inr ext \<Rightarrow>
               (case saveFile pf
                       (pathJoin pf outDir (generatedName requestId (Suc imageCount) ext))
                       (Value imageData) True s of
                  (Inl e, s') \<Rightarrow> ((Some e, saved), s')
                | (Inr imageFilename, s') \<Rightarrow>
                    extractParts pf requestId outDir (Suc imageCount)
                      (saved @ [imageFilename]) parts s')))"

text \<open>
  The body of \<^verbatim>\<open>try\<close>: the parts of the first candidate, none when \<^verbatim>\<open>candidates\<close>, its
  \<^verbatim>\<open>content\<close> or the \<^verbatim>\<open>parts\<close> are missing.
\<close>

definition firstCandidateParts :: "json \<Rightarrow> exn + json list" where
  "firstCandidateParts result =
     (case getProp result ''candidates'' of
        Inl e \<Rightarrow> Inl e
      | Inr cands \<Rightarrow>
          (case nonEmpty cands of
             Inl e \<Rightarrow> Inl e
           | Inr False \<Rightarrow> Inr []
           | Inr True \<Rightarrow>
               (case getPropV cands ''0'' of
                  Inl e \<Rightarrow> Inl e
                | Inr candidate \<Rightarrow>
                    (case getPropV candidate ''content'' of
                       Inl e \<Rightarrow> Inl e
                     | Inr content \<Rightarrow>
                         if \<not> truthy_val content then Inr []
                         else (case getPropV content ''parts'' of
                                 Inl e \<Rightarrow> Inl e
                               | Inr parts \<Rightarrow>
                                   if \<not> truthy_val parts then Inr []
                                   else loopItems (the parts))))))"

definition safetyResult :: "string \<Rightarrow> result" where
  "safetyResult responseFilename =
     [(''success'', RBool False), (''error'', RMsg ImageSafety), (''safetyBlock'', RBool True),
      (''responseFile'', RPath responseFilename)]"

definition warningResult :: "string \<Rightarrow> string list \<Rightarrow> result" where
  "warningResult outDir saved =
     [(''success'', RBool True), (''outputDir'', RPath outDir), (''images'', RPaths saved),
      (''warning'', RMsg PartialProcessing)]"

definition successResult :: "string \<Rightarrow> string \<Rightarrow> string list \<Rightarrow> string \<Rightarrow> result" where
  "successResult outDir jsonDir saved responseFilename =
     [(''success'', RBool True), (''outputDir'', RPath outDir), (''jsonDir'', RPath jsonDir),
      (''images'', RPaths saved), (''jsonFiles'', RObj [(''response'', RPath responseFilename)])]"

definition processGeminiResponse ::
  "platform \<Rightarrow> json \<Rightarrow> string \<Rightarrow> string \<Rightarrow> string \<Rightarrow> result io" where
  "processGeminiResponse pf result requestId outDir jsonDir =
     (let responseFilename = pathJoin pf jsonDir (requestId @ ''_response.json'') in
      io_bind (maskAndSaveJson pf result responseFilename) (\<lambda>_.
      io_bind (io_lift (safetyBlocked result)) (\<lambda>blocked.
        if blocked then io_return (safetyResult responseFilename)
        else (\<lambda>s.
          case firstCandidateParts result of
            Inl e \<Rightarrow>
              if e = OutsideModel then (Inl e, s) else (Inr (warningResult outDir []), s)
          | Inr parts \<Rightarrow>
              (case extractParts pf requestId outDir 0 [] parts s of
                 ((None, saved), s') \<Rightarrow>
                   (Inr (successResult outDir jsonDir saved responseFilename), s')
               | ((Some e, saved), s') \<Rightarrow>
                   if e = OutsideModel then (Inl e, s')
                   else (Inr (warningResult outDir saved), s'))))))"

subsection \<open>Vocabulary for the statements about the normalizers\<close>

text \<open>
  A response is maskable when it holds no \<^verbatim>\<open>null\<close> where the masker reads through: no
  prediction is \<^verbatim>\<open>null\<close> (when \<^verbatim>\<open>predictions\<close> is an array); otherwise no candidate is
  \<^verbatim>\<open>null\<close>, and no part of a candidate whose parts the masker visits is \<^verbatim>\<open>null\<close> or has
  \<^verbatim>\<open>null\<close> as its \<^verbatim>\<open>inlineData\<close>.
\<close>

definition partOk :: "json \<Rightarrow> bool" where
  "partOk p \<longleftrightarrow> p \<noteq> JNull \<and> getProp p ''inlineData'' \<noteq> Inr (Some JNull)"

definition candidateOk :: "json \<Rightarrow> bool" where
  "candidateOk c \<longleftrightarrow>
     c \<noteq> JNull \<and>
     (case candidateParts c of Inr (Some parts) \<Rightarrow> list_all partOk parts | _ \<Rightarrow> True)"

definition maskable :: "json \<Rightarrow> bool" where
  "maskable obj \<longleftrightarrow>
     (case getProp obj ''predictions'' of
        Inl e \<Rightarrow> True
      | Inr p \<Rightarrow>
          (case asArray p of
             Some preds \<Rightarrow> list_all (\<lambda>x. x \<noteq> JNull) preds
           | None \<Rightarrow>
               (case getProp obj ''candidates'' of
                  Inl e \<Rightarrow> True
                | Inr c \<Rightarrow>
                    (case asArray c of
                       Some cands \<Rightarrow> list_all candidateOk cands
                     | None \<Rightarrow> True))))"

text \<open>The file system after a successful \<^verbatim>\<open>saveFile\<close> of content \<open>c\<close> to path \<open>p\<close>.\<close>

definition afterSave :: "platform \<Rightarrow> fsys \<Rightarrow> string \<Rightarrow> content \<Rightarrow> fsys" where
  "afterSave pf s p c =
     s\<lparr>dirs := (if pathDirname pf p \<in> set (dirs s) then dirs s else dirs s @ [pathDirname pf p]),
       files := files s @ [(p, c)]\<rparr>"

text \<open>
  A part that carries no \<^verbatim>\<open>inlineData\<close>, and a part that carries inline data \<open>d\<close> (a
  non-empty string) with the MIME type \<open>ty/sub\<close>.
\<close>

definition textOnly :: "json \<Rightarrow> bool" where
  "textOnly part \<longleftrightarrow> getProp part ''inlineData'' = Inr None"

definition imagePartOf :: "json \<Rightarrow> string \<Rightarrow> string \<Rightarrow> string \<Rightarrow> bool" where
  "imagePartOf part ty sub d \<longleftrightarrow>
     (case getProp part ''inlineData'' of
        Inr (Some inl) \<Rightarrow>
          truthy inl \<and> getProp inl ''data'' = Inr (Some (JStr d)) \<and> d \<noteq> [] \<and>
          getProp inl ''mimeType'' = Inr (Some (JStr (ty @ CHR ''/'' # sub))) \<and>
          CHR ''/'' \<notin> set ty \<and> CHR ''/'' \<notin> set sub
      | _ \<Rightarrow> False)"

text \<open>
  Responses used as concrete inputs: a candidate with an image, a text and a second image; a
  first candidate blocked for safety followed by \<^verbatim>\<open>null\<close>; and the candidate with two images
  and a text, blocked for safety.
\<close>

definition twoImageResponse :: json where
  "twoImageResponse =
     JObj [(''candidates'', JArr
       [JObj [(''content'', JObj [(''parts'', JArr
          [JObj [(''inlineData'',
             JObj [(''mimeType'', JStr ''image/png''), (''data'', JStr ''QUJD'')])],
           JObj [(''text'', JStr ''two pictures'')],
           JObj [(''inlineData'',
             JObj [(''mimeType'', JStr ''image/jpeg''), (''data'', JStr ''REVG'')])]])]),
          (''finishReason'', JStr ''STOP'')]])]"

definition blockedThenNull :: json where
  "blockedThenNull =
     JObj [(''candidates'', JArr [JObj [(''finishReason'', JStr ''IMAGE_SAFETY'')], JNull])]"

definition blockedTwoImageResponse :: json where
  "blockedTwoImageResponse =
     JObj [(''candidates'', JArr
       [JObj [(''content'', JObj [(''parts'', JArr
          [JObj [(''inlineData'',
             JObj [(''mimeType'', JStr ''image/png''), (''data'', JStr ''QUJD'')])],
           JObj [(''text'', JStr ''two pictures'')],
           JObj [(''inlineData'',
             JObj [(''mimeType'', JStr ''image/jpeg''), (''data'', JStr ''REVG'')])]])]),
          (''finishReason'', JStr ''IMAGE_SAFETY'')]])]"

section \<open>The transport (proxy.js)\<close>

text \<open>
  A response of \<^verbatim>\<open>fetch\<close>: its \<^verbatim>\<open>ok\<close> flag, its status and its body as \<^verbatim>\<open>response.json()\<close>
  parses it, \<open>None\<close> when the body is not JSON and the parse throws.
\<close>

record response =
  ok :: bool
  status :: nat
  jsonBody :: "json option"

text \<open>
  What one call of a generator meets outside the file system: the clock, whether the
  preference store fails, the access token or the exception of the credential provider, the
  \<^verbatim>\<open>--debug\<close> flag, whether \<^verbatim>\<open>createProxyAgent\<close> gave an agent, whether \<^verbatim>\<open>SYSTEM_PROXY\<close> is
  set, and what the first request and the retry do (return a response or throw).
\<close>

record world =
  now :: nat
  configFails :: bool
  accessToken :: "exn + string"
  debug :: bool
  proxyAgent :: bool
  systemProxy :: bool
  firstFetch :: "exn + response"
  retryFetch :: "exn + response"

fun timedOut :: "exn \<Rightarrow> bool" where
  "timedOut (NetError t) = t"
| "timedOut _ = False"

text \<open>
  The debug record that \<^verbatim>\<open>fetchWithProxy\<close> writes after a request under \<^verbatim>\<open>--debug\<close>. The
  generators pass \<^verbatim>\<open>requestId\<close> and \<^verbatim>\<open>outputDir\<close> and no \<^verbatim>\<open>jsonDir\<close>.
\<close>

definition debugDir :: "platform \<Rightarrow> string \<Rightarrow> string" where
  "debugDir pf outDir = (if outDir \<noteq> [] then pathJoin pf outDir ''json'' else ''./debug'')"

definition writeDebug :: "platform \<Rightarrow> string \<Rightarrow> string \<Rightarrow> unit io" where
  "writeDebug pf requestId outDir =
     io_bind (ensureDir (debugDir pf outDir)) (\<lambda>_.
       writeFileSync (pathJoin pf (debugDir pf outDir) (requestId @ ''_debug.json'')) DebugRecord)"

text \<open>
  \<^verbatim>\<open>fetchWithProxy\<close>. The first \<^verbatim>\<open>try\<close> holds the request and the debug record. Its handler
  retries once when \<^verbatim>\<open>SYSTEM_PROXY\<close> is set and either no agent was used or the error is a
  timeout; a failure of the retry (or of building its agent) is caught and logged by the
  inner handler, and the first error is thrown again. The proxy variables that the handler
  sets and restores are not part of the model.
\<close>

definition fetchWithProxy :: "platform \<Rightarrow> world \<Rightarrow> string \<Rightarrow> string \<Rightarrow> response io" where
  "fetchWithProxy pf w requestId outDir =
     io_catch
       (io_bind (io_lift (firstFetch w)) (\<lambda>resp.
          if debug w \<and> requestId \<noteq> []
          then io_bind (writeDebug pf requestId outDir) (\<lambda>_. io_return resp)
          else io_return resp))
       (\<lambda>error.
          if systemProxy w \<and> (\<not> proxyAgent w \<or> timedOut error)
          then (case retryFetch w of
                  Inr resp \<Rightarrow> io_return resp
                | Inl retryError \<Rightarrow> io_throw error)
          else io_throw error)"

section \<open>The generators (imagen.js, gemini.js)\<close>

text \<open>
  The options of a call. A field that the source destructures with a default is optional
  here and \<open>withDefault\<close> supplies the default.
\<close>

record options =
  projectId :: string
  geminiKey :: string
  prompt :: json
  referenceImages :: "string list option"
  location :: "string option"
  aspectRatio :: "json option"
  count :: "json option"
  negativePrompt :: "json option"
  enhance :: "json option"
  personGeneration :: "json option"
  safety :: "json option"
  watermark :: "json option"
  outputDir :: "string option"
  jsonDir :: "string option"
  model :: "string option"

fun withDefault :: "'a \<Rightarrow> 'a option \<Rightarrow> 'a" where
  "withDefault d None = d"
| "withDefault d (Some x) = x"

definition saveConfig :: "world \<Rightarrow> unit io" where
  "saveConfig w = (if configFails w then io_throw FsError else io_return ())"

definition errorResult :: "exn \<Rightarrow> result" where
  "errorResult e = [(''success'', RBool False), (''error'', RMsg (ErrorMessage e))]"

subsection \<open>The Imagen normalizer\<close>

text \<open>\<^verbatim>\<open>s.includes(t)\<close> on strings.\<close>

fun includesStr :: "string \<Rightarrow> string \<Rightarrow> bool" where
  "includesStr [] t = (t = [])"
| "includesStr (c # cs) t = (prefix t (c # cs) \<or> includesStr cs t)"

definition allFiltered :: string where
  "allFiltered = ''Unable to show generated images. All images were filtered out''"

text \<open>
  \<^verbatim>\<open>s.match(/filtered out (\d+) generated images/)\<close>: the digits of the leftmost match.
\<close>

definition filteredAt :: "string \<Rightarrow> string option" where
  "filteredAt s =
     (if prefix ''filtered out '' s
      then (let rest = drop 13 s; ds = takeWhile is_digit rest in
            if ds \<noteq> [] \<and> prefix '' generated images'' (dropWhile is_digit rest)
            then Some ds else None)
      else None)"

fun matchFiltered :: "string \<Rightarrow> string option" where
  "matchFiltered [] = None"
| "matchFiltered (c # cs) =
     (case filteredAt (c # cs) of Some ds \<Rightarrow> Some ds | None \<Rightarrow> matchFiltered cs)"

text \<open>
  \<^verbatim>\<open>blockedCount\<close> is a double that holds a non-negative integer or \<^verbatim>\<open>Infinity\<close>.
  \<open>roundDouble n\<close> is the double nearest to the integer \<open>n\<close>, ties to the even significand of
  53 bits: \<open>n\<close> itself below \<open>2 ^ 53\<close>, and \<^verbatim>\<open>Infinity\<close> from \<open>2 ^ 1024 - 2 ^ 970\<close> on.
\<close>

datatype amount = Amount nat | Infinity

fun bitLength :: "nat \<Rightarrow> nat" where
  "bitLength n = (if n = 0 then 0 else Suc (bitLength (n div 2)))"

declare bitLength.simps [simp del]

definition roundDouble :: "nat \<Rightarrow> amount" where
  "roundDouble n =
     (let e = bitLength n - 53;
          q = n div 2 ^ e;
          r = n mod 2 ^ e;
          m = (if 2 ^ e < 2 * r \<or> (2 * r = 2 ^ e \<and> odd q) then q + 1 else q) * 2 ^ e
      in if m < 2 ^ 1024 then Amount m else Infinity)"

text \<open>\<^verbatim>\<open>parseInt(digits, 10)\<close> on a string of decimal digits, and \<^verbatim>\<open>a + b\<close> on two amounts.\<close>

definition parseInt :: "string \<Rightarrow> amount" where
  "parseInt ds = roundDouble (read_nat ds)"

fun addAmount :: "amount \<Rightarrow> amount \<Rightarrow> amount" where
  "addAmount (Amount a) (Amount b) = roundDouble (a + b)"
| "addAmount _ _ = Infinity"

fun positive :: "amount \<Rightarrow> bool" where
  "positive (Amount n) = (0 < n)"
| "positive Infinity = True"

fun amountValue :: "amount \<Rightarrow> rvalue" where
  "amountValue (Amount n) = RNum n"
| "amountValue Infinity = RInfinity"

text \<open>
  The first pass over the predictions. It ends with the reason of the first prediction that
  reports all images filtered, or with \<^verbatim>\<open>blockedCount\<close>. A truthy reason that is not a string
  has no \<^verbatim>\<open>includes\<close>, except an array, which has no \<^verbatim>\<open>match\<close>.
\<close>

fun raiScan :: "json list \<Rightarrow> amount \<Rightarrow> exn + (json + amount)" where
  "raiScan [] blockedCount = Inr (Inr blockedCount)"
| "raiScan (prediction # rest) blockedCount =
     (case getProp prediction ''raiFilteredReason'' of
        Inl e \<Rightarrow> Inl e
      | Inr r \<Rightarrow>
          if \<not> truthy_val r then raiScan rest blockedCount
          else (case the r of
                  JStr reason \<Rightarrow>
                    if includesStr reason allFiltered then Inr (Inl (JStr reason))
                    else (case matchFiltered reason of
                            Some ds \<Rightarrow> raiScan rest (addAmount blockedCount (parseInt ds))
                          | None \<Rightarrow> raiScan rest blockedCount)
                | JArr xs \<Rightarrow>
                    if JStr allFiltered \<in> set xs then Inr (Inl (JArr xs)) else Inl TypeError
                | _ \<Rightarrow> Inl TypeError))"

definition imageName :: "string \<Rightarrow> nat \<Rightarrow> nat \<Rightarrow> string" where
  "imageName requestId i index = requestId @ ''_'' @ show_nat i @ ''_'' @ show_nat index @ ''.png''"

definition directName :: "string \<Rightarrow> nat \<Rightarrow> string \<Rightarrow> string" where
  "directName requestId i ext = requestId @ ''_'' @ show_nat i @ ''.'' @ ext"

text \<open>
  \<^verbatim>\<open>prediction.images.forEach((img, index) => ...)\<close>, carrying \<^verbatim>\<open>savedImagePaths\<close> and
  \<^verbatim>\<open>generatedCount\<close>; \<open>index\<close> is the position of the head of the list in the array.
\<close>

fun saveImages ::
  "platform \<Rightarrow> string \<Rightarrow> string \<Rightarrow> nat \<Rightarrow> nat \<Rightarrow> string list \<times> nat \<Rightarrow> json list \<Rightarrow> fsys
     \<Rightarrow> (exn + string list \<times> nat) \<times> fsys" where
  "saveImages pf requestId outDir i index acc [] s = (Inr acc, s)"
| "saveImages pf requestId outDir i index (saved, generatedCount) (img # imgs) s =
     (case getProp img ''bytesBase64Encoded'' of
        Inl e \<Rightarrow> (Inl e, s)
      | Inr b \<Rightarrow>
          if truthy_val b
          then (case saveFile pf (pathJoin pf outDir (imageName requestId i index))
                       (Value (the b)) True s of
                  (Inl e, s') \<Rightarrow> (Inl e, s')
                | (Inr filename, s') \<Rightarrow>
                    saveImages pf requestId outDir i (Suc index)
                      (saved @ [filename], Suc generatedCount) imgs s')
          else saveImages pf requestId outDir i (Suc index) (saved, generatedCount) imgs s)"

text \<open>
  \<^verbatim>\<open>(prediction.mimeType || 'image/png').split('/')[1] || 'png'\<close> of the direct format.
\<close>

definition directExtension :: "json \<Rightarrow> exn + string" where
  "directExtension prediction =
     (case getProp prediction ''mimeType'' of
        Inl e \<Rightarrow> Inl e
      | Inr m \<Rightarrow>
          (case (if truthy_val m then the m else JStr ''image/png'') of
             JStr t \<Rightarrow>
               (case splitOn CHR ''/'' [] t of
                  a # b # rest \<Rightarrow> Inr (if b \<noteq> [] then b else ''png'')
                | _ \<Rightarrow> Inr ''png'')
           | _ \<Rightarrow> Inl TypeError))"

text \<open>The second pass; \<open>i\<close> is the index of the head of the list among the predictions.\<close>

fun extractPredictions ::
  "platform \<Rightarrow> string \<Rightarrow> string \<Rightarrow> nat \<Rightarrow> string list \<times> nat \<Rightarrow> json list \<Rightarrow> fsys
     \<Rightarrow> (exn + string list \<times> nat) \<times> fsys" where
  "extractPredictions pf requestId outDir i acc [] s = (Inr acc, s)"
| "extractPredictions pf requestId outDir i (saved, generatedCount) (prediction # rest) s =
     (case getProp prediction ''raiFilteredReason'' of
        Inl e \<Rightarrow> (Inl e, s)
      | Inr r \<Rightarrow>
          if truthy_val r
          then extractPredictions pf requestId outDir (Suc i) (saved, generatedCount) rest s
          else
            (case getProp prediction ''images'' of
               Inl e \<Rightarrow> (Inl e, s)
             | Inr images \<Rightarrow>
                 (case nonEmpty images of
                    Inl e \<Rightarrow> (Inl e, s)
                  | Inr True \<Rightarrow>
                      (case the images of
                         JArr imgs \<Rightarrow>
                           (case saveImages pf requestId outDir i 0 (saved, generatedCount) imgs s of
                              (Inl e, s') \<Rightarrow> (Inl e, s')
                            | (Inr acc, s') \<Rightarrow>
                                extractPredictions pf requestId outDir (Suc i) acc rest s')
                       | _ \<Rightarrow> (Inl TypeError, s))
                  | Inr False \<Rightarrow>
                      (case getProp prediction ''bytesBase64Encoded'' of
                         Inl e \<Rightarrow> (Inl e, s)
                       | Inr b \<Rightarrow>
                           if truthy_val b
                           then
                             (case directExtension prediction of
                                Inl e \<Rightarrow> (Inl e, s)
                              | Inr ext \<Rightarrow>
                                  (case saveFile pf (pathJoin pf outDir (directName requestId i ext))
                                          (Value (the b)) True s of
                                     (Inl e, s') \<Rightarrow> (Inl e, s')
                                   | (Inr filename, s') \<Rightarrow>
                                       extractPredictions pf requestId outDir (Suc i)
                                         (saved @ [filename], Suc generatedCount) rest s'))
                           else extractPredictions pf requestId outDir (Suc i)
                                  (saved, generatedCount) rest s))))"

definition blockedResult :: "json \<Rightarrow> result" where
  "blockedResult reason =
     [(''success'', RBool False), (''error'', RMsg RaiFiltered), (''blocked'', RBool True),
      (''raiFiltered'', RBool True), (''details'', RJson reason)]"

definition savedResult :: "string \<Rightarrow> string list \<Rightarrow> nat \<Rightarrow> amount \<Rightarrow> result" where
  "savedResult outDir saved totalGenerated totalBlocked =
     [(''success'', RBool True), (''outputDir'', RPath outDir), (''images'', RPaths saved),
      (''generated'', RNum totalGenerated), (''blocked'', amountValue totalBlocked)]"

definition nothingSavedResult :: "amount \<Rightarrow> result" where
  "nothingSavedResult totalBlocked =
     [(''success'', RBool False), (''error'', RMsg NoImagesSaved),
      (''blocked'', RBool (positive totalBlocked)), (''blockedCount'', amountValue totalBlocked)]"

definition noPredictionsResult :: "string \<Rightarrow> string \<Rightarrow> result" where
  "noPredictionsResult requestFilename responseFilename =
     [(''success'', RBool False), (''error'', RMsg NoPredictions),
      (''jsonFiles'', RObj [(''request'', RPath requestFilename),
                            (''response'', RPath responseFilename)])]"

text \<open>
  The block \<^verbatim>\<open>if (result && result.predictions && result.predictions.length > 0) ... else ...\<close>
  of \<^verbatim>\<open>generateImagesWithImagen\<close>. The summary it logs is not part of the model.
\<close>

definition processPredictions ::
  "platform \<Rightarrow> json \<Rightarrow> string \<Rightarrow> string \<Rightarrow> string \<Rightarrow> string \<Rightarrow> result io" where
  "processPredictions pf result requestId outDir requestFilename responseFilename =
     io_bind (io_lift (if truthy result then getProp result ''predictions'' else Inr None))
       (\<lambda>predictions.
     io_bind (io_lift (nonEmpty predictions)) (\<lambda>some.
       if \<not> some then io_return (noPredictionsResult requestFilename responseFilename)
       else
         io_bind (io_lift (loopItems (the predictions))) (\<lambda>items.
         io_bind (io_lift (raiScan items (Amount 0))) (\<lambda>scan.
           case scan of
             Inl reason \<Rightarrow> io_return (blockedResult reason)
           | Inr blockedCount \<Rightarrow>
               io_bind (extractPredictions pf requestId outDir 0 ([], 0) items)
                 (\<lambda>(saved, generatedCount).
                    if saved \<noteq> []
                    then io_return (savedResult outDir saved generatedCount blockedCount)
                    else io_return (nothingSavedResult blockedCount))))))"

text \<open>The request document that \<^verbatim>\<open>generateImagesWithImagen\<close> sends and saves.\<close>

definition imagenRequest :: "options \<Rightarrow> json" where
  "imagenRequest opts =
     JObj [(''endpoint'', JStr (''projects/'' @ projectId opts @ ''/locations/''
               @ withDefault ''us-central1'' (location opts) @ ''/publishers/google/models/''
               @ withDefault ''imagen-3.0-generate-002'' (model opts))),
           (''instances'', JArr [JObj [(''prompt'', prompt opts)]]),
           (''parameters'', JObj
              [(''aspectRatio'', withDefault (JStr ''1:1'') (aspectRatio opts)),
               (''sampleCount'', withDefault (JNum 1) (count opts)),
               (''negativePrompt'', withDefault (JStr []) (negativePrompt opts)),
               (''enhancePrompt'', withDefault (JBool False) (enhance opts)),
               (''personGeneration'', withDefault (JStr ''allow_adult'') (personGeneration opts)),
               (''safetySetting'', withDefault (JStr ''block_few'') (safety opts)),
               (''addWatermark'', withDefault (JBool True) (watermark opts)),
               (''includeRaiReason'', JBool True),
               (''language'', JStr ''auto'')])]"

text \<open>
  \<^verbatim>\<open>generateImagesWithImagen\<close>: the whole body stands in one \<^verbatim>\<open>try\<close> whose handler returns
  \<^verbatim>\<open>{ success: false, error: error.message }\<close>. The branch of a response that is not
  \<^verbatim>\<open>ok\<close>, which reads the error document of the vendor, is left out of the model.
\<close>

definition generateImagesWithImagen :: "platform \<Rightarrow> world \<Rightarrow> options \<Rightarrow> result io" where
  "generateImagesWithImagen pf w opts =
     (let outDir = withDefault ''./images'' (outputDir opts);
          jDir = withDefault ''./output'' (jsonDir opts);
          requestId = ''imagen_'' @ show_nat (now w);
          requestFilename = pathJoin pf jDir (requestId @ ''_request.json'');
          responseFilename = pathJoin pf jDir (requestId @ ''_response.json'')
      in
      io_catch
        (io_bind (saveConfig w) (\<lambda>_.
         io_bind (io_lift (accessToken w)) (\<lambda>token.
         io_bind (fetchWithProxy pf w requestId outDir) (\<lambda>resp.
           if \<not> ok resp then io_throw OutsideModel
           else
             io_bind (io_lift (case jsonBody resp of None \<Rightarrow> Inl SyntaxError | Some r \<Rightarrow> Inr r))
               (\<lambda>result.
             io_bind (ensureDir outDir) (\<lambda>_.
             io_bind (ensureDir jDir) (\<lambda>_.
             io_bind (saveFile pf requestFilename (Stringified (imagenRequest opts) 2) False) (\<lambda>_.
             io_bind (maskAndSaveJson pf result responseFilename) (\<lambda>_.
               processPredictions pf result requestId outDir requestFilename
                 responseFilename)))))))))
        (\<lambda>error. io_return (errorResult error)))"

subsection \<open>The Gemini generator\<close>

text \<open>\<^verbatim>\<open>getMimeType\<close> of utils.js; the lower case is that of the letters A to Z.\<close>

definition lowerChar :: "char \<Rightarrow> char" where
  "lowerChar c =
     (case positionIn ''ABCDEFGHIJKLMNOPQRSTUVWXYZ'' c of
        Some i \<Rightarrow> ''abcdefghijklmnopqrstuvwxyz'' ! i
      | None \<Rightarrow> c)"

definition getMimeType :: "platform \<Rightarrow> string \<Rightarrow> string" where
  "getMimeType pf filePath =
     (case map_of
             [(''.jpg'', ''image/jpeg''), (''.jpeg'', ''image/jpeg''), (''.png'', ''image/png''),
              (''.gif'', ''image/gif''), (''.bmp'', ''image/bmp''), (''.webp'', ''image/webp'')]
             (map lowerChar (pathExtname pf filePath)) of
        Some m \<Rightarrow> m
      | None \<Rightarrow> ''image/jpeg'')"

text \<open>
  \<^verbatim>\<open>fs.readFileSync(imagePath).toString('base64')\<close>: a missing file throws; a file that the
  model holds as text has bytes that the model does not give.
\<close>

definition readImage :: "fsys \<Rightarrow> string \<Rightarrow> exn + string" where
  "readImage s p =
     (case readFile s p of
        None \<Rightarrow> Inl FsError
      | Some (Bytes bs) \<Rightarrow> Inr (encodeBase64 bs)
      | Some c \<Rightarrow> Inl OutsideModel)"

text \<open>
  The loop over the reference images: the parts it adds to the request, or the path of the
  image whose processing threw, with the exception.
\<close>

fun referenceParts :: "platform \<Rightarrow> fsys \<Rightarrow> string list \<Rightarrow> (exn \<times> string) + json list" where
  "referenceParts pf s [] = Inr []"
| "referenceParts pf s (imagePath # rest) =
     (case readImage s imagePath of
        Inl e \<Rightarrow> Inl (e, imagePath)
      | Inr base64Image \<Rightarrow>
          (case referenceParts pf s rest of
             Inl failure \<Rightarrow> Inl failure
           | Inr parts \<Rightarrow>
               Inr (JObj [(''inline_data'',
                      JObj [(''mime_type'', JStr (getMimeType pf imagePath)),
                            (''data'', JStr base64Image)])] # parts)))"

definition geminiRequest :: "json \<Rightarrow> json list \<Rightarrow> json" where
  "geminiRequest promptText imageParts =
     JObj [(''contents'', JArr [JObj [(''parts'', JArr (JObj [(''text'', promptText)] # imageParts))]]),
           (''generationConfig'',
              JObj [(''responseModalities'', JArr [JStr ''Text'', JStr ''Image''])])]"

definition geminiRequestId :: "platform \<Rightarrow> string list \<Rightarrow> nat \<Rightarrow> string" where
  "geminiRequestId pf refs timestamp =
     (case refs of
        [] \<Rightarrow> ''gemini_text_to_image_'' @ show_nat timestamp
      | first # others \<Rightarrow>
          (let firstFileName = pathBasename pf first (pathExtname pf first) in
           if 1 < length refs
           then ''gemini_'' @ firstFileName @ ''_and_'' @ show_nat (length refs - 1) @ ''_more_''
                  @ show_nat timestamp
           else ''gemini_'' @ firstFileName @ ''_'' @ show_nat timestamp))"

text \<open>
  \<^verbatim>\<open>generateImagesWithGemini\<close>: an outer \<^verbatim>\<open>try\<close> around the whole body and an inner one around
  the request and the normalizer, both with the handler
  \<^verbatim>\<open>{ success: false, error: error.message }\<close>. The branch of a response that is not \<^verbatim>\<open>ok\<close>
  is left out of the model.
\<close>

definition generateImagesWithGemini :: "platform \<Rightarrow> world \<Rightarrow> options \<Rightarrow> result io" where
  "generateImagesWithGemini pf w opts =
     (let refs = withDefault [] (referenceImages opts);
          outDir = withDefault ''./images'' (outputDir opts);
          jDir = withDefault ''./output'' (jsonDir opts);
          requestId = geminiRequestId pf refs (now w);
          requestFilename = pathJoin pf jDir (requestId @ ''_request.json'')
      in
      io_catch
        (io_bind (saveConfig w) (\<lambda>_.
         io_bind (ensureDir outDir) (\<lambda>_.
         io_bind (ensureDir jDir) (\<lambda>_.
           (\<lambda>s. case referenceParts pf s refs of
              Inl (e, imagePath) \<Rightarrow>
                if e = OutsideModel then (Inl e, s)
                else (Inr [(''success'', RBool False), (''error'', RMsg (FailedToProcess imagePath))],
                      s)
            | Inr imageParts \<Rightarrow>
                io_bind (maskAndSaveJson pf (geminiRequest (prompt opts) imageParts) requestFilename)
                  (\<lambda>_.
                io_catch
                  (io_bind (fetchWithProxy pf w requestId outDir) (\<lambda>resp.
                     if \<not> ok resp then io_throw OutsideModel
                     else
                       io_bind (io_lift (case jsonBody resp of
                                           None \<Rightarrow> Inl SyntaxError | Some r \<Rightarrow> Inr r))
                         (\<lambda>result.
                       io_bind (if debug w
                                then maskAndSaveJson pf result
                                       (pathJoin pf jDir (requestId @ ''_response_debug.json''))
                                else io_return [])
                         (\<lambda>_.
                       processGeminiResponse pf result requestId outDir jDir))))
                  (\<lambda>error. io_return (errorResult error))) s)))))
        (\<lambda>error. io_return (errorResult error)))"

text \<open>
  Worlds and options used as concrete inputs: a network on which the request and its retry
  fail, a network that answers with a given document, and a call with a prompt and
  defaults.
\<close>

definition offlineWorld :: world where
  "offlineWorld =
     \<lparr>now = 0, configFails = False, accessToken = Inr ''token'', debug = False,
      proxyAgent = False, systemProxy = True,
      firstFetch = Inl (NetError False), retryFetch = Inl (NetError False)\<rparr>"

definition answeringWorld :: "json \<Rightarrow> world" where
  "answeringWorld body =
     \<lparr>now = 0, configFails = False, accessToken = Inr ''token'', debug = False,
      proxyAgent = False, systemProxy = False,
      firstFetch = Inr \<lparr>ok = True, status = 200, jsonBody = Some body\<rparr>,
      retryFetch = Inl (NetError False)\<rparr>"

definition promptOnly :: options where
  "promptOnly =
     \<lparr>projectId = ''project'', geminiKey = ''key'', prompt = JStr ''a cat'',
      referenceImages = None, location = None, aspectRatio = None, count = None,
      negativePrompt = None, enhance = None, personGeneration = None, safety = None,
      watermark = None, outputDir = None, jsonDir = None, model = None\<rparr>"

text \<open>The file system after \<^verbatim>\<open>ensureDir\<close> has run on it.\<close>

definition withDir :: "string \<Rightarrow> fsys \<Rightarrow> fsys" where
  "withDir d s = s\<lparr>dirs := (if d \<in> set (dirs s) then dirs s else dirs s @ [d])\<rparr>"

text \<open>The file system after the debug record of a request, when one is written.\<close>

definition afterDebug :: "platform \<Rightarrow> world \<Rightarrow> string \<Rightarrow> string \<Rightarrow> fsys \<Rightarrow> fsys" where
  "afterDebug pf w requestId outDir s =
     (if debug w \<and> requestId \<noteq> []
      then (withDir (debugDir pf outDir) s)
             \<lparr>files := files s @ [(pathJoin pf (debugDir pf outDir) (requestId @ ''_debug.json''),
                                   DebugRecord)]\<rparr>
      else s)"




definition gapImages :: "json list" where
  "gapImages =
     [JObj [(''bytesBase64Encoded'', JStr ''QUJD'')], JObj [],
      JObj [(''bytesBase64Encoded'', JStr ''REVG'')]]"

text \<open>
  An element of an \<^verbatim>\<open>images\<close> array has bytes when its \<^verbatim>\<open>bytesBase64Encoded\<close> is truthy;
  \<open>bytesOf\<close> is that string. The element is well formed when it is not \<^verbatim>\<open>null\<close> and the field
  is a string or falsy. \<open>savedFrom index imgs\<close> lists the elements that have bytes with their
  positions, counted from \<open>index\<close>.
\<close>

definition hasBytes :: "json \<Rightarrow> bool" where
  "hasBytes img \<longleftrightarrow>
     (case getProp img ''bytesBase64Encoded'' of Inl e \<Rightarrow> False | Inr b \<Rightarrow> truthy_val b)"

definition bytesOf :: "json \<Rightarrow> string" where
  "bytesOf img =
     (case getProp img ''bytesBase64Encoded'' of Inr (Some (JStr d)) \<Rightarrow> d | _ \<Rightarrow> [])"

definition imageOk :: "json \<Rightarrow> bool" where
  "imageOk img \<longleftrightarrow>
     (case getProp img ''bytesBase64Encoded'' of
        Inl e \<Rightarrow> False
      | Inr None \<Rightarrow> True
      | Inr (Some (JStr d)) \<Rightarrow> True
      | Inr (Some v) \<Rightarrow> \<not> truthy v)"

fun savedFrom :: "nat \<Rightarrow> json list \<Rightarrow> (nat \<times> json) list" where
  "savedFrom index [] = []"
| "savedFrom index (img # imgs) =
     (if hasBytes img then [(index, img)] else []) @ savedFrom (Suc index) imgs"

text \<open>
  A prediction is a filter message when its \<^verbatim>\<open>raiFilteredReason\<close> is a non-empty string
  without the sentence that reports all images filtered. It is in the standard format when
  its \<^verbatim>\<open>raiFilteredReason\<close> is absent or falsy and its \<^verbatim>\<open>images\<close> is a non-empty array of
  well-formed elements; \<open>imagesOf\<close> is that array. \<open>savedPositions preds\<close> lists, in the order
  of the second pass, the pairs of the index \<open>i\<close> of a prediction in the standard format and
  the position \<open>k\<close> of an element with bytes in its \<^verbatim>\<open>images\<close>.
\<close>

definition filterMessage :: "json \<Rightarrow> bool" where
  "filterMessage p \<longleftrightarrow>
     (case getProp p ''raiFilteredReason'' of
        Inr (Some (JStr r)) \<Rightarrow> r \<noteq> [] \<and> \<not> includesStr r allFiltered
      | _ \<Rightarrow> False)"

definition imagesOf :: "json \<Rightarrow> json list" where
  "imagesOf p = (case getProp p ''images'' of Inr (Some (JArr imgs)) \<Rightarrow> imgs | _ \<Rightarrow> [])"

definition standardFormat :: "json \<Rightarrow> bool" where
  "standardFormat p \<longleftrightarrow>
     (case getProp p ''raiFilteredReason'' of Inr r \<Rightarrow> \<not> truthy_val r | Inl e \<Rightarrow> False) \<and>
     getProp p ''images'' = Inr (Some (JArr (imagesOf p))) \<and>
     imagesOf p \<noteq> [] \<and> list_all imageOk (imagesOf p)"

definition savedPositions :: "json list \<Rightarrow> (nat \<times> nat) list" where
  "savedPositions preds =
     [(i, k). i \<leftarrow> [0..<length preds], standardFormat (preds ! i),
              k \<leftarrow> [0..<length (imagesOf (preds ! i))], hasBytes (imagesOf (preds ! i) ! k)]"

text \<open>
  A response with a prediction in the standard format whose second image has no data, a
  filter message, and a second prediction in the standard format.
\<close>

definition gapPredictions :: "json list" where
  "gapPredictions =
     [JObj [(''images'', JArr gapImages)],
      JObj [(''raiFilteredReason'',
             JStr ''Your current safety filter threshold filtered out 1 generated images.'')],
      JObj [(''images'', JArr [JObj [(''bytesBase64Encoded'', JStr ''R0hJ'')]])]]"

definition gapResponse :: json where
  "gapResponse = JObj [(''predictions'', JArr gapPredictions)]"

section \<open>Properties of the path accessor and of the masker\<close>

lemma digit_val_digit_char: "d < 10 \<Longrightarrow> digit_val (digit_char d) = d"
  by (auto simp: eval_nat_numeral less_Suc_eq digit_val_def digit_char_def)

lemma is_digit_digit_char: "d < 10 \<Longrightarrow> is_digit (digit_char d)"
  by (auto simp: eval_nat_numeral less_Suc_eq is_digit_def digit_char_def)

lemma read_show_nat: "read_nat (show_nat n) = n"
proof (induction n rule: show_nat.induct)
  case (1 n)
  show ?case
  proof (cases "n < 10")
    case True
    then show ?thesis
      by (subst show_nat.simps) (simp add: read_nat_def digit_val_digit_char)
  next
    case False
    with 1 have "read_nat (show_nat (n div 10)) = n div 10" by simp
    with False show ?thesis
      by (subst show_nat.simps) (simp add: read_nat_def digit_val_digit_char)
  qed
qed

lemma show_nat_inj: "show_nat m = show_nat n \<Longrightarrow> m = n"
  by (metis read_show_nat)

lemma show_nat_digits: "\<forall>c \<in> set (show_nat n). is_digit c"
proof (induction n rule: show_nat.induct)
  case (1 n)
  show ?case
  proof (cases "n < 10")
    case True
    then show ?thesis by (subst show_nat.simps) (simp add: is_digit_digit_char)
  next
    case False
    with 1 show ?thesis by (subst show_nat.simps) (simp add: is_digit_digit_char)
  qed
qed

lemma show_nat_nonempty: "show_nat n \<noteq> []"
  by (subst show_nat.simps) simp

lemma index_of_show_nat: "i < n \<Longrightarrow> index_of n (show_nat i) = Some i"
  unfolding index_of_def
  by (auto simp: find_Some_iff dest: show_nat_inj intro!: exI [of _ i])

lemma index_of_SomeD: "index_of n k = Some i \<Longrightarrow> i < n \<and> show_nat i = k"
  unfolding index_of_def by (auto simp: find_Some_iff)

lemma takeWhile_show_nat: "\<not> is_digit c \<Longrightarrow> takeWhile is_digit (show_nat i @ c # rest) = show_nat i"
  using show_nat_digits [of i] by (simp add: takeWhile_append2)

lemma dropWhile_show_nat: "\<not> is_digit c \<Longrightarrow> dropWhile is_digit (show_nat i @ c # rest) = c # rest"
  using show_nat_digits [of i] by (simp add: dropWhile_append2)

lemma splitOn_append: "d \<notin> set xs \<Longrightarrow> splitOn d acc (xs @ ys) = splitOn d (acc @ xs) ys"
  by (induction xs arbitrary: acc) auto

lemma not_dot_digit: "is_digit c \<Longrightarrow> c \<noteq> CHR ''.''"
  by (auto simp: is_digit_def)

lemma splitOn_show_nat: "splitOn CHR ''.'' acc (show_nat i @ ys) = splitOn CHR ''.'' (acc @ show_nat i) ys"
  using show_nat_digits [of i] by (intro splitOn_append) (auto dest: not_dot_digit)

lemma pathSegments_imagenPath:
  "pathSegments (imagenPath i) = [''predictions'', show_nat i, ''bytesBase64Encoded'']"
  by (simp add: pathSegments_def imagenPath_def takeWhile_show_nat dropWhile_show_nat
      is_digit_def show_nat_nonempty splitOn_show_nat)

lemma pathSegments_geminiPath:
  "pathSegments (geminiPath i j) =
     [''candidates'', show_nat i, ''content'', ''parts'', show_nat j, ''inlineData'', ''data'']"
  by (simp add: pathSegments_def geminiPath_def takeWhile_show_nat dropWhile_show_nat
      is_digit_def show_nat_nonempty splitOn_show_nat)

lemma getProp_putBack_other:
  assumes ne: "k' \<noteq> k"
  shows "getProp (putBack cur k c) k' = getProp cur k'"
proof (cases cur)
  case (JArr xs)
  show ?thesis
  proof (cases "index_of (length xs) k")
    case None
    with JArr show ?thesis by simp
  next
    case (Some i)
    with ne have "\<And>j. index_of (length xs) k' = Some j \<Longrightarrow> j \<noteq> i"
      by (auto dest!: index_of_SomeD)
    with JArr Some show ?thesis
      by (auto split: option.splits)
  qed
next
  case (JObj kvs)
  with ne show ?thesis by (simp add: update_conv')
qed simp_all

lemma getProp_assignProp_other:
  assumes a: "assignProp cur k v = Inr cur'" and ne: "k' \<noteq> k"
  shows "getProp cur' k' = getProp cur k'"
proof (cases cur)
  case (JArr xs)
  from a JArr obtain i where i: "index_of (length xs) k = Some i" and c: "cur' = JArr (xs[i := v])"
    by (auto split: option.splits)
  from i ne have "\<And>j. index_of (length xs) k' = Some j \<Longrightarrow> j \<noteq> i"
    by (auto dest!: index_of_SomeD)
  with JArr c show ?thesis by (auto split: option.splits)
next
  case (JObj kvs)
  with a ne show ?thesis by (auto simp: update_conv')
qed (use a in auto)

lemma getProp_assignProp_same:
  assumes a: "assignProp cur k v = Inr cur'"
  shows "getProp cur' k = Inr (Some v)"
proof (cases cur)
  case (JArr xs)
  from a JArr obtain i where i: "index_of (length xs) k = Some i" and c: "cur' = JArr (xs[i := v])"
    by (auto split: option.splits)
  from i have "i < length xs" by (auto dest: index_of_SomeD)
  with JArr c i show ?thesis by simp
next
  case (JObj kvs)
  with a show ?thesis by (auto simp: update_conv')
qed (use a in auto)

lemma getProp_putBack_same:
  assumes "getProp cur k = Inr (Some child)" and "is_prim child \<Longrightarrow> c = child"
  shows "getProp (putBack cur k c) k = Inr (Some c)"
proof (cases cur)
  case (JStr s)
  with assms(1) have "is_prim child" by (auto split: option.splits if_splits)
  with assms JStr show ?thesis by simp
next
  case (JArr xs)
  show ?thesis
  proof (cases "index_of (length xs) k")
    case None
    with JArr assms(1) have "is_prim child" by (auto split: if_splits)
    with assms JArr None show ?thesis by simp
  next
    case (Some i)
    then have "i < length xs" by (auto dest: index_of_SomeD)
    with JArr Some show ?thesis by simp
  qed
next
  case (JObj kvs)
  then show ?thesis by (simp add: update_conv')
qed (use assms in auto)

lemma getProp_prim_child: "is_prim cur \<Longrightarrow> getProp cur k = Inr (Some child) \<Longrightarrow> is_prim child"
  by (cases cur) (auto split: option.splits if_splits)

lemma setLoop_prim: "is_prim c \<Longrightarrow> setLoop c q v = Inr c' \<Longrightarrow> c' = c"
proof (induction c q v arbitrary: c' rule: setLoop.induct)
  case (1 cur v)
  then show ?case by simp
next
  case (2 cur s v)
  then show ?case by (cases cur) auto
next
  case (3 cur s t ss v)
  show ?case
  proof (cases "getProp cur s")
    case (Inl e)
    with 3 show ?thesis by simp
  next
    case (Inr co)
    show ?thesis
    proof (cases co)
      case None
      with Inr 3 show ?thesis by simp
    next
      case (Some child)
      with Inr 3(2) have pc: "is_prim child" by (auto dest: getProp_prim_child)
      from 3(3) Inr Some obtain child' where
        s: "setLoop child (t # ss) v = Inr child'" and c': "c' = putBack cur s child'"
        by (auto split: sum.splits)
      from 3(2) c' show ?thesis by (cases cur) auto
    qed
  qed
qed

lemma setLoop_child:
  assumes "setLoop cur (s # t # ss) v = Inr cur'" and "getProp cur s = Inr (Some child)"
  obtains child' where "setLoop child (t # ss) v = Inr child'" and "cur' = putBack cur s child'"
    and "getProp cur' s = Inr (Some child')"
proof -
  from assms obtain child' where
    s: "setLoop child (t # ss) v = Inr child'" and c: "cur' = putBack cur s child'"
    by (auto split: sum.splits)
  have "is_prim child \<Longrightarrow> child' = child" by (rule setLoop_prim [OF _ s])
  with assms(2) have "getProp (putBack cur s child') s = Inr (Some child')"
    by (rule getProp_putBack_same)
  with s c that show thesis by simp
qed

lemma setLoop_frame:
  assumes "setLoop m q v = Inr m'" and "\<not> prefix p q" and "\<not> prefix q p"
  shows "getLoop (Some m') p = getLoop (Some m) p"
  using assms
proof (induction m q v arbitrary: m' p rule: setLoop.induct)
  case (1 cur v)
  then show ?case by simp
next
  case (2 cur s v)
  then obtain s' p' where p: "p = s' # p'" and ne: "s' \<noteq> s"
    by (cases p) auto
  from 2(1) ne have "getProp m' s' = getProp cur s'"
    by (auto intro: getProp_assignProp_other)
  with p show ?case by simp
next
  case (3 cur s t ss v)
  from 3(3) obtain s' p' where p: "p = s' # p'" by (cases p) auto
  show ?case
  proof (cases "getProp cur s")
    case (Inl e)
    with 3(2) show ?thesis by simp
  next
    case (Inr co)
    show ?thesis
    proof (cases co)
      case None
      with Inr 3(2) show ?thesis by simp
    next
      case (Some child)
      with Inr have g: "getProp cur s = Inr (Some child)" by simp
      from 3(2) g obtain child' where
        s: "setLoop child (t # ss) v = Inr child'" and c: "m' = putBack cur s child'"
        and g': "getProp m' s = Inr (Some child')"
        by (rule setLoop_child)
      show ?thesis
      proof (cases "s' = s")
        case True
        with p 3(3,4) have "\<not> prefix p' (t # ss)" "\<not> prefix (t # ss) p'" by auto
        with 3(1) [OF Inr Some s, of p']
        have "getLoop (Some child') p' = getLoop (Some child) p'" by simp
        with p True g g' show ?thesis by simp
      next
        case False
        with c have "getProp m' s' = getProp cur s'" by (simp add: getProp_putBack_other)
        with p show ?thesis by simp
      qed
    qed
  qed
qed

lemma setLoop_get_same:
  assumes "setLoop m q v = Inr m'" and "getLoop (Some m) q = Inr (Some x)" and "q \<noteq> []"
  shows "getLoop (Some m') q = Inr (Some v)"
  using assms
proof (induction m q v arbitrary: m' rule: setLoop.induct)
  case (1 cur v)
  then show ?case by simp
next
  case (2 cur s v)
  then show ?case by (simp add: getProp_assignProp_same)
next
  case (3 cur s t ss v)
  show ?case
  proof (cases "getProp cur s")
    case (Inl e)
    with 3(2) show ?thesis by simp
  next
    case (Inr co)
    show ?thesis
    proof (cases co)
      case None
      with Inr 3(3) show ?thesis by simp
    next
      case (Some child)
      with Inr have g: "getProp cur s = Inr (Some child)" by simp
      from 3(2) g obtain child' where
        s: "setLoop child (t # ss) v = Inr child'"
        and g': "getProp m' s = Inr (Some child')"
        by (rule setLoop_child)
      from 3(3) g have "getLoop (Some child) (t # ss) = Inr (Some x)" by simp
      with 3(1) [OF Inr Some s] have "getLoop (Some child') (t # ss) = Inr (Some v)" by simp
      with g' show ?thesis by simp
    qed
  qed
qed

lemma setLoop_succeeds:
  assumes "getLoop (Some m) q = Inr (Some (JStr s))" and "1 < length s" and "q \<noteq> []"
  shows "\<exists>m'. setLoop m q v = Inr m'"
  using assms
proof (induction m q v rule: setLoop.induct)
  case (1 cur v)
  then show ?case by simp
next
  case (2 cur k v)
  then show ?case
    by (cases cur) (auto split: option.splits if_splits sum.splits)
next
  case (3 cur k t ss v)
  show ?case
  proof (cases "getProp cur k")
    case (Inl e)
    with 3(2) show ?thesis by simp
  next
    case (Inr co)
    show ?thesis
    proof (cases co)
      case None
      with Inr 3(2) show ?thesis by simp
    next
      case (Some child)
      with Inr have g: "getProp cur k = Inr (Some child)" by simp
      with 3(2) have "getLoop (Some child) (t # ss) = Inr (Some (JStr s))" by simp
      with 3(1) [OF Inr Some] 3(3) obtain child' where "setLoop child (t # ss) v = Inr child'" by auto
      with g show ?thesis by simp
    qed
  qed
qed

lemma splitOn_nonempty: "splitOn d acc xs \<noteq> []"
  by (induction xs arbitrary: acc) auto

lemma pathSegments_nonempty: "pathSegments p \<noteq> []"
  by (simp add: pathSegments_def splitOn_nonempty)

lemma apart_sym: "apart p q \<Longrightarrow> apart q p"
  by (auto simp: apart_def)

lemma setValueAtPath_frame:
  "setValueAtPath m q v = Inr m' \<Longrightarrow> apart p q \<Longrightarrow>
     getValueAtPath (Some m') p = getValueAtPath (Some m) p"
  unfolding setValueAtPath_def getValueAtPath_def apart_def
  by (rule setLoop_frame) auto

lemma setValueAtPath_same:
  "setValueAtPath m q v = Inr m' \<Longrightarrow> getValueAtPath (Some m) q = Inr (Some x) \<Longrightarrow>
     getValueAtPath (Some m') q = Inr (Some v)"
  unfolding setValueAtPath_def getValueAtPath_def
  by (rule setLoop_get_same) (auto simp: pathSegments_nonempty)

lemma longString_SomeD: "longString v = Some s \<Longrightarrow> v = Some (JStr s) \<and> 100 < length s"
  by (cases v rule: longString.cases) (auto split: if_splits)

lemma maskPaths_frame:
  "maskPaths m ps = Inr r \<Longrightarrow> \<forall>q \<in> set ps. apart p q \<Longrightarrow>
     getValueAtPath (Some r) p = getValueAtPath (Some m) p"
proof (induction ps arbitrary: m)
  case Nil
  then show ?case by simp
next
  case (Cons q qs)
  from Cons.prems(2) have pq: "apart p q" and rest: "\<forall>q \<in> set qs. apart p q" by auto
  from Cons.prems(1) obtain v where g: "getValueAtPath (Some m) q = Inr v"
    by (auto split: sum.splits)
  show ?case
  proof (cases "longString v")
    case None
    with Cons.prems(1) g have "maskPaths m qs = Inr r" by simp
    then show ?thesis using rest by (rule Cons.IH)
  next
    case (Some s)
    with Cons.prems(1) g obtain m' where
      st: "setValueAtPath m q (JStr (maskedValue s)) = Inr m'" and mp: "maskPaths m' qs = Inr r"
      by (auto split: sum.splits)
    from mp rest have "getValueAtPath (Some r) p = getValueAtPath (Some m') p" by (rule Cons.IH)
    with setValueAtPath_frame [OF st pq] show ?thesis by simp
  qed
qed

lemma maskPaths_at:
  "maskPaths m ps = Inr r \<Longrightarrow> separated ps \<Longrightarrow> p \<in> set ps \<Longrightarrow>
     \<exists>v. getValueAtPath (Some m) p = Inr v \<and> getValueAtPath (Some r) p = Inr (expected v)"
proof (induction ps arbitrary: m)
  case Nil
  then show ?case by simp
next
  case (Cons q qs)
  from Cons.prems(2) have sep: "separated qs" and qn: "q \<notin> set qs"
    and qa: "\<forall>b \<in> set qs. apart q b"
    by (auto simp: separated_def)
  from Cons.prems(1) obtain v where g: "getValueAtPath (Some m) q = Inr v"
    by (auto split: sum.splits)
  show ?case
  proof (cases "longString v")
    case None
    with Cons.prems(1) g have mp: "maskPaths m qs = Inr r" by simp
    show ?thesis
    proof (cases "p = q")
      case True
      from mp qa have "getValueAtPath (Some r) q = getValueAtPath (Some m) q"
        by (rule maskPaths_frame)
      with True g None show ?thesis by simp
    next
      case False
      with Cons.prems(3) have "p \<in> set qs" by simp
      with Cons.IH [OF mp sep] show ?thesis by simp
    qed
  next
    case (Some s)
    with Cons.prems(1) g obtain m' where
      st: "setValueAtPath m q (JStr (maskedValue s)) = Inr m'" and mp: "maskPaths m' qs = Inr r"
      by (auto split: sum.splits)
    from Some have v: "v = Some (JStr s)" by (auto dest: longString_SomeD)
    show ?thesis
    proof (cases "p = q")
      case True
      from mp qa have "getValueAtPath (Some r) q = getValueAtPath (Some m') q"
        by (rule maskPaths_frame)
      also from st g v have "\<dots> = Inr (Some (JStr (maskedValue s)))"
        by (auto intro: setValueAtPath_same)
      finally show ?thesis using True g Some by simp
    next
      case False
      with Cons.prems(3) have pin: "p \<in> set qs" by simp
      with qa have "apart p q" by (auto intro: apart_sym)
      with st have "getValueAtPath (Some m') p = getValueAtPath (Some m) p"
        by (rule setValueAtPath_frame)
      with Cons.IH [OF mp sep pin] show ?thesis by simp
    qed
  qed
qed

lemma maskPaths_total:
  "separated ps \<Longrightarrow> \<forall>p \<in> set ps. \<exists>v. getValueAtPath (Some m) p = Inr v \<Longrightarrow>
     \<exists>r. maskPaths m ps = Inr r"
proof (induction ps arbitrary: m)
  case Nil
  then show ?case by simp
next
  case (Cons q qs)
  from Cons.prems(1) have sep: "separated qs"
    and qa: "\<forall>b \<in> set qs. apart b q"
    by (auto simp: separated_def intro: apart_sym)
  from Cons.prems(2) obtain v where g: "getValueAtPath (Some m) q = Inr v" by auto
  show ?case
  proof (cases "longString v")
    case None
    from Cons.prems(2) have "\<forall>p \<in> set qs. \<exists>v. getValueAtPath (Some m) p = Inr v" by simp
    with sep obtain r where "maskPaths m qs = Inr r" using Cons.IH by blast
    with g None show ?thesis by simp
  next
    case (Some s)
    then have v: "v = Some (JStr s)" and len: "100 < length s" by (auto dest: longString_SomeD)
    from g v have "getLoop (Some m) (pathSegments q) = Inr (Some (JStr s))"
      by (simp add: getValueAtPath_def)
    moreover from len have "1 < length s" by simp
    ultimately obtain m' where st: "setValueAtPath m q (JStr (maskedValue s)) = Inr m'"
      unfolding setValueAtPath_def
      using setLoop_succeeds [OF _ _ pathSegments_nonempty] by blast
    have "\<forall>p \<in> set qs. \<exists>v. getValueAtPath (Some m') p = Inr v"
    proof
      fix p assume pin: "p \<in> set qs"
      with qa have "apart p q" by simp
      with st have "getValueAtPath (Some m') p = getValueAtPath (Some m) p"
        by (rule setValueAtPath_frame)
      with Cons.prems(2) pin show "\<exists>v. getValueAtPath (Some m') p = Inr v" by simp
    qed
    with sep obtain r where "maskPaths m' qs = Inr r" using Cons.IH by blast
    with g Some st show ?thesis by simp
  qed
qed

lemma prefix_same_length: "prefix xs ys \<Longrightarrow> length xs = length ys \<Longrightarrow> xs = ys"
  by (auto simp: prefix_def)

lemma apart_same_length:
  "length (pathSegments a) = length (pathSegments b) \<Longrightarrow> pathSegments a \<noteq> pathSegments b \<Longrightarrow>
     apart a b"
  unfolding apart_def by (metis prefix_same_length)

lemma apart_imagenPath: "i \<noteq> i' \<Longrightarrow> apart (imagenPath i) (imagenPath i')"
  by (rule apart_same_length) (auto simp: pathSegments_imagenPath dest: show_nat_inj)

lemma apart_geminiPath: "i \<noteq> i' \<or> j \<noteq> j' \<Longrightarrow> apart (geminiPath i j) (geminiPath i' j')"
  by (rule apart_same_length) (auto simp: pathSegments_geminiPath dest: show_nat_inj)

lemma imagenPath_inj:
  assumes "imagenPath i = imagenPath i'"
  shows "i = i'"
proof -
  from assms have "pathSegments (imagenPath i) = pathSegments (imagenPath i')" by simp
  then show ?thesis by (simp add: pathSegments_imagenPath show_nat_inj)
qed

lemma geminiPath_inj:
  assumes "geminiPath i j = geminiPath i' j'"
  shows "i = i' \<and> j = j'"
proof -
  from assms have "pathSegments (geminiPath i j) = pathSegments (geminiPath i' j')" by simp
  then show ?thesis by (auto simp: pathSegments_geminiPath dest: show_nat_inj)
qed

lemma separated_imagen: "separated (map imagenPath [0..<n])"
  unfolding separated_def
  by (auto simp: distinct_map inj_on_def dest: imagenPath_inj intro: apart_imagenPath)

lemma geminiPathsFrom_mem:
  "geminiPathsFrom k cs = Inr ps \<Longrightarrow>
     p \<in> set ps \<longleftrightarrow>
       (\<exists>i j parts. i < length cs \<and> candidateParts (cs ! i) = Inr (Some parts) \<and>
          j < length parts \<and> p = geminiPath (k + i) j)"
proof (induction cs arbitrary: k ps)
  case Nil
  then show ?case by simp
next
  case (Cons c cs)
  from Cons.prems obtain po qs where c: "candidateParts c = Inr po"
    and q: "geminiPathsFrom (Suc k) cs = Inr qs"
    and ps: "ps = (case po of None \<Rightarrow> [] | Some parts \<Rightarrow> map (geminiPath k) [0..<length parts]) @ qs"
    by (auto split: sum.splits)
  have here: "p \<in> set (case po of None \<Rightarrow> [] | Some parts \<Rightarrow> map (geminiPath k) [0..<length parts])
      \<longleftrightarrow> (\<exists>j parts. candidateParts c = Inr (Some parts) \<and> j < length parts \<and> p = geminiPath k j)"
    using c by (auto split: option.splits)
  have there: "p \<in> set qs \<longleftrightarrow>
       (\<exists>i j parts. i < length cs \<and> candidateParts (cs ! i) = Inr (Some parts) \<and>
          j < length parts \<and> p = geminiPath (Suc k + i) j)"
    using q by (rule Cons.IH)
  have split: "\<And>P. (\<exists>i. i < length (c # cs) \<and> P i) \<longleftrightarrow> P 0 \<or> (\<exists>i. i < length cs \<and> P (Suc i))"
    by (simp add: less_Suc_eq_0_disj) blast
  have "(\<exists>i j parts. i < length (c # cs) \<and> candidateParts ((c # cs) ! i) = Inr (Some parts) \<and>
          j < length parts \<and> p = geminiPath (k + i) j)
     \<longleftrightarrow> (\<exists>i. i < length (c # cs) \<and> (\<exists>j parts. candidateParts ((c # cs) ! i) = Inr (Some parts) \<and>
          j < length parts \<and> p = geminiPath (k + i) j))"
    by blast
  also have "\<dots> \<longleftrightarrow> (\<exists>j parts. candidateParts c = Inr (Some parts) \<and> j < length parts \<and> p = geminiPath k j)
      \<or> (\<exists>i. i < length cs \<and> (\<exists>j parts. candidateParts (cs ! i) = Inr (Some parts) \<and>
          j < length parts \<and> p = geminiPath (Suc k + i) j))"
    by (subst split) simp
  also have "\<dots> \<longleftrightarrow> p \<in> set ps"
    unfolding ps set_append Un_iff here there by blast
  finally show ?case by simp
qed

lemma geminiPathsFrom_separated: "geminiPathsFrom k cs = Inr ps \<Longrightarrow> separated ps"
proof (induction cs arbitrary: k ps)
  case Nil
  then show ?case by (simp add: separated_def)
next
  case (Cons c cs)
  from Cons.prems obtain po qs where c: "candidateParts c = Inr po"
    and q: "geminiPathsFrom (Suc k) cs = Inr qs"
    and ps: "ps = (case po of None \<Rightarrow> [] | Some parts \<Rightarrow> map (geminiPath k) [0..<length parts]) @ qs"
    by (auto split: sum.splits)
  from q have sq: "separated qs" by (rule Cons.IH)
  have ap: "apart a b" if "a \<in> set ps" "b \<in> set ps" "a \<noteq> b" for a b
  proof -
    from that(1) obtain i j where a: "a = geminiPath i j"
      unfolding geminiPathsFrom_mem [OF Cons.prems] by blast
    from that(2) obtain i' j' where b: "b = geminiPath i' j'"
      unfolding geminiPathsFrom_mem [OF Cons.prems] by blast
    from a b that(3) have "i \<noteq> i' \<or> j \<noteq> j'" by auto
    with a b show ?thesis by (simp add: apart_geminiPath)
  qed
  have notin: "geminiPath k j \<notin> set qs" for j
  proof
    assume "geminiPath k j \<in> set qs"
    then obtain i j' where "geminiPath k j = geminiPath (Suc k + i) j'"
      unfolding geminiPathsFrom_mem [OF q] by blast
    then have "k = Suc k + i" by (auto dest: geminiPath_inj)
    then show False by simp
  qed
  have "distinct (map (geminiPath k) [0..<n])" for n
    by (auto simp: distinct_map inj_on_def dest: geminiPath_inj)
  with sq ps notin have "distinct ps"
    by (cases po) (auto simp: separated_def)
  with ap show ?case by (simp add: separated_def)
qed

lemma base64Paths_separated:
  assumes "base64Paths obj = Inr ps"
  shows "separated ps"
proof (cases "getProp obj ''predictions''")
  case (Inl e)
  with assms show ?thesis by (simp add: base64Paths_def)
next
  case (Inr po)
  show ?thesis
  proof (cases "asArray po")
    case (Some preds)
    with Inr assms have "ps = map imagenPath [0..<length preds]"
      by (simp add: base64Paths_def findImagenBase64Paths_def)
    then show ?thesis by (simp add: separated_imagen)
  next
    case None
    show ?thesis
    proof (cases "getProp obj ''candidates''")
      case (Inl e)
      with None Inr assms show ?thesis by (simp add: base64Paths_def)
    next
      case co: (Inr co)
      show ?thesis
      proof (cases "asArray co")
        case None': None
        with co None Inr assms have "ps = []" by (simp add: base64Paths_def)
        then show ?thesis by (simp add: separated_def)
      next
        case (Some cands)
        with co None Inr assms have "geminiPathsFrom 0 cands = Inr ps"
          by (simp add: base64Paths_def findGeminiBase64Paths_def)
        then show ?thesis by (rule geminiPathsFrom_separated)
      qed
    qed
  qed
qed

lemma base64Paths_imagen:
  "base64Paths obj = Inr ps \<Longrightarrow> getProp obj ''predictions'' = Inr (Some (JArr preds)) \<Longrightarrow>
     ps = map imagenPath [0..<length preds]"
  by (simp add: base64Paths_def findImagenBase64Paths_def)

lemma base64Paths_gemini:
  "base64Paths obj = Inr ps \<Longrightarrow> getProp obj ''predictions'' = Inr po \<Longrightarrow> asArray po = None \<Longrightarrow>
     getProp obj ''candidates'' = Inr (Some (JArr cands)) \<Longrightarrow> geminiPathsFrom 0 cands = Inr ps"
  by (simp add: base64Paths_def findGeminiBase64Paths_def)

lemma index_of_nondigit: "\<exists>c \<in> set k. \<not> is_digit c \<Longrightarrow> index_of n k = None"
  unfolding index_of_def find_None_iff using show_nat_digits by blast

lemma getProp_prim_name:
  "\<exists>c \<in> set k. \<not> is_digit c \<Longrightarrow> k \<noteq> ''length'' \<Longrightarrow> \<not> isObject v \<or> \<not> truthy v \<Longrightarrow> v \<noteq> JNull \<Longrightarrow>
     getProp v k = Inr None"
  by (cases v) (auto simp: index_of_nondigit)

lemma maskBase64Content_maskPaths:
  assumes "maskBase64Content (Some obj) = Inr (Some r)" and "base64Paths obj = Inr ps"
  shows "maskPaths obj ps = Inr r"
proof (cases "\<not> truthy obj \<or> \<not> isObject obj")
  case True
  have "obj \<noteq> JNull" using assms(2) by (auto simp: base64Paths_def)
  with True have "getProp obj ''predictions'' = Inr None" "getProp obj ''candidates'' = Inr None"
    by (auto intro!: getProp_prim_name simp: is_digit_def)
  then have "ps = []" using assms(2)
    by (simp add: base64Paths_def)
  with True assms(1) show ?thesis by (simp add: maskBase64Content_def)
next
  case False
  with assms show ?thesis
    by (simp add: maskBase64Content_def deepCopy_def split: sum.splits)
qed

lemma approxKB_div: "approxKB L = L * 3 div 4096"
proof -
  have "(of_nat L :: rat) / 4 * 3 / 1024 = of_nat (L * 3) / of_nat 4096" by simp
  then have "\<lfloor>(of_nat L :: rat) / 4 * 3 / 1024\<rfloor> = int (L * 3 div 4096)"
    by (simp only: floor_divide_of_nat_eq)
  then show ?thesis by (simp add: approxKB_def)
qed

lemma length_show_nat_le: "length (show_nat n) \<le> Suc n"
proof (induction n rule: show_nat.induct)
  case (1 n)
  show ?case
  proof (cases "n < 10")
    case True
    then show ?thesis by (subst show_nat.simps) simp
  next
    case False
    with 1 have "length (show_nat (n div 10)) \<le> Suc (n div 10)" by simp
    with False show ?thesis by (subst show_nat.simps) simp
  qed
qed

lemma length_maskedValue: "100 < length s \<Longrightarrow> length (maskedValue s) < length s"
  using length_show_nat_le [of "approxKB (length s)"]
  by (simp add: maskedValue_def approxKB_div)

lemma maskedValue_neq: "100 < length s \<Longrightarrow> maskedValue s \<noteq> s"
  using length_maskedValue [of s] by auto

lemma recognisedPaths_separated: "separated (recognisedPaths obj)"
  by (auto simp: recognisedPaths_def separated_def split: sum.splits dest: base64Paths_separated)

lemma maskBase64Content_recognised:
  assumes "maskBase64Content (Some obj) = Inr (Some r)"
  shows "maskPaths obj (recognisedPaths obj) = Inr r"
proof (cases "base64Paths obj")
  case (Inl e)
  with assms have "\<not> truthy obj \<or> \<not> isObject obj"
    by (auto simp: maskBase64Content_def deepCopy_def)
  with assms Inl show ?thesis
    by (simp add: maskBase64Content_def recognisedPaths_def)
next
  case (Inr ps)
  with assms show ?thesis
    by (simp add: recognisedPaths_def maskBase64Content_maskPaths)
qed

lemmas eval_path =
  getValueAtPath_def setValueAtPath_def pathSegments_imagenPath pathSegments_geminiPath
  index_of_def show_nat.simps digit_char_def

section \<open>Properties of the base64 codec\<close>

lemma positionIn_nth: "distinct xs \<Longrightarrow> n < length xs \<Longrightarrow> positionIn xs (xs ! n) = Some n"
proof (induction xs arbitrary: n)
  case Nil
  then show ?case by simp
next
  case (Cons x xs)
  show ?case
  proof (cases n)
    case 0
    then show ?thesis by simp
  next
    case (Suc m)
    with Cons.prems have "xs ! m \<noteq> x" "m < length xs" "distinct xs" by auto
    with Suc Cons.IH [of m] show ?thesis by auto
  qed
qed

lemma b64alphabet_distinct: "distinct b64alphabet"
  by (simp add: b64alphabet_def)

lemma b64alphabet_length: "length b64alphabet = 64"
  by (simp add: b64alphabet_def)

lemma b64alphabet_others:
  "CHR ''-'' \<notin> set b64alphabet" "CHR ''_'' \<notin> set b64alphabet" "CHR ''='' \<notin> set b64alphabet"
  by (simp_all add: b64alphabet_def)

lemma b64char_in: "n < 64 \<Longrightarrow> b64char n \<in> set b64alphabet"
  by (simp add: b64char_def b64alphabet_length)

lemma b64val_b64char:
  assumes "n < 64"
  shows "b64val (b64char n) = Some n"
proof -
  from assms have "b64char n \<in> set b64alphabet" by (rule b64char_in)
  with b64alphabet_others have "b64char n \<noteq> CHR ''-''" "b64char n \<noteq> CHR ''_''" by auto
  moreover from assms have "positionIn b64alphabet (b64alphabet ! n) = Some n"
    by (simp add: positionIn_nth b64alphabet_distinct b64alphabet_length)
  ultimately show ?thesis by (simp add: b64val_def b64char_def)
qed

lemma b64char_not_pad: "n < 64 \<Longrightarrow> b64char n \<noteq> CHR ''=''"
  using b64char_in [of n] b64alphabet_others by auto

lemma byte_bound: "unat (a :: byte) < 256"
  using unsigned_less [of a, where ?'a = nat] by simp

lemma sextet_nat:
  fixes x y z :: nat
  assumes "x < 256" "y < 256" "z < 256"
  shows "x div 4 < 64" "x mod 4 * 16 + y div 16 < 64" "y mod 16 * 4 + z div 64 < 64"
    "z mod 64 < 64" "x mod 4 * 16 < 64" "y mod 16 * 4 < 64"
proof -
  have a: "x mod 4 < 4" "y mod 16 < 16" by simp_all
  from assms have b: "y div 16 < 16" "z div 64 < 4" "x div 4 < 64" by simp_all
  from a b show "x div 4 < 64" "x mod 4 * 16 + y div 16 < 64" "y mod 16 * 4 + z div 64 < 64"
    "z mod 64 < 64" "x mod 4 * 16 < 64" "y mod 16 * 4 < 64"
    by simp_all
qed

lemma rejoin_nat:
  fixes x y z :: nat
  assumes "x < 256" "y < 256" "z < 256"
  shows "x div 4 * 4 + (x mod 4 * 16 + y div 16) div 16 = x"
    and "(x mod 4 * 16 + y div 16) mod 16 * 16 + (y mod 16 * 4 + z div 64) div 4 = y"
    and "(y mod 16 * 4 + z div 64) mod 4 * 64 + z mod 64 = z"
    and "x div 4 * 4 + (x mod 4 * 16) div 16 = x"
    and "(x mod 4 * 16 + y div 16) mod 16 * 16 + (y mod 16 * 4) div 4 = y"
proof -
  from assms have b: "y div 16 < 16" "z div 64 < 4" by simp_all
  then have c: "y div 16 div 16 = 0" "z div 64 div 4 = 0" "y div 16 mod 16 = y div 16"
    "z div 64 mod 4 = z div 64" by simp_all
  show "x div 4 * 4 + (x mod 4 * 16 + y div 16) div 16 = x" using c by simp
  show "(x mod 4 * 16 + y div 16) mod 16 * 16 + (y mod 16 * 4 + z div 64) div 4 = y"
    using c by simp
  show "(y mod 16 * 4 + z div 64) mod 4 * 64 + z mod 64 = z" using c by simp
  show "x div 4 * 4 + (x mod 4 * 16) div 16 = x" by simp
  show "(x mod 4 * 16 + y div 16) mod 16 * 16 + (y mod 16 * 4) div 4 = y" using c by simp
qed

lemmas sextet_bounds = sextet_nat [OF byte_bound byte_bound byte_bound]
lemmas rejoin = rejoin_nat [OF byte_bound byte_bound byte_bound]

lemma sextetsOf_Cons: "n < 64 \<Longrightarrow> sextetsOf (b64char n # s) = n # sextetsOf s"
  by (simp add: sextetsOf_def b64val_b64char b64char_not_pad)

lemma sextetsOf_pad: "sextetsOf (CHR ''='' # s) = []"
  by (simp add: sextetsOf_def)

lemma sextetsOf_Nil: "sextetsOf [] = []"
  by (simp add: sextetsOf_def)

lemma decode_encode: "decodeBase64 (encodeBase64 bs) = bs"
proof -
  have "decodeSextets (sextetsOf (encodeBase64 bs)) = bs"
  proof (induction bs rule: encodeBase64.induct)
    case 1
    show ?case by (simp add: sextetsOf_Nil)
  next
    case (2 a)
    have "sextetsOf (encodeBase64 [a]) = [unat a div 4, unat a mod 4 * 16]"
      by (simp only: encodeBase64.simps sextetsOf_Cons sextet_bounds sextetsOf_pad)
    then have "decodeSextets (sextetsOf (encodeBase64 [a]))
        = [of_nat (unat a div 4 * 4 + (unat a mod 4 * 16) div 16)]"
      by (simp only: decodeSextets.simps)
    also have "\<dots> = [of_nat (unat a)]" by (simp only: rejoin)
    finally show ?case by simp
  next
    case (3 a b)
    have "sextetsOf (encodeBase64 [a, b])
        = [unat a div 4, unat a mod 4 * 16 + unat b div 16, unat b mod 16 * 4]"
      by (simp only: encodeBase64.simps sextetsOf_Cons sextet_bounds sextetsOf_pad)
    then have "decodeSextets (sextetsOf (encodeBase64 [a, b]))
        = [of_nat (unat a div 4 * 4 + (unat a mod 4 * 16 + unat b div 16) div 16),
           of_nat ((unat a mod 4 * 16 + unat b div 16) mod 16 * 16 + (unat b mod 16 * 4) div 4)]"
      by (simp only: decodeSextets.simps)
    also have "\<dots> = [of_nat (unat a), of_nat (unat b)]" by (simp only: rejoin)
    finally show ?case by simp
  next
    case (4 a b c rest)
    have "sextetsOf (encodeBase64 (a # b # c # rest))
        = unat a div 4 # (unat a mod 4 * 16 + unat b div 16)
          # (unat b mod 16 * 4 + unat c div 64) # unat c mod 64 # sextetsOf (encodeBase64 rest)"
      by (simp only: encodeBase64.simps append_Cons append_Nil sextetsOf_Cons sextet_bounds)
    then have "decodeSextets (sextetsOf (encodeBase64 (a # b # c # rest)))
        = [of_nat (unat a div 4 * 4 + (unat a mod 4 * 16 + unat b div 16) div 16),
           of_nat ((unat a mod 4 * 16 + unat b div 16) mod 16 * 16
                   + (unat b mod 16 * 4 + unat c div 64) div 4),
           of_nat ((unat b mod 16 * 4 + unat c div 64) mod 4 * 64 + unat c mod 64)]
          @ decodeSextets (sextetsOf (encodeBase64 rest))"
      by (simp only: decodeSextets.simps)
    also have "\<dots> = [of_nat (unat a), of_nat (unat b), of_nat (unat c)] @ rest"
      by (simp only: rejoin 4)
    finally show ?case by simp
  qed
  then show ?thesis by (simp add: decodeBase64_def sextetsOf_def)
qed


section \<open>Properties of the artifact writer and of the normalizers\<close>

lemma asArray_SomeD: "asArray v = Some xs \<Longrightarrow> v = Some (JArr xs)"
  by (cases v rule: asArray.cases) auto

lemma getProp_nonnull: "v \<noteq> JNull \<Longrightarrow> \<exists>r. getProp v k = Inr r"
  by (cases v) (auto split: option.splits)

lemma truthy_nonnull: "truthy v \<Longrightarrow> v \<noteq> JNull"
  by auto

lemma candidateParts_SomeD:
  assumes "candidateParts c = Inr (Some parts)"
  obtains content where "getProp c ''content'' = Inr (Some content)" and "truthy content"
    and "getProp content ''parts'' = Inr (Some (JArr parts))"
  using assms unfolding candidateParts_def
  by (auto split: sum.splits option.splits if_splits dest!: asArray_SomeD)

lemma candidateParts_ok: "c \<noteq> JNull \<Longrightarrow> \<exists>po. candidateParts c = Inr po"
proof -
  assume "c \<noteq> JNull"
  then obtain r where r: "getProp c ''content'' = Inr r" using getProp_nonnull by blast
  show ?thesis
  proof (cases r)
    case None
    with r show ?thesis by (simp add: candidateParts_def)
  next
    case (Some content)
    show ?thesis
    proof (cases "truthy content")
      case True
      then obtain q where "getProp content ''parts'' = Inr q"
        using getProp_nonnull truthy_nonnull by blast
      with r Some True show ?thesis by (simp add: candidateParts_def)
    next
      case False
      with r Some show ?thesis by (simp add: candidateParts_def)
    qed
  qed
qed

lemma geminiPathsFrom_ok: "list_all candidateOk cs \<Longrightarrow> \<exists>ps. geminiPathsFrom k cs = Inr ps"
proof (induction cs arbitrary: k)
  case Nil
  then show ?case by simp
next
  case (Cons c cs)
  then have "candidateOk c" and rest: "list_all candidateOk cs" by simp_all
  then have "c \<noteq> JNull" by (simp add: candidateOk_def)
  then obtain po where "candidateParts c = Inr po" using candidateParts_ok by blast
  moreover from rest obtain qs where "geminiPathsFrom (Suc k) cs = Inr qs"
    using Cons.IH by blast
  ultimately show ?case by simp
qed

lemma getValue_imagenPath:
  assumes "getProp obj ''predictions'' = Inr (Some (JArr preds))" and "i < length preds"
    and "preds ! i \<noteq> JNull"
  shows "\<exists>v. getValueAtPath (Some obj) (imagenPath i) = Inr v"
proof -
  from assms(3) obtain r where "getProp (preds ! i) ''bytesBase64Encoded'' = Inr r"
    using getProp_nonnull by blast
  with assms(1,2) show ?thesis
    by (simp add: getValueAtPath_def pathSegments_imagenPath index_of_show_nat)
qed

lemma getValue_geminiPath:
  assumes "getProp obj ''candidates'' = Inr (Some (JArr cands))" and "i < length cands"
    and "candidateParts (cands ! i) = Inr (Some parts)" and "j < length parts"
    and "partOk (parts ! j)"
  shows "\<exists>v. getValueAtPath (Some obj) (geminiPath i j) = Inr v"
proof -
  from assms(3) obtain content where c: "getProp (cands ! i) ''content'' = Inr (Some content)"
    and p: "getProp content ''parts'' = Inr (Some (JArr parts))"
    by (rule candidateParts_SomeD)
  from assms(5) obtain r where r: "getProp (parts ! j) ''inlineData'' = Inr r"
    and nn: "r \<noteq> Some JNull"
    using getProp_nonnull [of "parts ! j" "''inlineData''"] by (auto simp: partOk_def)
  have "\<exists>v. getLoop r [''data''] = Inr v"
  proof (cases r)
    case None
    then show ?thesis by simp
  next
    case (Some inl)
    with nn have "inl \<noteq> JNull" by simp
    then obtain d where "getProp inl ''data'' = Inr d" using getProp_nonnull by blast
    with Some show ?thesis by simp
  qed
  with assms(1,2,4) c p r show ?thesis
    by (simp add: getValueAtPath_def pathSegments_geminiPath index_of_show_nat)
qed

lemma maskable_paths:
  assumes "maskable obj" and "p \<in> set (recognisedPaths obj)"
  shows "\<exists>v. getValueAtPath (Some obj) p = Inr v"
proof -
  from assms(2) obtain ps where ps: "base64Paths obj = Inr ps" and pin: "p \<in> set ps"
    by (cases "base64Paths obj") (auto simp: recognisedPaths_def)
  then obtain po where po: "getProp obj ''predictions'' = Inr po"
    by (auto simp: base64Paths_def split: sum.splits)
  show ?thesis
  proof (cases "asArray po")
    case (Some preds)
    then have pr: "getProp obj ''predictions'' = Inr (Some (JArr preds))"
      using po by (auto dest: asArray_SomeD)
    with ps pin obtain i where i: "i < length preds" "p = imagenPath i"
      by (auto dest!: base64Paths_imagen)
    from assms(1) po Some i have "preds ! i \<noteq> JNull"
      by (simp add: maskable_def list_all_length)
    with pr i show ?thesis by (auto intro: getValue_imagenPath)
  next
    case None
    with ps po obtain co where co: "getProp obj ''candidates'' = Inr co"
      by (auto simp: base64Paths_def split: sum.splits)
    show ?thesis
    proof (cases "asArray co")
      case None': None
      with None ps po co pin show ?thesis by (simp add: base64Paths_def)
    next
      case (Some cands)
      then have ca: "getProp obj ''candidates'' = Inr (Some (JArr cands))"
        using co by (auto dest: asArray_SomeD)
      from base64Paths_gemini [OF ps po None ca] have "geminiPathsFrom 0 cands = Inr ps" .
      from geminiPathsFrom_mem [OF this, of p] pin
      obtain i j parts where ij: "i < length cands" "candidateParts (cands ! i) = Inr (Some parts)"
        "j < length parts" "p = geminiPath i j" by auto
      from assms(1) po None co Some ij(1) have "candidateOk (cands ! i)"
        by (simp add: maskable_def list_all_length)
      with ij have "partOk (parts ! j)" by (simp add: candidateOk_def list_all_length)
      with ca ij show ?thesis by (auto intro: getValue_geminiPath)
    qed
  qed
qed

lemma maskable_collects:
  assumes "maskable obj" and "obj \<noteq> JNull"
  shows "\<exists>ps. base64Paths obj = Inr ps"
proof -
  from assms(2) obtain po where po: "getProp obj ''predictions'' = Inr po"
    using getProp_nonnull by blast
  from assms(2) obtain co where co: "getProp obj ''candidates'' = Inr co"
    using getProp_nonnull by blast
  show ?thesis
  proof (cases "asArray po")
    case (Some preds)
    with po show ?thesis by (simp add: base64Paths_def findImagenBase64Paths_def)
  next
    case None
    show ?thesis
    proof (cases "asArray co")
      case None': None
      with None po co show ?thesis by (simp add: base64Paths_def)
    next
      case (Some cands)
      with assms(1) po co None have "list_all candidateOk cands" by (simp add: maskable_def)
      then obtain ps where "geminiPathsFrom 0 cands = Inr ps" using geminiPathsFrom_ok by blast
      with None po co Some show ?thesis
        by (simp add: base64Paths_def findGeminiBase64Paths_def)
    qed
  qed
qed

lemma maskable_returns:
  assumes "maskable obj"
  shows "\<exists>r. maskBase64Content (Some obj) = Inr (Some r)"
proof (cases "\<not> truthy obj \<or> \<not> isObject obj")
  case True
  then show ?thesis by (simp add: maskBase64Content_def)
next
  case False
  then have "obj \<noteq> JNull" by auto
  with assms obtain ps where ps: "base64Paths obj = Inr ps" using maskable_collects by blast
  then have rp: "recognisedPaths obj = ps" by (simp add: recognisedPaths_def)
  have "\<forall>p \<in> set ps. \<exists>v. getValueAtPath (Some obj) p = Inr v"
    using maskable_paths [OF assms] rp by simp
  with base64Paths_separated [OF ps] obtain r where "maskPaths obj ps = Inr r"
    using maskPaths_total by blast
  with False ps show ?thesis by (simp add: maskBase64Content_def deepCopy_def)
qed


lemma saveFile_ok:
  assumes "\<not> denied s p" and "\<not> denied s (pathDirname pf p)" and "fileData d b = Inr c"
  shows "saveFile pf p d b s = (Inr p, afterSave pf s p c)"
  using assms
  by (simp add: saveFile_def io_bind_def ensureDir_def mkdirSync_def io_lift_def
      writeFileSync_def io_return_def afterSave_def)

lemma afterSave_simps:
  "denied (afterSave pf s p c) = denied s"
  "files (afterSave pf s p c) = files s @ [(p, c)]"
  by (simp_all add: afterSave_def)

lemma readFile_afterSave: "readFile (afterSave pf s p c) p = Some c"
  by (simp add: readFile_def afterSave_def)

lemma maskAndSaveJson_returns:
  assumes "maskBase64Content (Some obj) = Inr (Some m)"
    and "\<not> denied s p" and "\<not> denied s (pathDirname pf p)"
  shows "maskAndSaveJson pf obj p s = (Inr p, afterSave pf s p (JsonChars m 2))"
proof -
  have "fileData (Stringified m 2) False = Inr (JsonChars m 2)" by (simp add: fileData_def)
  with assms(2,3) have "saveFile pf p (Stringified m 2) False s
      = (Inr p, afterSave pf s p (JsonChars m 2))"
    by (rule saveFile_ok)
  with assms(1) show ?thesis
    by (simp add: maskAndSaveJson_def io_bind_def io_lift_def)
qed

lemma maskAndSaveJson_throws:
  "maskBase64Content (Some obj) = Inl e \<Longrightarrow> maskAndSaveJson pf obj p s = (Inl e, s)"
  by (simp add: maskAndSaveJson_def io_bind_def io_lift_def)

lemma maskAndSaveJson_ok:
  assumes "maskable obj" and "\<not> denied s p" and "\<not> denied s (pathDirname pf p)"
  shows "\<exists>m. maskBase64Content (Some obj) = Inr (Some m) \<and>
             maskAndSaveJson pf obj p s = (Inr p, afterSave pf s p (JsonChars m 2))"
proof -
  from assms(1) obtain m where m: "maskBase64Content (Some obj) = Inr (Some m)"
    using maskable_returns by blast
  from maskAndSaveJson_returns [OF m assms(2,3)] m show ?thesis by blast
qed


lemma show_nat_small: "show_nat 0 = ''0''" "show_nat (Suc 0) = ''1''" "show_nat 1 = ''1''"
  "show_nat 2 = ''2''" "show_nat (Suc (Suc 0)) = ''2''"
  by (simp_all add: show_nat.simps digit_char_def)

lemma first_element: "index_of (Suc n) ''0'' = Some 0"
  using index_of_show_nat [of 0 "Suc n"] by (simp add: show_nat_small)

lemma safetyBlocked_first:
  assumes "getProp result ''candidates'' = Inr (Some (JArr (c0 # cs)))" and "c0 \<noteq> JNull"
  shows "safetyBlocked result
     = Inr (getProp c0 ''finishReason'' = Inr (Some (JStr ''IMAGE_SAFETY'')))"
proof -
  from assms(2) obtain fr where "getProp c0 ''finishReason'' = Inr fr"
    using getProp_nonnull by blast
  with assms(1) show ?thesis
    by (simp add: safetyBlocked_def nonEmpty_def first_element)
qed

lemma firstCandidateParts_array:
  assumes "getProp result ''candidates'' = Inr (Some (JArr (c0 # cs)))"
    and "getProp c0 ''content'' = Inr (Some content)" and "truthy content"
    and "getProp content ''parts'' = Inr (Some (JArr parts))"
  shows "firstCandidateParts result = Inr parts"
  using assms by (simp add: firstCandidateParts_def nonEmpty_def first_element)

lemma splitOn_whole: "d \<notin> set xs \<Longrightarrow> splitOn d acc xs = [acc @ xs]"
  using splitOn_append [of d xs acc "[]"] by simp

lemma splitOn_two: "d \<notin> set xs \<Longrightarrow> d \<notin> set ys \<Longrightarrow> splitOn d [] (xs @ d # ys) = [xs, ys]"
  by (simp add: splitOn_append splitOn_whole)

lemma imagePartOf_D:
  assumes "imagePartOf part ty sub d"
  obtains inl where "inlineImage part = Inr (Some (inl, JStr d))" and "extensionOf inl = Inr sub"
proof -
  from assms obtain inl where i: "getProp part ''inlineData'' = Inr (Some inl)" "truthy inl"
    "getProp inl ''data'' = Inr (Some (JStr d))" "d \<noteq> []"
    "getProp inl ''mimeType'' = Inr (Some (JStr (ty @ CHR ''/'' # sub)))"
    "CHR ''/'' \<notin> set ty" "CHR ''/'' \<notin> set sub"
    by (auto simp: imagePartOf_def split: sum.splits option.splits)
  then have "inlineImage part = Inr (Some (inl, JStr d))" by (simp add: inlineImage_def)
  moreover from i have "extensionOf inl = Inr sub"
    by (simp add: extensionOf_def splitOn_two)
  ultimately show thesis by (rule that)
qed

lemma extractParts_text:
  "list_all textOnly xs \<Longrightarrow>
     extractParts pf rid out n saved (xs @ rest) s = extractParts pf rid out n saved rest s"
  by (induction xs) (simp_all add: textOnly_def inlineImage_def)

lemma extractParts_image:
  assumes "imagePartOf a ty sub d" and "\<forall>p. \<not> denied s p"
  shows "extractParts pf rid out n saved (a # rest) s
     = extractParts pf rid out (Suc n) (saved @ [pathJoin pf out (generatedName rid (Suc n) sub)])
         rest (afterSave pf s (pathJoin pf out (generatedName rid (Suc n) sub))
                 (Bytes (decodeBase64 d)))"
proof -
  from assms(1) obtain inl where i: "inlineImage a = Inr (Some (inl, JStr d))"
    and e: "extensionOf inl = Inr sub"
    by (rule imagePartOf_D)
  have "fileData (Value (JStr d)) True = Inr (Bytes (decodeBase64 d))" by (simp add: fileData_def)
  with assms(2) have "saveFile pf (pathJoin pf out (generatedName rid (Suc n) sub)) (Value (JStr d)) True s
      = (Inr (pathJoin pf out (generatedName rid (Suc n) sub)),
         afterSave pf s (pathJoin pf out (generatedName rid (Suc n) sub)) (Bytes (decodeBase64 d)))"
    by (intro saveFile_ok) auto
  with i e show ?thesis by simp
qed

lemma extractParts_two:
  assumes "list_all textOnly xs" "list_all textOnly ys" "list_all textOnly zs"
    and "imagePartOf a ty1 sub1 d1" and "imagePartOf b ty2 sub2 d2" and "\<forall>p. \<not> denied s p"
  shows "extractParts pf rid out 0 [] (xs @ a # ys @ b # zs) s
     = ((None, [pathJoin pf out (generatedName rid 1 sub1), pathJoin pf out (generatedName rid 2 sub2)]),
        afterSave pf
          (afterSave pf s (pathJoin pf out (generatedName rid 1 sub1)) (Bytes (decodeBase64 d1)))
          (pathJoin pf out (generatedName rid 2 sub2)) (Bytes (decodeBase64 d2)))"
proof -
  let ?n1 = "pathJoin pf out (generatedName rid (Suc 0) sub1)"
  let ?s1 = "afterSave pf s ?n1 (Bytes (decodeBase64 d1))"
  let ?n2 = "pathJoin pf out (generatedName rid (Suc (Suc 0)) sub2)"
  let ?s2 = "afterSave pf ?s1 ?n2 (Bytes (decodeBase64 d2))"
  from assms(6) have d1: "\<forall>p. \<not> denied ?s1 p" by (simp add: afterSave_simps)
  have "extractParts pf rid out 0 [] (xs @ a # ys @ b # zs) s
      = extractParts pf rid out 0 [] (a # ys @ b # zs) s"
    using assms(1) by (rule extractParts_text)
  also have "\<dots> = extractParts pf rid out (Suc 0) [?n1] (ys @ b # zs) ?s1"
    using extractParts_image [OF assms(4,6), of pf rid out 0 "[]"] by simp
  also have "\<dots> = extractParts pf rid out (Suc 0) [?n1] (b # zs) ?s1"
    using assms(2) by (rule extractParts_text)
  also have "\<dots> = extractParts pf rid out (Suc (Suc 0)) [?n1, ?n2] zs ?s2"
    using extractParts_image [OF assms(5) d1, of pf rid out "Suc 0" "[?n1]"] by simp
  also have "\<dots> = extractParts pf rid out (Suc (Suc 0)) [?n1, ?n2] [] ?s2"
    using extractParts_text [OF assms(3), of pf rid out "Suc (Suc 0)" "[?n1, ?n2]" "[]" ?s2] by simp
  finally show ?thesis by (simp add: numeral_2_eq_2)
qed


lemma processGeminiResponse_blocked:
  assumes "getProp result ''candidates'' = Inr (Some (JArr (c0 # cs)))"
    and "getProp c0 ''finishReason'' = Inr (Some (JStr ''IMAGE_SAFETY''))"
    and "maskBase64Content (Some result) = Inr (Some masked)" and "\<forall>p. \<not> denied s p"
  shows "processGeminiResponse pf result rid outDir jdir s =
           (Inr (safetyResult (pathJoin pf jdir (rid @ ''_response.json''))),
            afterSave pf s (pathJoin pf jdir (rid @ ''_response.json'')) (JsonChars masked 2))"
proof -
  let ?rf = "pathJoin pf jdir (rid @ ''_response.json'')"
  from assms(4) have "\<not> denied s ?rf" "\<not> denied s (pathDirname pf ?rf)" by simp_all
  with assms(3) have sv: "maskAndSaveJson pf result ?rf s
      = (Inr ?rf, afterSave pf s ?rf (JsonChars masked 2))"
    by (rule maskAndSaveJson_returns)
  from assms(2) have "c0 \<noteq> JNull" by auto
  with assms(1,2) have "safetyBlocked result = Inr True" by (simp add: safetyBlocked_first)
  with sv show ?thesis
    by (simp add: processGeminiResponse_def Let_def io_bind_def io_lift_def io_return_def)
qed

lemma posixJoin_plain:
  assumes "CHR ''/'' \<notin> set d" and "CHR ''/'' \<notin> set f"
    and "d \<noteq> []" "d \<noteq> ''.''" "d \<noteq> ''..''" and "f \<noteq> []" "f \<noteq> ''.''" "f \<noteq> ''..''"
  shows "posixJoin d f = d @ ''/'' @ f" and "posixJoin (''./'' @ d) f = d @ ''/'' @ f"
proof -
  have two: "splitOn CHR ''/'' [] (d @ CHR ''/'' # f) = [d, f]"
    using assms(1,2) by (rule splitOn_two)
  have hd: "hd (d @ CHR ''/'' # f) \<noteq> CHR ''/''"
    using assms(1,3) by (cases d) auto
  have lst: "last (d @ CHR ''/'' # f) \<noteq> CHR ''/''"
    using assms(2,6) by (cases f rule: rev_cases) auto
  from two hd lst assms show "posixJoin d f = d @ ''/'' @ f"
    by (simp add: posixJoin_def normalizePath_def Let_def)
  have three: "splitOn CHR ''/'' [] (''./'' @ d @ CHR ''/'' # f) = [''.'', d, f]"
    using two by simp
  have lst': "last (''./'' @ d @ CHR ''/'' # f) \<noteq> CHR ''/''"
    using lst by simp
  from three lst' assms show "posixJoin (''./'' @ d) f = d @ ''/'' @ f"
    by (simp add: posixJoin_def normalizePath_def Let_def)
qed

lemma posixPlatform_simps:
  "pathJoin posixPlatform = posixJoin" "pathDirname posixPlatform = posixDirname"
  by (simp_all add: posixPlatform_def)

lemma gemini_joins:
  "posixJoin ''output'' ''req_response.json'' = ''output/req_response.json''"
  "posixJoin ''images'' ''req_generated_1.png'' = ''images/req_generated_1.png''"
  "posixJoin ''images'' ''req_generated_2.jpeg'' = ''images/req_generated_2.jpeg''"
  using posixJoin_plain(1) [of "''output''" "''req_response.json''"]
    posixJoin_plain(1) [of "''images''" "''req_generated_1.png''"]
    posixJoin_plain(1) [of "''images''" "''req_generated_2.jpeg''"]
  by simp_all

section \<open>Properties of the generators\<close>

lemma ensureDir_ok: "\<not> denied s d \<Longrightarrow> ensureDir d s = (Inr (), withDir d s)"
  by (simp add: ensureDir_def mkdirSync_def withDir_def)

lemma withDir_simps:
  "denied (withDir d s) = denied s" "files (withDir d s) = files s"
  "readFile (withDir d s) = readFile s"
  by (simp_all add: withDir_def readFile_def fun_eq_iff)

lemma fetchWithProxy_fails:
  assumes "firstFetch w = Inl e" and "e \<noteq> OutsideModel" and "retryFetch w = Inl e2"
  shows "fetchWithProxy pf w requestId outDir s = (Inl e, s)"
  using assms
  by (simp add: fetchWithProxy_def io_catch_def io_bind_def io_lift_def io_throw_def)

lemma referenceParts_ok:
  "\<forall>p \<in> set refs. \<exists>bs. readFile s p = Some (Bytes bs) \<Longrightarrow> \<exists>parts. referenceParts pf s refs = Inr parts"
  by (induction refs) (auto simp: readImage_def)

lemma maskable_geminiRequest: "maskable (geminiRequest p parts)"
  by (simp add: maskable_def geminiRequest_def)

lemma imagen_catches:
  assumes "firstFetch w = Inl (NetError t)" and "retryFetch w = Inl e2"
    and "\<not> configFails w" and "accessToken w = Inr token"
  shows "generateImagesWithImagen pf w opts s = (Inr (errorResult (NetError t)), s)"
proof -
  have "fetchWithProxy pf w rid out s = (Inl (NetError t), s)" for rid out
    using assms(1) _ assms(2) by (rule fetchWithProxy_fails) simp
  with assms(3,4) show ?thesis
    by (simp add: generateImagesWithImagen_def Let_def io_catch_def io_bind_def io_lift_def
        io_return_def saveConfig_def)
qed

lemma gemini_catches:
  assumes "firstFetch w = Inl (NetError t)" and "retryFetch w = Inl e2"
    and "\<not> configFails w" and "\<forall>p. \<not> denied s p"
    and "\<forall>p \<in> set (withDefault [] (referenceImages opts)). \<exists>bs. readFile s p = Some (Bytes bs)"
  shows "fst (generateImagesWithGemini pf w opts s) = Inr (errorResult (NetError t))"
proof -
  let ?refs = "withDefault [] (referenceImages opts)"
  let ?out = "withDefault ''./images'' (outputDir opts)"
  let ?jd = "withDefault ''./output'' (jsonDir opts)"
  let ?rid = "geminiRequestId pf ?refs (now w)"
  let ?rf = "pathJoin pf ?jd (?rid @ ''_request.json'')"
  let ?s1 = "withDir ?jd (withDir ?out s)"
  have f: "fetchWithProxy pf w rid out s' = (Inl (NetError t), s')" for rid out s'
    using assms(1) _ assms(2) by (rule fetchWithProxy_fails) simp
  from assms(4) have e1: "ensureDir ?out s = (Inr (), withDir ?out s)" by (simp add: ensureDir_ok)
  from assms(4) have e2: "ensureDir ?jd (withDir ?out s) = (Inr (), ?s1)"
    by (simp add: ensureDir_ok withDir_simps)
  from assms(5) obtain parts where p: "referenceParts pf ?s1 ?refs = Inr parts"
    using referenceParts_ok [of ?refs ?s1 pf] by (auto simp: withDir_simps)
  have mk: "maskable (geminiRequest (prompt opts) parts)" by (rule maskable_geminiRequest)
  from assms(4) have "\<not> denied ?s1 ?rf" "\<not> denied ?s1 (pathDirname pf ?rf)"
    by (simp_all add: withDir_simps)
  with mk obtain m where
    sv: "maskAndSaveJson pf (geminiRequest (prompt opts) parts) ?rf ?s1
         = (Inr ?rf, afterSave pf ?s1 ?rf (JsonChars m 2))"
    using maskAndSaveJson_ok by blast
  from assms(3) e1 e2 p sv f show ?thesis
    by (simp add: generateImagesWithGemini_def Let_def io_catch_def io_bind_def io_lift_def
        io_return_def saveConfig_def)
qed


lemma afterDebug_simps:
  "denied (afterDebug pf w rid out s) = denied s"
  "files (afterDebug pf w rid out s) =
     files s @ (if debug w \<and> rid \<noteq> []
                then [(pathJoin pf (debugDir pf out) (rid @ ''_debug.json''), DebugRecord)] else [])"
  by (simp_all add: afterDebug_def withDir_def)

lemma fetchWithProxy_ok:
  assumes "firstFetch w = Inr resp" and "\<forall>p. \<not> denied s p"
  shows "fetchWithProxy pf w rid out s = (Inr resp, afterDebug pf w rid out s)"
  using assms
  by (simp add: fetchWithProxy_def io_catch_def io_bind_def io_lift_def io_return_def
      writeDebug_def ensureDir_def mkdirSync_def writeFileSync_def afterDebug_def withDir_def)




lemma named_property_object:
  assumes "getProp v k = Inr (Some x)" and "\<exists>c \<in> set k. \<not> is_digit c" and "k \<noteq> ''length''"
  shows "truthy v"
  using assms by (cases v) (auto simp: index_of_nondigit)



lemma imagen_reaches_processing:
  assumes "\<not> configFails w" and "accessToken w = Inr token"
    and "firstFetch w = Inr resp" and "ok resp" and "jsonBody resp = Some result"
    and "maskable result" and "\<forall>p. \<not> denied s p"
  shows "\<exists>masked s'. maskBase64Content (Some result) = Inr (Some masked) \<and>
           (\<forall>p. \<not> denied s' p) \<and>
           files s' = files s
             @ (if debug w
                then [(pathJoin pf (debugDir pf (withDefault ''./images'' (outputDir opts)))
                         ((''imagen_'' @ show_nat (now w)) @ ''_debug.json''), DebugRecord)]
                else [])
             @ [(pathJoin pf (withDefault ''./output'' (jsonDir opts))
                   ((''imagen_'' @ show_nat (now w)) @ ''_request.json''),
                 JsonChars (imagenRequest opts) 2),
                (pathJoin pf (withDefault ''./output'' (jsonDir opts))
                   ((''imagen_'' @ show_nat (now w)) @ ''_response.json''),
                 JsonChars masked 2)] \<and>
           generateImagesWithImagen pf w opts s =
             io_catch
               (processPredictions pf result (''imagen_'' @ show_nat (now w))
                  (withDefault ''./images'' (outputDir opts))
                  (pathJoin pf (withDefault ''./output'' (jsonDir opts))
                     ((''imagen_'' @ show_nat (now w)) @ ''_request.json''))
                  (pathJoin pf (withDefault ''./output'' (jsonDir opts))
                     ((''imagen_'' @ show_nat (now w)) @ ''_response.json'')))
               (\<lambda>error. io_return (errorResult error)) s'"
proof -
  let ?out = "withDefault ''./images'' (outputDir opts)"
  let ?jd = "withDefault ''./output'' (jsonDir opts)"
  let ?rid = "''imagen_'' @ show_nat (now w)"
  let ?reqf = "pathJoin pf ?jd (?rid @ ''_request.json'')"
  let ?respf = "pathJoin pf ?jd (?rid @ ''_response.json'')"
  let ?s1 = "afterDebug pf w ?rid ?out s"
  let ?s3 = "withDir ?jd (withDir ?out ?s1)"
  let ?s4 = "afterSave pf ?s3 ?reqf (JsonChars (imagenRequest opts) 2)"
  have f: "fetchWithProxy pf w ?rid ?out s = (Inr resp, ?s1)"
    using assms(3,7) by (rule fetchWithProxy_ok)
  from assms(7) have d1: "\<forall>p. \<not> denied ?s1 p" by (simp add: afterDebug_simps)
  then have e1: "ensureDir ?out ?s1 = (Inr (), withDir ?out ?s1)" by (simp add: ensureDir_ok)
  from d1 have e2: "ensureDir ?jd (withDir ?out ?s1) = (Inr (), ?s3)"
    by (simp add: ensureDir_ok withDir_simps)
  from d1 have d3: "\<forall>p. \<not> denied ?s3 p" by (simp add: withDir_simps)
  have "fileData (Stringified (imagenRequest opts) 2) False = Inr (JsonChars (imagenRequest opts) 2)"
    by (simp add: fileData_def)
  with d3 have sr: "saveFile pf ?reqf (Stringified (imagenRequest opts) 2) False ?s3 = (Inr ?reqf, ?s4)"
    by (intro saveFile_ok) auto
  from d3 have d4: "\<forall>p. \<not> denied ?s4 p" by (simp add: afterSave_simps)
  then have "\<not> denied ?s4 ?respf" "\<not> denied ?s4 (pathDirname pf ?respf)" by simp_all
  with assms(6) obtain masked where m: "maskBase64Content (Some result) = Inr (Some masked)"
    and sm: "maskAndSaveJson pf result ?respf ?s4
        = (Inr ?respf, afterSave pf ?s4 ?respf (JsonChars masked 2))"
    using maskAndSaveJson_ok by blast
  let ?s5 = "afterSave pf ?s4 ?respf (JsonChars masked 2)"
  from d4 have d5: "\<forall>p. \<not> denied ?s5 p" by (simp add: afterSave_simps)
  have fl: "files ?s5 = files s
             @ (if debug w
                then [(pathJoin pf (debugDir pf ?out) (?rid @ ''_debug.json''), DebugRecord)]
                else [])
             @ [(?reqf, JsonChars (imagenRequest opts) 2), (?respf, JsonChars masked 2)]"
    by (simp add: afterSave_simps withDir_simps afterDebug_simps)
  have "generateImagesWithImagen pf w opts s =
      io_catch (processPredictions pf result ?rid ?out ?reqf ?respf)
        (\<lambda>error. io_return (errorResult error)) ?s5"
    using assms(1,2,4,5) f e1 e2 sr sm
    by (simp add: generateImagesWithImagen_def Let_def io_catch_def io_bind_def io_lift_def
        io_return_def saveConfig_def)
  with m d5 fl show ?thesis by blast
qed


lemma answeringWorld_simps:
  "\<not> configFails (answeringWorld body)" "accessToken (answeringWorld body) = Inr ''token''"
  "firstFetch (answeringWorld body) = Inr \<lparr>ok = True, status = 200, jsonBody = Some body\<rparr>"
  "now (answeringWorld body) = 0" "\<not> debug (answeringWorld body)"
  by (simp_all add: answeringWorld_def)

lemma emptyFs_accepts: "\<forall>p. \<not> denied emptyFs p"
  by (simp add: emptyFs_def)

lemma promptOnly_dirs:
  "withDefault ''./images'' (outputDir promptOnly) = ''./images''"
  "withDefault ''./output'' (jsonDir promptOnly) = ''./output''"
  by (simp_all add: promptOnly_def)

lemma default_joins:
  "posixJoin ''./output'' ''imagen_0_request.json'' = ''output/imagen_0_request.json''"
  "posixJoin ''./output'' ''imagen_0_response.json'' = ''output/imagen_0_response.json''"
  using posixJoin_plain(2) [of "''output''" "''imagen_0_request.json''"]
    posixJoin_plain(2) [of "''output''" "''imagen_0_response.json''"]
  by simp_all







lemma imageOk_cases:
  assumes "imageOk img"
  obtains (skip) "\<not> hasBytes img"
      and "\<exists>b. getProp img ''bytesBase64Encoded'' = Inr b \<and> \<not> truthy_val b"
    | (save) d where "hasBytes img" and "getProp img ''bytesBase64Encoded'' = Inr (Some (JStr d))"
      and "d \<noteq> []" and "bytesOf img = d"
proof (cases "getProp img ''bytesBase64Encoded''")
  case (Inl e)
  with assms show ?thesis by (simp add: imageOk_def)
next
  case (Inr b)
  show ?thesis
  proof (cases "truthy_val b")
    case False
    with Inr show ?thesis by (intro skip) (auto simp: hasBytes_def)
  next
    case True
    with Inr assms obtain d where "b = Some (JStr d)"
      by (cases b; cases "the b") (auto simp: imageOk_def)
    with Inr True show ?thesis by (intro save [of d]) (auto simp: hasBytes_def bytesOf_def)
  qed
qed

lemma saveImages_savedFrom:
  assumes "list_all imageOk imgs" and "\<forall>p. \<not> denied s p"
  shows "\<exists>s'. saveImages pf rid out i index (saved, gen) imgs s =
           (Inr (saved @ map (\<lambda>(k, img). pathJoin pf out (imageName rid i k)) (savedFrom index imgs),
                 gen + length (savedFrom index imgs)), s') \<and>
         files s' = files s @ map (\<lambda>(k, img). (pathJoin pf out (imageName rid i k),
                                               Bytes (decodeBase64 (bytesOf img))))
                                  (savedFrom index imgs) \<and>
         (\<forall>p. \<not> denied s' p)"
  using assms
proof (induction imgs arbitrary: index saved gen s)
  case Nil
  then show ?case by simp
next
  case (Cons img imgs)
  from Cons.prems have ok: "imageOk img" and rest: "list_all imageOk imgs" by simp_all
  from ok show ?case
  proof (cases rule: imageOk_cases)
    case skip
    then obtain b where b: "getProp img ''bytesBase64Encoded'' = Inr b" "\<not> truthy_val b" by blast
    from Cons.IH [OF rest Cons.prems(2), of "Suc index" saved gen] skip(1) b
    show ?thesis by simp
  next
    case (save d)
    let ?n = "pathJoin pf out (imageName rid i index)"
    let ?s1 = "afterSave pf s ?n (Bytes (decodeBase64 d))"
    have "fileData (Value (JStr d)) True = Inr (Bytes (decodeBase64 d))" by (simp add: fileData_def)
    with Cons.prems(2) have sv: "saveFile pf ?n (Value (JStr d)) True s = (Inr ?n, ?s1)"
      by (intro saveFile_ok) auto
    from Cons.prems(2) have d1: "\<forall>p. \<not> denied ?s1 p" by (simp add: afterSave_simps)
    from Cons.IH [OF rest d1, of "Suc index" "saved @ [?n]" "Suc gen"] save sv
    show ?thesis by (auto simp: afterSave_simps)
  qed
qed

lemma upt_0_Suc: "[0..<Suc n] = 0 # map Suc [0..<n]"
  by (simp add: upt_conv_Cons map_Suc_upt del: upt_Suc)

lemma savedFrom_filter:
  "savedFrom index imgs =
     map (\<lambda>k. (index + k, imgs ! k)) (filter (\<lambda>k. hasBytes (imgs ! k)) [0..<length imgs])"
proof (induction imgs arbitrary: index)
  case Nil
  then show ?case by simp
next
  case (Cons img imgs)
  have "filter (\<lambda>k. hasBytes ((img # imgs) ! k)) [0..<length (img # imgs)]
      = (if hasBytes img then [0] else [])
        @ map Suc (filter (\<lambda>k. hasBytes (imgs ! k)) [0..<length imgs])"
    by (simp add: upt_0_Suc filter_map comp_def del: upt_Suc)
  with Cons.IH [of "Suc index"] show ?case by (simp add: comp_def)
qed

lemma bitLength_le: "n < 2 ^ k \<Longrightarrow> bitLength n \<le> k"
proof (induction k arbitrary: n)
  case 0
  then show ?case by (simp add: bitLength.simps)
next
  case (Suc k)
  then have "n div 2 < 2 ^ k" by auto
  from Suc.IH [OF this] show ?case by (subst bitLength.simps) simp
qed

lemma roundDouble_exact: "n < 2 ^ 53 \<Longrightarrow> roundDouble n = Amount n"
proof -
  assume a: "n < 2 ^ 53"
  then have "bitLength n - 53 = 0" using bitLength_le [of n 53] by simp
  moreover from a have "n < 2 ^ 1024"
    by (rule less_trans) simp
  ultimately show ?thesis by (simp add: roundDouble_def Let_def)
qed

lemma concat_map_filter: "concat (map (\<lambda>x. if P x then [f x] else []) xs) = map f (filter P xs)"
  by (induction xs) auto


lemma savedPositions_Nil: "savedPositions [] = []"
  by (simp add: savedPositions_def)

lemma savedPositions_Cons:
  "savedPositions (p # ps) =
     (if standardFormat p
      then map (\<lambda>k. (0, k)) (filter (\<lambda>k. hasBytes (imagesOf p ! k)) [0..<length (imagesOf p)])
      else [])
     @ map (\<lambda>(i, k). (Suc i, k)) (savedPositions ps)"
proof -
  have "savedPositions (p # ps) =
      concat (map (\<lambda>i. if standardFormat ((p # ps) ! i)
                        then concat (map (\<lambda>k. if hasBytes (imagesOf ((p # ps) ! i) ! k) then [(i, k)] else [])
                                       [0..<length (imagesOf ((p # ps) ! i))])
                        else [])
                  (0 # map Suc [0..<length ps]))"
    unfolding savedPositions_def by (simp add: upt_0_Suc del: upt_Suc)
  also have "\<dots> = (if standardFormat p
      then concat (map (\<lambda>k. if hasBytes (imagesOf p ! k) then [(0, k)] else []) [0..<length (imagesOf p)])
      else [])
     @ concat (map (\<lambda>i. if standardFormat (ps ! i)
                        then concat (map (\<lambda>k. if hasBytes (imagesOf (ps ! i) ! k) then [(Suc i, k)] else [])
                                       [0..<length (imagesOf (ps ! i))])
                        else [])
                  [0..<length ps])"
    by (simp add: comp_def cong: if_cong)
  also have "concat (map (\<lambda>i. if standardFormat (ps ! i)
                        then concat (map (\<lambda>k. if hasBytes (imagesOf (ps ! i) ! k) then [(Suc i, k)] else [])
                                       [0..<length (imagesOf (ps ! i))])
                        else [])
                  [0..<length ps])
      = map (\<lambda>(i, k). (Suc i, k)) (savedPositions ps)"
    unfolding savedPositions_def
    by (simp add: map_concat comp_def if_distrib [of "map f" for f] if_distrib [of concat]
        cong: if_cong)
  finally show ?thesis
    by (simp add: concat_map_filter)
qed


lemma filterMessage_D:
  assumes "filterMessage p"
  obtains r where "getProp p ''raiFilteredReason'' = Inr (Some (JStr r))" and "r \<noteq> []"
    and "\<not> includesStr r allFiltered"
  using assms unfolding filterMessage_def
  by (auto split: sum.splits option.splits json.splits)

lemma standardFormat_D:
  assumes "standardFormat p"
  obtains r where "getProp p ''raiFilteredReason'' = Inr r" and "\<not> truthy_val r"
    and "getProp p ''images'' = Inr (Some (JArr (imagesOf p)))" and "imagesOf p \<noteq> []"
    and "list_all imageOk (imagesOf p)"
  using assms unfolding standardFormat_def
  by (auto split: sum.splits)

lemma filterMessage_not_standard: "filterMessage p \<Longrightarrow> \<not> standardFormat p"
  by (auto elim!: filterMessage_D standardFormat_D)

lemma raiScan_messages:
  assumes "list_all (\<lambda>p. filterMessage p \<or> standardFormat p) preds"
  shows "\<exists>bc. raiScan preds a = Inr (Inr bc)"
  using assms
proof (induction preds arbitrary: a)
  case Nil
  then show ?case by simp
next
  case (Cons p ps)
  then have rest: "list_all (\<lambda>p. filterMessage p \<or> standardFormat p) ps"
    and kind: "filterMessage p \<or> standardFormat p" by simp_all
  from kind show ?case
  proof
    assume "filterMessage p"
    then obtain r where r: "getProp p ''raiFilteredReason'' = Inr (Some (JStr r))" "r \<noteq> []"
      "\<not> includesStr r allFiltered" by (rule filterMessage_D)
    show ?thesis
    proof (cases "matchFiltered r")
      case None
      with r Cons.IH [OF rest, of a] show ?thesis by simp
    next
      case (Some ds)
      with r Cons.IH [OF rest, of "addAmount a (parseInt ds)"] show ?thesis by simp
    qed
  next
    assume "standardFormat p"
    then obtain r where "getProp p ''raiFilteredReason'' = Inr r" "\<not> truthy_val r"
      by (rule standardFormat_D)
    with Cons.IH [OF rest, of a] show ?thesis by simp
  qed
qed

lemma extractPredictions_positions:
  assumes "list_all (\<lambda>p. filterMessage p \<or> standardFormat p) preds" and "\<forall>p. \<not> denied s p"
  shows "\<exists>s'. extractPredictions pf rid out off (saved, gen) preds s =
           (Inr (saved @ map (\<lambda>(i, k). pathJoin pf out (imageName rid (off + i) k))
                            (savedPositions preds),
                 gen + length (savedPositions preds)), s') \<and>
         files s' = files s @ map (\<lambda>(i, k). (pathJoin pf out (imageName rid (off + i) k),
                                     Bytes (decodeBase64 (bytesOf (imagesOf (preds ! i) ! k)))))
                                  (savedPositions preds) \<and>
         (\<forall>p. \<not> denied s' p)"
  using assms
proof (induction preds arbitrary: off saved gen s)
  case Nil
  then show ?case by (simp add: savedPositions_Nil)
next
  case (Cons p ps)
  then have rest: "list_all (\<lambda>p. filterMessage p \<or> standardFormat p) ps"
    and kind: "filterMessage p \<or> standardFormat p" by simp_all
  from kind show ?case
  proof
    assume fm: "filterMessage p"
    then obtain r where r: "getProp p ''raiFilteredReason'' = Inr (Some (JStr r))" "r \<noteq> []"
      by (rule filterMessage_D)
    from fm have ns: "\<not> standardFormat p" by (rule filterMessage_not_standard)
    from Cons.IH [OF rest Cons.prems(2), where ?off = "Suc off" and ?saved = saved and ?gen = gen] r ns
    show ?thesis
      by (simp add: savedPositions_Cons comp_def case_prod_unfold)
  next
    assume sf: "standardFormat p"
    then obtain r where r: "getProp p ''raiFilteredReason'' = Inr r" "\<not> truthy_val r"
      and im: "getProp p ''images'' = Inr (Some (JArr (imagesOf p)))" "imagesOf p \<noteq> []"
      and ok: "list_all imageOk (imagesOf p)"
      by (rule standardFormat_D)
    let ?imgs = "imagesOf p"
    let ?pos = "filter (\<lambda>k. hasBytes (?imgs ! k)) [0..<length ?imgs]"
    from saveImages_savedFrom [OF ok Cons.prems(2), of pf rid out off 0 saved gen]
    obtain s1 where s1: "saveImages pf rid out off 0 (saved, gen) ?imgs s =
           (Inr (saved @ map (\<lambda>k. pathJoin pf out (imageName rid off k)) ?pos,
                 gen + length ?pos), s1)"
      and f1: "files s1 = files s @ map (\<lambda>k. (pathJoin pf out (imageName rid off k),
                                               Bytes (decodeBase64 (bytesOf (?imgs ! k))))) ?pos"
      and d1: "\<forall>p. \<not> denied s1 p"
      by (auto simp: savedFrom_filter [of 0] comp_def)
    from Cons.IH [OF rest d1, where ?off = "Suc off"
        and ?saved = "saved @ map (\<lambda>k. pathJoin pf out (imageName rid off k)) ?pos"
        and ?gen = "gen + length ?pos"]
    obtain s2 where s2: "extractPredictions pf rid out (Suc off)
          (saved @ map (\<lambda>k. pathJoin pf out (imageName rid off k)) ?pos, gen + length ?pos) ps s1 =
           (Inr ((saved @ map (\<lambda>k. pathJoin pf out (imageName rid off k)) ?pos)
                   @ map (\<lambda>(i, k). pathJoin pf out (imageName rid (Suc off + i) k))
                       (savedPositions ps),
                 (gen + length ?pos) + length (savedPositions ps)), s2)"
      and f2: "files s2 = files s1 @ map (\<lambda>(i, k). (pathJoin pf out (imageName rid (Suc off + i) k),
                                     Bytes (decodeBase64 (bytesOf (imagesOf (ps ! i) ! k)))))
                                  (savedPositions ps)"
      and d2: "\<forall>p. \<not> denied s2 p"
      by blast
    have ne: "nonEmpty (Some (JArr ?imgs)) = Inr True"
      using im(2) by (simp add: nonEmpty_def)
    have run: "extractPredictions pf rid out off (saved, gen) (p # ps) s =
        (Inr ((saved @ map (\<lambda>k. pathJoin pf out (imageName rid off k)) ?pos)
                   @ map (\<lambda>(i, k). pathJoin pf out (imageName rid (Suc off + i) k))
                       (savedPositions ps),
                 (gen + length ?pos) + length (savedPositions ps)), s2)"
      using r im(1) ne s1 s2 by simp
    from run f1 f2 d2 sf show ?thesis
      by (simp add: savedPositions_Cons comp_def case_prod_unfold)
  qed
qed

lemma processPredictions_positions:
  assumes "getProp result ''predictions'' = Inr (Some (JArr preds))" and "preds \<noteq> []"
    and "list_all (\<lambda>p. filterMessage p \<or> standardFormat p) preds"
    and "\<forall>p. \<not> denied s p"
  shows "\<exists>blocked s'.
           raiScan preds (Amount 0) = Inr (Inr blocked) \<and>
           processPredictions pf result rid out reqf respf s =
             (Inr (if savedPositions preds = [] then nothingSavedResult blocked
                   else savedResult out
                          (map (\<lambda>(i, k). pathJoin pf out (imageName rid i k)) (savedPositions preds))
                          (length (savedPositions preds)) blocked), s') \<and>
           files s' = files s @ map (\<lambda>(i, k). (pathJoin pf out (imageName rid i k),
                                     Bytes (decodeBase64 (bytesOf (imagesOf (preds ! i) ! k)))))
                                  (savedPositions preds)"
proof -
  have t: "truthy result"
    using assms(1) by (rule named_property_object) (simp_all add: is_digit_def)
  from assms(3) obtain blocked where sc: "raiScan preds (Amount 0) = Inr (Inr blocked)"
    using raiScan_messages by blast
  from extractPredictions_positions [OF assms(3,4), of pf rid out 0 "[]" 0]
  obtain s' where ex: "extractPredictions pf rid out 0 ([], 0) preds s =
           (Inr (map (\<lambda>(i, k). pathJoin pf out (imageName rid i k)) (savedPositions preds),
                 length (savedPositions preds)), s')"
    and fl: "files s' = files s @ map (\<lambda>(i, k). (pathJoin pf out (imageName rid i k),
                                     Bytes (decodeBase64 (bytesOf (imagesOf (preds ! i) ! k)))))
                                  (savedPositions preds)"
    by auto
  from t assms(1,2) sc ex have "processPredictions pf result rid out reqf respf s =
             (Inr (if savedPositions preds = [] then nothingSavedResult blocked
                   else savedResult out
                          (map (\<lambda>(i, k). pathJoin pf out (imageName rid i k)) (savedPositions preds))
                          (length (savedPositions preds)) blocked), s')"
    by (simp add: processPredictions_def io_bind_def io_lift_def io_return_def nonEmpty_def)
  with sc fl show ?thesis by blast
qed

lemma gap_kinds: "list_all (\<lambda>p. filterMessage p \<or> standardFormat p) gapPredictions"
  by (simp add: gapPredictions_def gapImages_def filterMessage_def standardFormat_def
      imagesOf_def imageOk_def allFiltered_def)

lemma gap_positions: "savedPositions gapPredictions = [(0, 0), (0, 2), (2, 0)]"
  by (simp add: savedPositions_def gapPredictions_def gapImages_def filterMessage_def
      standardFormat_def imagesOf_def imageOk_def hasBytes_def upt_rec)

lemma gap_scan: "raiScan gapPredictions (Amount 0) = Inr (Inr (Amount 1))"
proof -
  have "matchFiltered ''Your current safety filter threshold filtered out 1 generated images.''
      = Some ''1''"
    by (simp add: filteredAt_def is_digit_def)
  moreover have "parseInt ''1'' = Amount 1"
    using roundDouble_exact [of 1] by (simp add: parseInt_def read_nat_def digit_val_def)
  moreover have "roundDouble 1 = Amount 1"
    using roundDouble_exact [of 1] by simp
  ultimately show ?thesis
    by (simp add: gapPredictions_def allFiltered_def del: matchFiltered.simps)
qed

lemma gap_masked: "maskBase64Content (Some gapResponse) = Inr (Some gapResponse)"
  by (simp add: maskBase64Content_def deepCopy_def base64Paths_def findImagenBase64Paths_def
      gapResponse_def gapPredictions_def eval_path upt_rec)

lemma gap_joins:
  "posixJoin ''./images'' ''imagen_0_0_0.png'' = ''images/imagen_0_0_0.png''"
  "posixJoin ''./images'' ''imagen_0_0_2.png'' = ''images/imagen_0_0_2.png''"
  "posixJoin ''./images'' ''imagen_0_2_0.png'' = ''images/imagen_0_2_0.png''"
  using posixJoin_plain(2) [of "''images''" "''imagen_0_0_0.png''"]
    posixJoin_plain(2) [of "''images''" "''imagen_0_0_2.png''"]
    posixJoin_plain(2) [of "''images''" "''imagen_0_2_0.png''"]
  by simp_all

lemma maskBase64Content_collects:
  assumes "maskBase64Content (Some obj) = Inr (Some r)"
    and "getProp obj ''candidates'' = Inr (Some (JArr cands))"
  shows "\<exists>ps. base64Paths obj = Inr ps"
proof -
  have nd: "\<exists>c \<in> set ''candidates''. \<not> is_digit c" by (simp add: is_digit_def)
  from assms(2) obtain kvs where "obj = JObj kvs"
    by (cases obj) (auto simp: index_of_nondigit [OF nd])
  with assms(1) show ?thesis
    by (auto simp: maskBase64Content_def deepCopy_def split: sum.splits)
qed

subsection \<open>The masked copy\<close>

text \<open>
  Claim C1 says that the copy holds no unmasked string of more than 100 characters at any
  \<^verbatim>\<open>predictions[i].bytesBase64Encoded\<close> or \<^verbatim>\<open>candidates[i].content.parts[j].inlineData.data\<close>,
  also when the input carries both arrays. The source chooses one branch with
  \<^verbatim>\<open>if ... else if\<close>: on \<open>both_arrays\<close> only the \<^verbatim>\<open>predictions\<close> paths are collected, the
  copy equals the input, and the 101 characters under \<^verbatim>\<open>candidates\<close> stay as they are.
\<close>

theorem maskBase64Content_both_arrays_counterexample:
  "maskBase64Content (Some both_arrays) = Inr (Some both_arrays) \<and>
   getValueAtPath (Some both_arrays) ''candidates[0].content.parts[0].inlineData.data''
     = Inr (Some (JStr (replicate 101 (CHR ''A'')))) \<and>
   length (replicate 101 (CHR ''A'')) = 101"
  by (simp add: maskBase64Content_def deepCopy_def base64Paths_def findImagenBase64Paths_def
      both_arrays_def getValueAtPath_def pathSegments_def is_digit_def index_of_def
      show_nat.simps digit_char_def)

text \<open>
  Claim C1, amended to the branch the source takes. Whenever \<^verbatim>\<open>maskBase64Content\<close> returns:
  with an array under \<^verbatim>\<open>predictions\<close> the recognised paths are the paths
  \<^verbatim>\<open>predictions[i].bytesBase64Encoded\<close> of its indices and no others; without one and with an
  array under \<^verbatim>\<open>candidates\<close> they are the paths \<^verbatim>\<open>candidates[i].content.parts[j].inlineData.data\<close>
  of the candidates that pass the guard; a string of more than 100 characters found in the copy
  at a recognised path is the placeholder of the long string the input held there; and every
  path apart from all recognised paths reads in the copy what it reads in the input.
\<close>

theorem maskBase64Content_masks_one_branch:
  assumes "maskBase64Content (Some obj) = Inr (Some r)"
  shows "(\<forall>preds. getProp obj ''predictions'' = Inr (Some (JArr preds)) \<longrightarrow>
            recognisedPaths obj = map imagenPath [0..<length preds]) \<and>
         (\<forall>po cands. getProp obj ''predictions'' = Inr po \<and> asArray po = None \<and>
            getProp obj ''candidates'' = Inr (Some (JArr cands)) \<longrightarrow>
            (\<forall>p. p \<in> set (recognisedPaths obj) \<longleftrightarrow>
               (\<exists>i j parts. i < length cands \<and> candidateParts (cands ! i) = Inr (Some parts) \<and>
                  j < length parts \<and> p = geminiPath i j))) \<and>
         (\<forall>p \<in> set (recognisedPaths obj). \<forall>s.
            getValueAtPath (Some r) p = Inr (Some (JStr s)) \<and> 100 < length s \<longrightarrow>
            (\<exists>s0. getValueAtPath (Some obj) p = Inr (Some (JStr s0)) \<and> 100 < length s0 \<and>
               s = maskedValue s0)) \<and>
         (\<forall>p. (\<forall>q \<in> set (recognisedPaths obj). apart p q) \<longrightarrow>
            getValueAtPath (Some r) p = getValueAtPath (Some obj) p)"
proof (intro conjI allI impI ballI)
  fix preds
  assume "getProp obj ''predictions'' = Inr (Some (JArr preds))"
  then show "recognisedPaths obj = map imagenPath [0..<length preds]"
    by (simp add: recognisedPaths_def base64Paths_def findImagenBase64Paths_def)
next
  fix po cands p
  assume a: "getProp obj ''predictions'' = Inr po \<and> asArray po = None \<and>
            getProp obj ''candidates'' = Inr (Some (JArr cands))"
  with assms obtain ps where ps: "base64Paths obj = Inr ps"
    using maskBase64Content_collects by blast
  with a have "geminiPathsFrom 0 cands = Inr ps"
    by (simp add: base64Paths_def findGeminiBase64Paths_def)
  from geminiPathsFrom_mem [OF this, of p] ps
  show "p \<in> set (recognisedPaths obj) \<longleftrightarrow>
               (\<exists>i j parts. i < length cands \<and> candidateParts (cands ! i) = Inr (Some parts) \<and>
                  j < length parts \<and> p = geminiPath i j)"
    by (simp add: recognisedPaths_def)
next
  fix p s
  assume p: "p \<in> set (recognisedPaths obj)"
    and "getValueAtPath (Some r) p = Inr (Some (JStr s)) \<and> 100 < length s"
  then have g: "getValueAtPath (Some r) p = Inr (Some (JStr s))" and len: "100 < length s" by auto
  from assms have "maskPaths obj (recognisedPaths obj) = Inr r"
    by (rule maskBase64Content_recognised)
  from maskPaths_at [OF this recognisedPaths_separated p] g
  obtain v where v: "getValueAtPath (Some obj) p = Inr v" and e: "expected v = Some (JStr s)"
    by auto
  show "\<exists>s0. getValueAtPath (Some obj) p = Inr (Some (JStr s0)) \<and> 100 < length s0 \<and>
               s = maskedValue s0"
  proof (cases "longString v")
    case None
    with e have "v = Some (JStr s)" by simp
    with len None show ?thesis by simp
  next
    case (Some s0)
    with e v show ?thesis by (auto dest: longString_SomeD)
  qed
next
  fix p
  assume "\<forall>q \<in> set (recognisedPaths obj). apart p q"
  with maskBase64Content_recognised [OF assms]
  show "getValueAtPath (Some r) p = getValueAtPath (Some obj) p"
    by (rule maskPaths_frame)
qed

theorem maskBase64Content_masks_one_branch_witness:
  "maskBase64Content (Some one_prediction) = Inr (Some one_prediction_masked) \<and>
   recognisedPaths one_prediction = [imagenPath 0] \<and>
   getValueAtPath (Some one_prediction_masked) (geminiPath 0 0)
     = getValueAtPath (Some one_prediction) (geminiPath 0 0)"
proof -
  have ret: "maskBase64Content (Some one_prediction) = Inr (Some one_prediction_masked)"
    by (simp add: maskBase64Content_def deepCopy_def base64Paths_def findImagenBase64Paths_def
      one_prediction_def one_prediction_masked_def eval_path maskedValue_def approxKB_div)
  have pr: "getProp one_prediction ''predictions''
      = Inr (Some (JArr [JObj [(''bytesBase64Encoded'', JStr (replicate 101 (CHR ''A'')))]]))"
    by (simp add: one_prediction_def)
  from maskBase64Content_masks_one_branch [OF ret] pr
  have paths: "recognisedPaths one_prediction = [imagenPath 0]" by simp
  have "apart (geminiPath 0 0) (imagenPath 0)"
    by (simp add: apart_def pathSegments_imagenPath pathSegments_geminiPath)
  with maskBase64Content_masks_one_branch [OF ret] paths
  have "getValueAtPath (Some one_prediction_masked) (geminiPath 0 0)
     = getValueAtPath (Some one_prediction) (geminiPath 0 0)" by simp
  with ret paths show ?thesis by simp
qed

text \<open>
  Claim C2 says that every string at a recognized binary-payload path is replaced if and only
  if it is longer than 100 characters. The source collects the paths of one branch only: on
  \<open>one_prediction\<close>, which carries both arrays, the string of 101 characters at
  \<^verbatim>\<open>candidates[0].content.parts[0].inlineData.data\<close> is not replaced.
\<close>

theorem maskBase64Content_long_string_kept_counterexample:
  "maskBase64Content (Some one_prediction) = Inr (Some one_prediction_masked) \<and>
   getValueAtPath (Some one_prediction) ''candidates[0].content.parts[0].inlineData.data''
     = Inr (Some (JStr (replicate 101 (CHR ''A'')))) \<and>
   100 < length (replicate 101 (CHR ''A'')) \<and>
   getValueAtPath (Some one_prediction_masked) ''candidates[0].content.parts[0].inlineData.data''
     = Inr (Some (JStr (replicate 101 (CHR ''A''))))"
proof -
  have "maskBase64Content (Some one_prediction) = Inr (Some one_prediction_masked)"
    by (simp add: maskBase64Content_def deepCopy_def base64Paths_def findImagenBase64Paths_def
      one_prediction_def one_prediction_masked_def eval_path maskedValue_def approxKB_div)
  moreover have "pathSegments ''candidates[0].content.parts[0].inlineData.data''
      = [''candidates'', ''0'', ''content'', ''parts'', ''0'', ''inlineData'', ''data'']"
    by (simp add: pathSegments_def is_digit_def)
  ultimately show ?thesis
    by (simp add: one_prediction_def one_prediction_masked_def getValueAtPath_def index_of_def
        show_nat.simps digit_char_def)
qed

text \<open>
  Claim C2, amended to the paths of the branch the source takes and to the calls that return
  (a \<^verbatim>\<open>null\<close> element makes the call throw). The path \<open>p\<close> is
  \<^verbatim>\<open>predictions[i].bytesBase64Encoded\<close> for an index \<open>i\<close> of the array under \<^verbatim>\<open>predictions\<close>, or,
  when \<^verbatim>\<open>predictions\<close> is not an array, \<^verbatim>\<open>candidates[i].content.parts[j].inlineData.data\<close> for a
  candidate \<open>i\<close> that passes the guard of \<^verbatim>\<open>findGeminiBase64Paths\<close> and an index \<open>j\<close> of its
  parts. A string of length \<open>L\<close> that the input holds at \<open>p\<close> is replaced in the copy if and
  only if \<open>100 < L\<close>, and the replacement is \<^verbatim>\<open>[BASE64_DATA_MASKED: ~N KB]\<close> with \<open>N\<close> the floor
  of the exact quotient \<open>L / 4 * 3 / 1024\<close>.
\<close>

theorem maskBase64Content_replaces_iff_long:
  assumes "maskBase64Content (Some obj) = Inr (Some r)"
    and "(\<exists>preds i. getProp obj ''predictions'' = Inr (Some (JArr preds)) \<and> i < length preds \<and>
            p = imagenPath i) \<or>
         (\<exists>po cands i parts j. getProp obj ''predictions'' = Inr po \<and> asArray po = None \<and>
            getProp obj ''candidates'' = Inr (Some (JArr cands)) \<and> i < length cands \<and>
            candidateParts (cands ! i) = Inr (Some parts) \<and> j < length parts \<and>
            p = geminiPath i j)"
    and "getValueAtPath (Some obj) p = Inr (Some (JStr s))"
  shows "(getValueAtPath (Some r) p \<noteq> Inr (Some (JStr s)) \<longleftrightarrow> 100 < length s) \<and>
         (100 < length s \<longrightarrow>
            getValueAtPath (Some r) p =
              Inr (Some (JStr (''[BASE64_DATA_MASKED: ~''
                @ show_nat (nat \<lfloor>rat_of_nat (length s) / 4 * 3 / 1024\<rfloor>) @ '' KB]''))))"
proof -
  from assms(2) have mem: "p \<in> set (recognisedPaths obj)"
  proof
    assume "\<exists>preds i. getProp obj ''predictions'' = Inr (Some (JArr preds)) \<and> i < length preds \<and>
            p = imagenPath i"
    then show ?thesis
      by (auto simp: recognisedPaths_def base64Paths_def findImagenBase64Paths_def)
  next
    assume "\<exists>po cands i parts j. getProp obj ''predictions'' = Inr po \<and> asArray po = None \<and>
            getProp obj ''candidates'' = Inr (Some (JArr cands)) \<and> i < length cands \<and>
            candidateParts (cands ! i) = Inr (Some parts) \<and> j < length parts \<and>
            p = geminiPath i j"
    then obtain po cands i parts j where a: "getProp obj ''predictions'' = Inr po"
      "asArray po = None" "getProp obj ''candidates'' = Inr (Some (JArr cands))"
      and ij: "i < length cands" "candidateParts (cands ! i) = Inr (Some parts)"
      "j < length parts" "p = geminiPath i j"
      by blast
    from assms(1) a(3) obtain ps where ps: "base64Paths obj = Inr ps"
      using maskBase64Content_collects by blast
    with a have "geminiPathsFrom 0 cands = Inr ps"
      by (simp add: base64Paths_def findGeminiBase64Paths_def)
    from geminiPathsFrom_mem [OF this, of p] ij have "p \<in> set ps" by auto
    with ps show ?thesis by (simp add: recognisedPaths_def)
  qed
  from assms(1) have "maskPaths obj (recognisedPaths obj) = Inr r"
    by (rule maskBase64Content_recognised)
  from maskPaths_at [OF this recognisedPaths_separated mem] assms(3)
  have r: "getValueAtPath (Some r) p = Inr (expected (Some (JStr s)))" by auto
  show ?thesis
  proof (cases "100 < length s")
    case True
    with r have "getValueAtPath (Some r) p = Inr (Some (JStr (maskedValue s)))" by simp
    with True maskedValue_neq [OF True] show ?thesis
      by (simp add: maskedValue_def approxKB_def)
  next
    case False
    with r show ?thesis by simp
  qed
qed

theorem maskBase64Content_replaces_iff_long_witness:
  "maskBase64Content (Some two_parts) = Inr (Some two_parts_masked) \<and>
   getValueAtPath (Some two_parts) (geminiPath 0 0) = Inr (Some (JStr (replicate 101 (CHR ''A'')))) \<and>
   getValueAtPath (Some two_parts_masked) (geminiPath 0 0) =
     Inr (Some (JStr ''[BASE64_DATA_MASKED: ~0 KB]'')) \<and>
   getValueAtPath (Some two_parts) (geminiPath 0 1) = Inr (Some (JStr (replicate 100 (CHR ''A'')))) \<and>
   getValueAtPath (Some two_parts_masked) (geminiPath 0 1) =
     Inr (Some (JStr (replicate 100 (CHR ''A'')))) \<and>
   maskBase64Content (Some one_prediction) = Inr (Some one_prediction_masked) \<and>
   getValueAtPath (Some one_prediction) (imagenPath 0) = Inr (Some (JStr (replicate 101 (CHR ''A'')))) \<and>
   getValueAtPath (Some one_prediction_masked) (imagenPath 0) =
     Inr (Some (JStr ''[BASE64_DATA_MASKED: ~0 KB]''))"
proof -
  let ?long = "JObj [(''inlineData'', JObj [(''data'', JStr (replicate 101 (CHR ''A'')))])]"
  let ?short = "JObj [(''inlineData'', JObj [(''data'', JStr (replicate 100 (CHR ''A'')))])]"
  let ?cand = "JObj [(''content'', JObj [(''parts'', JArr [?long, ?short])])]"
  let ?pred = "JObj [(''bytesBase64Encoded'', JStr (replicate 101 (CHR ''A'')))]"
  have kb: "show_nat (nat \<lfloor>rat_of_nat (length (replicate 101 (CHR ''A''))) / 4 * 3 / 1024\<rfloor>) = ''0''"
    using approxKB_div [of 101] by (simp add: approxKB_def show_nat.simps digit_char_def)
  have ret: "maskBase64Content (Some two_parts) = Inr (Some two_parts_masked)"
    by (simp add: maskBase64Content_def deepCopy_def base64Paths_def findGeminiBase64Paths_def
      candidateParts_def two_parts_def two_parts_masked_def eval_path maskedValue_def approxKB_div
      upt_rec)
  have np: "getProp two_parts ''predictions'' = Inr None" "asArray None = None"
    by (simp_all add: two_parts_def)
  have ca: "getProp two_parts ''candidates'' = Inr (Some (JArr [?cand]))"
    by (simp add: two_parts_def)
  have cp: "candidateParts ([?cand] ! 0) = Inr (Some [?long, ?short])"
    by (simp add: candidateParts_def)
  have p0: "(\<exists>preds i. getProp two_parts ''predictions'' = Inr (Some (JArr preds)) \<and>
              i < length preds \<and> geminiPath 0 0 = imagenPath i) \<or>
         (\<exists>po cands i parts j. getProp two_parts ''predictions'' = Inr po \<and> asArray po = None \<and>
            getProp two_parts ''candidates'' = Inr (Some (JArr cands)) \<and> i < length cands \<and>
            candidateParts (cands ! i) = Inr (Some parts) \<and> j < length parts \<and>
            geminiPath 0 0 = geminiPath i j)"
    using np ca cp by (intro disjI2 exI [of _ None] exI [of _ "[?cand]"] exI [of _ 0]
        exI [of _ "[?long, ?short]"]) simp
  have p1: "(\<exists>preds i. getProp two_parts ''predictions'' = Inr (Some (JArr preds)) \<and>
              i < length preds \<and> geminiPath 0 1 = imagenPath i) \<or>
         (\<exists>po cands i parts j. getProp two_parts ''predictions'' = Inr po \<and> asArray po = None \<and>
            getProp two_parts ''candidates'' = Inr (Some (JArr cands)) \<and> i < length cands \<and>
            candidateParts (cands ! i) = Inr (Some parts) \<and> j < length parts \<and>
            geminiPath 0 1 = geminiPath i j)"
    using np ca cp by (intro disjI2 exI [of _ None] exI [of _ "[?cand]"] exI [of _ 0]
        exI [of _ "[?long, ?short]"] exI [of _ 1]) simp
  have h0: "getValueAtPath (Some two_parts) (geminiPath 0 0)
      = Inr (Some (JStr (replicate 101 (CHR ''A''))))"
    by (simp add: two_parts_def eval_path)
  have h1: "getValueAtPath (Some two_parts) (geminiPath 0 1)
      = Inr (Some (JStr (replicate 100 (CHR ''A''))))"
    by (simp add: two_parts_def eval_path)
  have ret': "maskBase64Content (Some one_prediction) = Inr (Some one_prediction_masked)"
    by (simp add: maskBase64Content_def deepCopy_def base64Paths_def findImagenBase64Paths_def
      one_prediction_def one_prediction_masked_def eval_path maskedValue_def approxKB_div)
  have q0: "(\<exists>preds i. getProp one_prediction ''predictions'' = Inr (Some (JArr preds)) \<and>
              i < length preds \<and> imagenPath 0 = imagenPath i) \<or>
         (\<exists>po cands i parts j. getProp one_prediction ''predictions'' = Inr po \<and> asArray po = None \<and>
            getProp one_prediction ''candidates'' = Inr (Some (JArr cands)) \<and> i < length cands \<and>
            candidateParts (cands ! i) = Inr (Some parts) \<and> j < length parts \<and>
            imagenPath 0 = geminiPath i j)"
    by (intro disjI1 exI [of _ "[?pred]"] exI [of _ 0]) (simp add: one_prediction_def)
  have g0: "getValueAtPath (Some one_prediction) (imagenPath 0)
      = Inr (Some (JStr (replicate 101 (CHR ''A''))))"
    by (simp add: one_prediction_def eval_path)
  from maskBase64Content_replaces_iff_long [OF ret p0 h0] kb
  have a: "getValueAtPath (Some two_parts_masked) (geminiPath 0 0) =
     Inr (Some (JStr ''[BASE64_DATA_MASKED: ~0 KB]''))" by simp
  from maskBase64Content_replaces_iff_long [OF ret p1 h1]
  have b: "getValueAtPath (Some two_parts_masked) (geminiPath 0 1) =
     Inr (Some (JStr (replicate 100 (CHR ''A''))))" by simp
  from maskBase64Content_replaces_iff_long [OF ret' q0 g0] kb
  have c: "getValueAtPath (Some one_prediction_masked) (imagenPath 0) =
     Inr (Some (JStr ''[BASE64_DATA_MASKED: ~0 KB]''))" by simp
  from ret h0 a h1 b ret' g0 c show ?thesis by simp
qed

subsection \<open>Exceptions of the masker and of the accessor\<close>

text \<open>
  Claim C7 says that \<^verbatim>\<open>maskBase64Content\<close> throws on no input, also when the
  \<^verbatim>\<open>predictions\<close> or \<^verbatim>\<open>candidates\<close> array holds \<^verbatim>\<open>null\<close>. On \<^verbatim>\<open>{predictions: [null]}\<close> the
  accessor reads \<^verbatim>\<open>bytesBase64Encoded\<close> of \<^verbatim>\<open>null\<close>, and on \<^verbatim>\<open>{candidates: [null]}\<close> the
  collection reads \<^verbatim>\<open>content\<close> of \<^verbatim>\<open>null\<close>: both calls end in a TypeError.
\<close>

theorem maskBase64Content_null_element_throws:
  "maskBase64Content (Some (JObj [(''predictions'', JArr [JNull])])) = Inl TypeError \<and>
   maskBase64Content (Some (JObj [(''candidates'', JArr [JNull])])) = Inl TypeError"
  by (simp add: maskBase64Content_def deepCopy_def base64Paths_def findImagenBase64Paths_def
      findGeminiBase64Paths_def candidateParts_def eval_path)

theorem maskBase64Content_null_element_throws_witness:
  "maskBase64Content (Some (JObj [(''predictions'', JArr [JNull])]))
     \<noteq> Inr (Some (JObj [(''predictions'', JArr [JNull])]))"
  using maskBase64Content_null_element_throws by simp

text \<open>
  Claim C8 says that with a missing intermediate segment \<^verbatim>\<open>getValueAtPath\<close> returns
  \<^verbatim>\<open>undefined\<close> and \<^verbatim>\<open>setValueAtPath\<close> does nothing, neither throwing. On the root
  \<^verbatim>\<open>{a: null}\<close> and the path \<^verbatim>\<open>a.b.c\<close> the segment \<^verbatim>\<open>b\<close> is missing; both functions test
  for \<^verbatim>\<open>undefined\<close> only, read \<^verbatim>\<open>b\<close> of \<^verbatim>\<open>null\<close> and end in a TypeError.
\<close>

theorem path_accessor_null_throws:
  "getValueAtPath (Some (JObj [(''a'', JNull)])) ''a.b.c'' = Inl TypeError \<and>
   setValueAtPath (JObj [(''a'', JNull)]) ''a.b.c'' (JNum 5) = Inl TypeError"
  by (simp add: getValueAtPath_def setValueAtPath_def pathSegments_def)

subsection \<open>Writing base64 data and reading it back\<close>

text \<open>
  Claim C9 says that for every input string, \<^verbatim>\<open>saveFile\<close> with \<^verbatim>\<open>isBase64\<close> followed by reading
  the file back and encoding its bytes reproduces the string. \<^verbatim>\<open>Buffer.from\<close> accepts input
  without padding: the string \<^verbatim>\<open>QQ\<close> is written as the single byte 0x41, which encodes to
  \<^verbatim>\<open>QQ==\<close>.
\<close>

theorem saveFile_unpadded_counterexample:
  "saveFile posixPlatform ''images/a.png'' (Value (JStr ''QQ'')) True emptyFs
     = (Inr ''images/a.png'',
        \<lparr>dirs = [''images''], files = [(''images/a.png'', Bytes [0x41])], denied = (\<lambda>p. False)\<rparr>) \<and>
   imageToBase64
     \<lparr>dirs = [''images''], files = [(''images/a.png'', Bytes [0x41])], denied = (\<lambda>p. False)\<rparr>
     ''images/a.png'' = Some ''QQ=='' \<and>
   ''QQ=='' \<noteq> ''QQ''"
  by (simp add: saveFile_def io_bind_def ensureDir_def mkdirSync_def io_lift_def
      writeFileSync_def io_return_def posixPlatform_def posixDirname_def emptyFs_def fileData_def
      decodeBase64_def b64val_def b64alphabet_def imageToBase64_def readFile_def b64char_def)

text \<open>
  Claim C9, amended to the strings that are the base64 encoding of some bytes: when the file
  system accepts the write, \<^verbatim>\<open>saveFile\<close> returns the path, and the file read back and encoded
  is the input string.
\<close>

theorem saveFile_base64_roundtrip:
  assumes "\<not> denied s filePath" and "\<not> denied s (pathDirname pf filePath)"
  shows "\<exists>s'. saveFile pf filePath (Value (JStr (encodeBase64 bs))) True s = (Inr filePath, s') \<and>
              imageToBase64 s' filePath = Some (encodeBase64 bs)"
proof -
  have "fileData (Value (JStr (encodeBase64 bs))) True = Inr (Bytes bs)"
    by (simp add: fileData_def decode_encode)
  with assms have "saveFile pf filePath (Value (JStr (encodeBase64 bs))) True s
      = (Inr filePath, afterSave pf s filePath (Bytes bs))"
    by (rule saveFile_ok)
  then show ?thesis
    by (simp add: imageToBase64_def readFile_afterSave)
qed

theorem saveFile_base64_roundtrip_witness:
  "\<not> denied emptyFs ''images/a.png'' \<and>
   \<not> denied emptyFs (pathDirname posixPlatform ''images/a.png'') \<and>
   encodeBase64 [0x41] = ''QQ=='' \<and>
   imageToBase64
     (snd (saveFile posixPlatform ''images/a.png'' (Value (JStr ''QQ=='')) True emptyFs))
     ''images/a.png'' = Some ''QQ==''"
proof -
  have d1: "\<not> denied emptyFs ''images/a.png''" by (simp add: emptyFs_def)
  have d2: "\<not> denied emptyFs (pathDirname posixPlatform ''images/a.png'')"
    by (simp add: emptyFs_def)
  have e: "encodeBase64 [0x41] = ''QQ==''" by (simp add: b64char_def b64alphabet_def)
  from saveFile_base64_roundtrip [OF d1 d2, of "[0x41]"] e
  have "imageToBase64
     (snd (saveFile posixPlatform ''images/a.png'' (Value (JStr ''QQ=='')) True emptyFs))
     ''images/a.png'' = Some ''QQ==''" by auto
  with d1 d2 e show ?thesis by simp
qed

subsection \<open>The Gemini normalizer\<close>

text \<open>
  Claim C5 says that for every response whose first candidate has the finish reason
  \<^verbatim>\<open>IMAGE_SAFETY\<close> the normalizer returns \<^verbatim>\<open>success: false\<close> with \<^verbatim>\<open>safetyBlock: true\<close>, whatever
  the later candidates hold. \<^verbatim>\<open>processGeminiResponse\<close> begins with the masked save of the
  response, outside its \<^verbatim>\<open>try\<close> and before it looks at the finish reason. On the response
  \<^verbatim>\<open>{candidates: [{finishReason: "IMAGE_SAFETY"}, null]}\<close> the masker reads \<^verbatim>\<open>content\<close> of the
  \<^verbatim>\<open>null\<close> candidate: the normalizer ends in a TypeError, returns no result and writes no file,
  on every platform and file system.
\<close>

theorem processGeminiResponse_null_candidate_throws:
  "getProp blockedThenNull ''candidates''
     = Inr (Some (JArr [JObj [(''finishReason'', JStr ''IMAGE_SAFETY'')], JNull])) \<and>
   getProp (JObj [(''finishReason'', JStr ''IMAGE_SAFETY'')]) ''finishReason''
     = Inr (Some (JStr ''IMAGE_SAFETY'')) \<and>
   processGeminiResponse pf blockedThenNull rid outDir jdir s = (Inl TypeError, s)"
proof -
  have "maskBase64Content (Some blockedThenNull) = Inl TypeError"
    by (simp add: maskBase64Content_def deepCopy_def base64Paths_def findGeminiBase64Paths_def
        candidateParts_def blockedThenNull_def)
  then have "maskAndSaveJson pf blockedThenNull p s = (Inl TypeError, s)" for p
    by (rule maskAndSaveJson_throws)
  then show ?thesis
    by (simp add: processGeminiResponse_def Let_def io_bind_def blockedThenNull_def)
qed

theorem processGeminiResponse_null_candidate_throws_witness:
  "processGeminiResponse posixPlatform blockedThenNull ''req'' ''images'' ''output'' emptyFs
     = (Inl TypeError, emptyFs)"
  using processGeminiResponse_null_candidate_throws
    [of posixPlatform "''req''" "''images''" "''output''" emptyFs]
  by simp

text \<open>
  Claim C6 says that a response whose first candidate holds two parts with inline data and
  one text part has its two images saved as \<^verbatim>\<open>_generated_1\<close> and \<^verbatim>\<open>_generated_2\<close>. The
  normalizer returns before it extracts anything when the first candidate has the finish
  reason \<^verbatim>\<open>IMAGE_SAFETY\<close>: on \<open>blockedTwoImageResponse\<close>, whose first candidate holds an image,
  a text and a second image, the result is the safety block and the only file written is the
  masked response.
\<close>

theorem processGeminiResponse_blocked_images_counterexample:
  "getValueAtPath (Some blockedTwoImageResponse) ''candidates[0].content.parts''
     = Inr (Some (JArr
         [JObj [(''inlineData'',
            JObj [(''mimeType'', JStr ''image/png''), (''data'', JStr ''QUJD'')])],
          JObj [(''text'', JStr ''two pictures'')],
          JObj [(''inlineData'',
            JObj [(''mimeType'', JStr ''image/jpeg''), (''data'', JStr ''REVG'')])]])) \<and>
   fst (processGeminiResponse posixPlatform blockedTwoImageResponse ''req'' ''images'' ''output''
          emptyFs)
     = Inr [(''success'', RBool False), (''error'', RMsg ImageSafety),
            (''safetyBlock'', RBool True), (''responseFile'', RPath ''output/req_response.json'')] \<and>
   files (snd (processGeminiResponse posixPlatform blockedTwoImageResponse ''req'' ''images''
                 ''output'' emptyFs))
     = [(''output/req_response.json'', JsonChars blockedTwoImageResponse 2)]"
proof -
  let ?a = "JObj [(''inlineData'',
        JObj [(''mimeType'', JStr ''image/png''), (''data'', JStr ''QUJD'')])]"
  let ?t = "JObj [(''text'', JStr ''two pictures'')]"
  let ?b = "JObj [(''inlineData'',
        JObj [(''mimeType'', JStr ''image/jpeg''), (''data'', JStr ''REVG'')])]"
  let ?c0 = "JObj [(''content'', JObj [(''parts'', JArr [?a, ?t, ?b])]),
                   (''finishReason'', JStr ''IMAGE_SAFETY'')]"
  have "pathSegments ''candidates[0].content.parts'' = [''candidates'', ''0'', ''content'', ''parts'']"
    by (simp add: pathSegments_def is_digit_def)
  then have parts: "getValueAtPath (Some blockedTwoImageResponse) ''candidates[0].content.parts''
     = Inr (Some (JArr [?a, ?t, ?b]))"
    by (simp add: blockedTwoImageResponse_def getValueAtPath_def index_of_def show_nat.simps
        digit_char_def)
  have c: "getProp blockedTwoImageResponse ''candidates'' = Inr (Some (JArr (?c0 # [])))"
    by (simp add: blockedTwoImageResponse_def)
  have f: "getProp ?c0 ''finishReason'' = Inr (Some (JStr ''IMAGE_SAFETY''))" by simp
  have k: "maskBase64Content (Some blockedTwoImageResponse) = Inr (Some blockedTwoImageResponse)"
    by (simp add: maskBase64Content_def deepCopy_def base64Paths_def findGeminiBase64Paths_def
        candidateParts_def blockedTwoImageResponse_def eval_path upt_rec)
  from processGeminiResponse_blocked [OF c f k emptyFs_accepts,
      of posixPlatform "''req''" "''images''" "''output''"]
  have "processGeminiResponse posixPlatform blockedTwoImageResponse ''req'' ''images'' ''output''
          emptyFs
      = (Inr (safetyResult ''output/req_response.json''),
         afterSave posixPlatform emptyFs ''output/req_response.json''
           (JsonChars blockedTwoImageResponse 2))"
    by (simp add: posixPlatform_simps gemini_joins)
  with parts show ?thesis
    by (simp add: safetyResult_def afterSave_simps emptyFs_def)
qed

text \<open>
  Claim C6, amended. The first candidate does not have the finish reason \<^verbatim>\<open>IMAGE_SAFETY\<close>; its
  parts are two parts with inline data, each a non-empty string with a MIME type of the form
  \<open>ty/sub\<close>, among any number of parts without \<^verbatim>\<open>inlineData\<close>; the masked save of the response
  does not throw (it throws when a candidate or a part is \<^verbatim>\<open>null\<close>) and the file system accepts
  every write. Then \<^verbatim>\<open>processGeminiResponse\<close> saves exactly two images, named
  \<^verbatim>\<open>_generated_1.sub1\<close> and \<^verbatim>\<open>_generated_2.sub2\<close> in the order of the parts, wherever the parts
  without inline data stand: they take no number.
\<close>

theorem processGeminiResponse_two_images:
  assumes "getProp result ''candidates'' = Inr (Some (JArr (c0 # cs)))"
    and "getProp c0 ''finishReason'' \<noteq> Inr (Some (JStr ''IMAGE_SAFETY''))"
    and "getProp c0 ''content'' = Inr (Some content)" and "truthy content"
    and "getProp content ''parts'' = Inr (Some (JArr (xs @ a # ys @ b # zs)))"
    and "list_all textOnly xs" and "list_all textOnly ys" and "list_all textOnly zs"
    and "imagePartOf a ty1 sub1 d1" and "imagePartOf b ty2 sub2 d2"
    and "maskBase64Content (Some result) = Inr (Some masked)" and "\<forall>p. \<not> denied s p"
  shows "fst (processGeminiResponse pf result rid outDir jdir s) =
           Inr [(''success'', RBool True), (''outputDir'', RPath outDir),
                (''jsonDir'', RPath jdir),
                (''images'', RPaths
                   [pathJoin pf outDir (rid @ ''_generated_1.'' @ sub1),
                    pathJoin pf outDir (rid @ ''_generated_2.'' @ sub2)]),
                (''jsonFiles'', RObj [(''response'',
                   RPath (pathJoin pf jdir (rid @ ''_response.json'')))])] \<and>
         files (snd (processGeminiResponse pf result rid outDir jdir s)) =
           files s @
             [(pathJoin pf jdir (rid @ ''_response.json''), JsonChars masked 2),
              (pathJoin pf outDir (rid @ ''_generated_1.'' @ sub1), Bytes (decodeBase64 d1)),
              (pathJoin pf outDir (rid @ ''_generated_2.'' @ sub2), Bytes (decodeBase64 d2))]"
proof -
  let ?rf = "pathJoin pf jdir (rid @ ''_response.json'')"
  from assms(12) have "\<not> denied s ?rf" "\<not> denied s (pathDirname pf ?rf)" by simp_all
  with assms(11) have
    sv: "maskAndSaveJson pf result ?rf s = (Inr ?rf, afterSave pf s ?rf (JsonChars masked 2))"
    by (rule maskAndSaveJson_returns)
  let ?s0 = "afterSave pf s ?rf (JsonChars masked 2)"
  from assms(12) have d0: "\<forall>p. \<not> denied ?s0 p" by (simp add: afterSave_simps)
  from assms(3) have "c0 \<noteq> JNull" by auto
  with assms(1,2) have sb: "safetyBlocked result = Inr False" by (simp add: safetyBlocked_first)
  have fp: "firstCandidateParts result = Inr (xs @ a # ys @ b # zs)"
    using assms(1,3,4,5) by (rule firstCandidateParts_array)
  have ex: "extractParts pf rid outDir 0 [] (xs @ a # ys @ b # zs) ?s0
     = ((None, [pathJoin pf outDir (generatedName rid 1 sub1),
                pathJoin pf outDir (generatedName rid 2 sub2)]),
        afterSave pf
          (afterSave pf ?s0 (pathJoin pf outDir (generatedName rid 1 sub1))
             (Bytes (decodeBase64 d1)))
          (pathJoin pf outDir (generatedName rid 2 sub2)) (Bytes (decodeBase64 d2)))"
    using assms(6,7,8,9,10) d0 by (rule extractParts_two)
  from sv sb fp ex have "processGeminiResponse pf result rid outDir jdir s =
      (Inr (successResult outDir jdir
              [pathJoin pf outDir (generatedName rid 1 sub1),
               pathJoin pf outDir (generatedName rid 2 sub2)] ?rf),
       afterSave pf
          (afterSave pf ?s0 (pathJoin pf outDir (generatedName rid 1 sub1))
             (Bytes (decodeBase64 d1)))
          (pathJoin pf outDir (generatedName rid 2 sub2)) (Bytes (decodeBase64 d2)))"
    by (simp add: processGeminiResponse_def Let_def io_bind_def io_lift_def io_return_def)
  then show ?thesis
    by (simp add: successResult_def afterSave_simps generatedName_def show_nat_small)
qed

theorem processGeminiResponse_two_images_witness:
  "maskBase64Content (Some twoImageResponse) = Inr (Some twoImageResponse) \<and>
   imagePartOf (JObj [(''inlineData'',
        JObj [(''mimeType'', JStr ''image/png''), (''data'', JStr ''QUJD'')])]) ''image'' ''png'' ''QUJD'' \<and>
   imagePartOf (JObj [(''inlineData'',
        JObj [(''mimeType'', JStr ''image/jpeg''), (''data'', JStr ''REVG'')])]) ''image'' ''jpeg'' ''REVG'' \<and>
   textOnly (JObj [(''text'', JStr ''two pictures'')]) \<and>
   fst (processGeminiResponse posixPlatform twoImageResponse ''req'' ''images'' ''output'' emptyFs)
     = Inr [(''success'', RBool True), (''outputDir'', RPath ''images''),
            (''jsonDir'', RPath ''output''),
            (''images'', RPaths [''images/req_generated_1.png'', ''images/req_generated_2.jpeg'']),
            (''jsonFiles'', RObj [(''response'', RPath ''output/req_response.json'')])] \<and>
   files (snd (processGeminiResponse posixPlatform twoImageResponse ''req'' ''images'' ''output''
                 emptyFs))
     = [(''output/req_response.json'', JsonChars twoImageResponse 2),
        (''images/req_generated_1.png'', Bytes (decodeBase64 ''QUJD'')),
        (''images/req_generated_2.jpeg'', Bytes (decodeBase64 ''REVG''))]"
proof -
  let ?a = "JObj [(''inlineData'',
        JObj [(''mimeType'', JStr ''image/png''), (''data'', JStr ''QUJD'')])]"
  let ?t = "JObj [(''text'', JStr ''two pictures'')]"
  let ?b = "JObj [(''inlineData'',
        JObj [(''mimeType'', JStr ''image/jpeg''), (''data'', JStr ''REVG'')])]"
  let ?content = "JObj [(''parts'', JArr [?a, ?t, ?b])]"
  let ?c0 = "JObj [(''content'', ?content), (''finishReason'', JStr ''STOP'')]"
  have c: "getProp twoImageResponse ''candidates'' = Inr (Some (JArr (?c0 # [])))"
    by (simp add: twoImageResponse_def)
  have f: "getProp ?c0 ''finishReason'' \<noteq> Inr (Some (JStr ''IMAGE_SAFETY''))" by simp
  have ct: "getProp ?c0 ''content'' = Inr (Some ?content)" "truthy ?content" by simp_all
  have ps: "getProp ?content ''parts'' = Inr (Some (JArr ([] @ ?a # [?t] @ ?b # [])))" by simp
  have t: "list_all textOnly []" "list_all textOnly [?t]" by (simp_all add: textOnly_def)
  have ia: "imagePartOf ?a ''image'' ''png'' ''QUJD''" by (simp add: imagePartOf_def)
  have ib: "imagePartOf ?b ''image'' ''jpeg'' ''REVG''" by (simp add: imagePartOf_def)
  have k: "maskBase64Content (Some twoImageResponse) = Inr (Some twoImageResponse)"
    by (simp add: maskBase64Content_def deepCopy_def base64Paths_def findGeminiBase64Paths_def
        candidateParts_def twoImageResponse_def eval_path upt_rec)
  from processGeminiResponse_two_images
    [OF c f ct ps t(1) t(2) t(1) ia ib k emptyFs_accepts,
      of posixPlatform "''req''" "''images''" "''output''"]
  have "fst (processGeminiResponse posixPlatform twoImageResponse ''req'' ''images'' ''output'' emptyFs)
     = Inr [(''success'', RBool True), (''outputDir'', RPath ''images''),
            (''jsonDir'', RPath ''output''),
            (''images'', RPaths [''images/req_generated_1.png'', ''images/req_generated_2.jpeg'']),
            (''jsonFiles'', RObj [(''response'', RPath ''output/req_response.json'')])]"
    and "files (snd (processGeminiResponse posixPlatform twoImageResponse ''req'' ''images'' ''output''
                 emptyFs))
     = [(''output/req_response.json'', JsonChars twoImageResponse 2),
        (''images/req_generated_1.png'', Bytes (decodeBase64 ''QUJD'')),
        (''images/req_generated_2.jpeg'', Bytes (decodeBase64 ''REVG''))]"
    by (simp_all add: posixPlatform_simps gemini_joins emptyFs_def)
  with k ia ib t(2) show ?thesis by simp
qed

subsection \<open>A failing network\<close>

text \<open>
  Claim C4 says that when the request and its retry fail, the exception leaves the generators
  and is not turned into a result with \<^verbatim>\<open>success: false\<close>. \<^verbatim>\<open>fetchWithProxy\<close> does throw the
  first error again, but the body of each generator stands in a \<^verbatim>\<open>try\<close> whose handler returns
  \<^verbatim>\<open>{ success: false, error: error.message }\<close>: on a network where both attempts fail, each
  generator returns that result.
\<close>

theorem generators_return_on_network_failure_counterexample:
  "fst (generateImagesWithImagen posixPlatform offlineWorld promptOnly emptyFs)
     = Inr [(''success'', RBool False), (''error'', RMsg (ErrorMessage (NetError False)))] \<and>
   fst (generateImagesWithGemini posixPlatform offlineWorld promptOnly emptyFs)
     = Inr [(''success'', RBool False), (''error'', RMsg (ErrorMessage (NetError False)))]"
proof -
  have "maskBase64Content (Some (geminiRequest (JStr ''a cat'') []))
      = Inr (Some (geminiRequest (JStr ''a cat'') []))"
    by (simp add: maskBase64Content_def deepCopy_def base64Paths_def geminiRequest_def)
  then show ?thesis
    by (simp add: generateImagesWithImagen_def generateImagesWithGemini_def Let_def io_catch_def
        io_bind_def io_lift_def io_return_def io_throw_def saveConfig_def fetchWithProxy_def
        offlineWorld_def promptOnly_def errorResult_def ensureDir_def mkdirSync_def emptyFs_def
        maskAndSaveJson_def saveFile_def fileData_def writeFileSync_def)
qed

text \<open>
  Claim C4, amended: when the request throws a network error and the retry, if one is made,
  fails too, while the preference store, the credential provider and the file system work and
  the reference images can be read, \<^verbatim>\<open>generateImagesWithImagen\<close> and
  \<^verbatim>\<open>generateImagesWithGemini\<close> return \<^verbatim>\<open>{ success: false, error: error.message }\<close> for the
  error of the first request; nothing is thrown to the caller.
\<close>

theorem generators_catch_network_failure:
  assumes "firstFetch w = Inl (NetError t)" and "retryFetch w = Inl e2"
    and "\<not> configFails w" and "accessToken w = Inr token" and "\<forall>p. \<not> denied s p"
    and "\<forall>p \<in> set (withDefault [] (referenceImages opts)). \<exists>bs. readFile s p = Some (Bytes bs)"
  shows "fst (generateImagesWithImagen pf w opts s)
           = Inr [(''success'', RBool False), (''error'', RMsg (ErrorMessage (NetError t)))] \<and>
         fst (generateImagesWithGemini pf w opts s)
           = Inr [(''success'', RBool False), (''error'', RMsg (ErrorMessage (NetError t)))]"
  using imagen_catches [OF assms(1,2,3,4)] gemini_catches [OF assms(1,2,3,5,6)]
  by (simp add: errorResult_def)

theorem generators_catch_network_failure_witness:
  "firstFetch offlineWorld = Inl (NetError False) \<and>
   retryFetch offlineWorld = Inl (NetError False) \<and>
   fst (generateImagesWithImagen posixPlatform offlineWorld promptOnly emptyFs)
     = Inr [(''success'', RBool False), (''error'', RMsg (ErrorMessage (NetError False)))]"
proof -
  have a: "firstFetch offlineWorld = Inl (NetError False)"
    "retryFetch offlineWorld = Inl (NetError False)"
    "\<not> configFails offlineWorld" "accessToken offlineWorld = Inr ''token''"
    by (simp_all add: offlineWorld_def)
  have d: "\<forall>p. \<not> denied emptyFs p" by (simp add: emptyFs_def)
  have r: "\<forall>p \<in> set (withDefault [] (referenceImages promptOnly)).
             \<exists>bs. readFile emptyFs p = Some (Bytes bs)"
    by (simp add: promptOnly_def)
  from generators_catch_network_failure [OF a d r] a show ?thesis by simp
qed

subsection \<open>The Imagen normalizer\<close>




text \<open>
  Claim C10: in the standard format the number that ends the name of a saved image is the
  position of its element in the \<^verbatim>\<open>images\<close> array, not a count of saved images. When the
  request is answered with a response that has at least one prediction, each a filter
  message or a prediction in the standard format, and the preference store, the credential
  provider and the file system work, \<^verbatim>\<open>generateImagesWithImagen\<close> saves exactly one file for each pair of a
  prediction \<open>i\<close> in the standard format (counted from 0 among all predictions) and a position
  \<open>k\<close> of its \<^verbatim>\<open>images\<close> whose element has bytes, named \<^verbatim>\<open><requestId>_i_k.png\<close>, in the order
  of the pairs; an element without bytes has no file, and \<^verbatim>\<open>generated\<close> is the number of files
  saved. So the positions in the names can have gaps: for three elements of which the second
  has no bytes, the files are numbered 0 and 2.
\<close>

theorem generateImagesWithImagen_suffix_is_position:
  assumes "\<not> configFails w" and "accessToken w = Inr token"
    and "firstFetch w = Inr resp" and "ok resp" and "jsonBody resp = Some result"
    and "getProp result ''predictions'' = Inr (Some (JArr preds))" and "preds \<noteq> []"
    and "list_all (\<lambda>p. filterMessage p \<or> standardFormat p) preds"
    and "\<forall>p. \<not> denied s p"
  shows "\<exists>blocked masked.
           raiScan preds (Amount 0) = Inr (Inr blocked) \<and>
           maskBase64Content (Some result) = Inr (Some masked) \<and>
           fst (generateImagesWithImagen pf w opts s) =
             Inr (if savedPositions preds = []
                  then [(''success'', RBool False), (''error'', RMsg NoImagesSaved),
                        (''blocked'', RBool (positive blocked)),
                        (''blockedCount'', amountValue blocked)]
                  else [(''success'', RBool True),
                        (''outputDir'', RPath (withDefault ''./images'' (outputDir opts))),
                        (''images'', RPaths
                           (map (\<lambda>(i, k). pathJoin pf (withDefault ''./images'' (outputDir opts))
                                   ((''imagen_'' @ show_nat (now w)) @ ''_'' @ show_nat i @ ''_''
                                      @ show_nat k @ ''.png''))
                              (savedPositions preds))),
                        (''generated'', RNum (length (savedPositions preds))),
                        (''blocked'', amountValue blocked)]) \<and>
           files (snd (generateImagesWithImagen pf w opts s)) =
             files s
             @ (if debug w
                then [(pathJoin pf (debugDir pf (withDefault ''./images'' (outputDir opts)))
                         ((''imagen_'' @ show_nat (now w)) @ ''_debug.json''), DebugRecord)]
                else [])
             @ [(pathJoin pf (withDefault ''./output'' (jsonDir opts))
                   ((''imagen_'' @ show_nat (now w)) @ ''_request.json''),
                 JsonChars (imagenRequest opts) 2),
                (pathJoin pf (withDefault ''./output'' (jsonDir opts))
                   ((''imagen_'' @ show_nat (now w)) @ ''_response.json''),
                 JsonChars masked 2)]
             @ map (\<lambda>(i, k). (pathJoin pf (withDefault ''./images'' (outputDir opts))
                                   ((''imagen_'' @ show_nat (now w)) @ ''_'' @ show_nat i @ ''_''
                                      @ show_nat k @ ''.png''),
                                 Bytes (decodeBase64 (bytesOf (imagesOf (preds ! i) ! k)))))
                 (savedPositions preds)"
proof -
  let ?out = "withDefault ''./images'' (outputDir opts)"
  let ?rid = "''imagen_'' @ show_nat (now w)"
  from assms(8) have "list_all (\<lambda>x. x \<noteq> JNull) preds"
    by (induction preds) (auto elim: filterMessage_D standardFormat_D)
  with assms(6) have mk: "maskable result" by (simp add: maskable_def)
  from imagen_reaches_processing [OF assms(1,2,3,4,5) mk assms(9), of pf opts]
  obtain masked s1 where m: "maskBase64Content (Some result) = Inr (Some masked)"
    and d1: "\<forall>p. \<not> denied s1 p"
    and fl: "files s1 = files s
             @ (if debug w
                then [(pathJoin pf (debugDir pf (withDefault ''./images'' (outputDir opts)))
                         ((''imagen_'' @ show_nat (now w)) @ ''_debug.json''), DebugRecord)]
                else [])
             @ [(pathJoin pf (withDefault ''./output'' (jsonDir opts))
                   ((''imagen_'' @ show_nat (now w)) @ ''_request.json''),
                 JsonChars (imagenRequest opts) 2),
                (pathJoin pf (withDefault ''./output'' (jsonDir opts))
                   ((''imagen_'' @ show_nat (now w)) @ ''_response.json''),
                 JsonChars masked 2)]"
    and g: "generateImagesWithImagen pf w opts s =
             io_catch
               (processPredictions pf result (''imagen_'' @ show_nat (now w))
                  (withDefault ''./images'' (outputDir opts))
                  (pathJoin pf (withDefault ''./output'' (jsonDir opts))
                     ((''imagen_'' @ show_nat (now w)) @ ''_request.json''))
                  (pathJoin pf (withDefault ''./output'' (jsonDir opts))
                     ((''imagen_'' @ show_nat (now w)) @ ''_response.json'')))
               (\<lambda>error. io_return (errorResult error)) s1"
    by blast
  from processPredictions_positions [OF assms(6,7,8) d1, of pf ?rid ?out]
  obtain blocked s2 where sc: "raiScan preds (Amount 0) = Inr (Inr blocked)"
    and pr: "processPredictions pf result ?rid ?out
               (pathJoin pf (withDefault ''./output'' (jsonDir opts)) (?rid @ ''_request.json''))
               (pathJoin pf (withDefault ''./output'' (jsonDir opts)) (?rid @ ''_response.json'')) s1 =
             (Inr (if savedPositions preds = [] then nothingSavedResult blocked
                   else savedResult ?out
                          (map (\<lambda>(i, k). pathJoin pf ?out (imageName ?rid i k)) (savedPositions preds))
                          (length (savedPositions preds)) blocked), s2)"
    and f2: "files s2 = files s1 @ map (\<lambda>(i, k). (pathJoin pf ?out (imageName ?rid i k),
                                     Bytes (decodeBase64 (bytesOf (imagesOf (preds ! i) ! k)))))
                                  (savedPositions preds)"
    by blast
  from g pr have "generateImagesWithImagen pf w opts s =
      (Inr (if savedPositions preds = [] then nothingSavedResult blocked
                   else savedResult ?out
                          (map (\<lambda>(i, k). pathJoin pf ?out (imageName ?rid i k)) (savedPositions preds))
                          (length (savedPositions preds)) blocked), s2)"
    by (simp add: io_catch_def)
  with sc m fl f2 show ?thesis
    by (intro exI [of _ blocked] exI [of _ masked])
       (simp add: nothingSavedResult_def savedResult_def imageName_def)
qed

theorem generateImagesWithImagen_suffix_is_position_witness:
  "list_all (\<lambda>p. filterMessage p \<or> standardFormat p) gapPredictions \<and>
   savedPositions gapPredictions = [(0, 0), (0, 2), (2, 0)] \<and>
   fst (generateImagesWithImagen posixPlatform (answeringWorld gapResponse) promptOnly emptyFs)
     = Inr [(''success'', RBool True), (''outputDir'', RPath ''./images''),
            (''images'', RPaths [''images/imagen_0_0_0.png'', ''images/imagen_0_0_2.png'',
                                 ''images/imagen_0_2_0.png'']),
            (''generated'', RNum 3), (''blocked'', RNum 1)] \<and>
   files (snd (generateImagesWithImagen posixPlatform (answeringWorld gapResponse) promptOnly
                 emptyFs))
     = [(''output/imagen_0_request.json'', JsonChars (imagenRequest promptOnly) 2),
        (''output/imagen_0_response.json'', JsonChars gapResponse 2),
        (''images/imagen_0_0_0.png'', Bytes (decodeBase64 ''QUJD'')),
        (''images/imagen_0_0_2.png'', Bytes (decodeBase64 ''REVG'')),
        (''images/imagen_0_2_0.png'', Bytes (decodeBase64 ''R0hJ''))]"
proof -
  have k: "ok \<lparr>ok = True, status = 200, jsonBody = Some gapResponse\<rparr>"
    "jsonBody \<lparr>ok = True, status = 200, jsonBody = Some gapResponse\<rparr> = Some gapResponse"
    by simp_all
  have pr: "getProp gapResponse ''predictions'' = Inr (Some (JArr gapPredictions))"
    by (simp add: gapResponse_def)
  have ne: "gapPredictions \<noteq> []" by (simp add: gapPredictions_def)
  have b: "bytesOf (imagesOf (gapPredictions ! 0) ! 0) = ''QUJD''"
    "bytesOf (imagesOf (gapPredictions ! 0) ! 2) = ''REVG''"
    "bytesOf (imagesOf (gapPredictions ! 2) ! 0) = ''R0hJ''"
    by (simp_all add: gapPredictions_def gapImages_def imagesOf_def bytesOf_def)
  from generateImagesWithImagen_suffix_is_position
    [OF answeringWorld_simps(1,2,3) k pr ne gap_kinds emptyFs_accepts, of posixPlatform promptOnly]
  obtain blocked masked where "raiScan gapPredictions (Amount 0) = Inr (Inr blocked)"
    and "maskBase64Content (Some gapResponse) = Inr (Some masked)"
    and r: "fst (generateImagesWithImagen posixPlatform (answeringWorld gapResponse) promptOnly emptyFs) =
             Inr (if savedPositions gapPredictions = []
                  then [(''success'', RBool False), (''error'', RMsg NoImagesSaved),
                        (''blocked'', RBool (positive blocked)),
                        (''blockedCount'', amountValue blocked)]
                  else [(''success'', RBool True),
                        (''outputDir'', RPath (withDefault ''./images'' (outputDir promptOnly))),
                        (''images'', RPaths
                           (map (\<lambda>(i, k). pathJoin posixPlatform (withDefault ''./images'' (outputDir promptOnly))
                                   ((''imagen_'' @ show_nat (now (answeringWorld gapResponse))) @ ''_'' @ show_nat i @ ''_''
                                      @ show_nat k @ ''.png''))
                              (savedPositions gapPredictions))),
                        (''generated'', RNum (length (savedPositions gapPredictions))),
                        (''blocked'', amountValue blocked)])"
    and f: "files (snd (generateImagesWithImagen posixPlatform (answeringWorld gapResponse) promptOnly emptyFs)) =
             files emptyFs
             @ (if debug (answeringWorld gapResponse)
                then [(pathJoin posixPlatform (debugDir posixPlatform (withDefault ''./images'' (outputDir promptOnly)))
                         ((''imagen_'' @ show_nat (now (answeringWorld gapResponse))) @ ''_debug.json''), DebugRecord)]
                else [])
             @ [(pathJoin posixPlatform (withDefault ''./output'' (jsonDir promptOnly))
                   ((''imagen_'' @ show_nat (now (answeringWorld gapResponse))) @ ''_request.json''),
                 JsonChars (imagenRequest promptOnly) 2),
                (pathJoin posixPlatform (withDefault ''./output'' (jsonDir promptOnly))
                   ((''imagen_'' @ show_nat (now (answeringWorld gapResponse))) @ ''_response.json''),
                 JsonChars masked 2)]
             @ map (\<lambda>(i, k). (pathJoin posixPlatform (withDefault ''./images'' (outputDir promptOnly))
                                   ((''imagen_'' @ show_nat (now (answeringWorld gapResponse))) @ ''_'' @ show_nat i @ ''_''
                                      @ show_nat k @ ''.png''),
                                 Bytes (decodeBase64 (bytesOf (imagesOf (gapPredictions ! i) ! k)))))
                 (savedPositions gapPredictions)"
    by blast
  then have bl: "blocked = Amount 1" and ma: "masked = gapResponse"
    by (simp_all add: gap_scan gap_masked)
  from r bl have "fst (generateImagesWithImagen posixPlatform (answeringWorld gapResponse) promptOnly emptyFs)
     = Inr [(''success'', RBool True), (''outputDir'', RPath ''./images''),
            (''images'', RPaths [''images/imagen_0_0_0.png'', ''images/imagen_0_0_2.png'',
                                 ''images/imagen_0_2_0.png'']),
            (''generated'', RNum 3), (''blocked'', RNum 1)]"
    by (simp add: gap_positions answeringWorld_simps(4) promptOnly_dirs show_nat_small
        posixPlatform_simps gap_joins)
  moreover from f ma have "files (snd (generateImagesWithImagen posixPlatform (answeringWorld gapResponse) promptOnly
                 emptyFs))
     = [(''output/imagen_0_request.json'', JsonChars (imagenRequest promptOnly) 2),
        (''output/imagen_0_response.json'', JsonChars gapResponse 2),
        (''images/imagen_0_0_0.png'', Bytes (decodeBase64 ''QUJD'')),
        (''images/imagen_0_0_2.png'', Bytes (decodeBase64 ''REVG'')),
        (''images/imagen_0_2_0.png'', Bytes (decodeBase64 ''R0hJ''))]"
    by (simp add: gap_positions answeringWorld_simps(4,5) promptOnly_dirs show_nat_small
        posixPlatform_simps gap_joins default_joins b emptyFs_def)
  ultimately show ?thesis using gap_kinds gap_positions by simp
qed

end
